(* ===== verification/WN_Prelude.thy ===== *)
theory WN_Prelude
  imports Main "HOL-Library.Word" "HOL-Library.State_Monad"
begin

unbundle bit_operations_syntax

text \<open>
  Shared vocabulary of the development.

  \<^item> Go's types: bytes, strings (a Go string is a byte sequence, so \<^typ>\<open>string\<close> fits),
    errors (an \<open>error\<close> value is the text its \<open>Error()\<close> returns; \<open>nil\<close> is \<^const>\<open>None\<close>),
    and the outcome of a function that may panic.
  \<^item> Stateful code: the state monad of the library, a weakest precondition \<open>wp\<close> and an
    invariant predicate \<open>keeps\<close>, with their rules in the collections \<open>wp_simps\<close> and
    \<open>keeps_intros\<close>.
  \<^item> \<open>sync.Map\<close>: the interface locale \<open>sync_map\<close> that every manager's maps satisfy.
  \<^item> \<open>encoding/binary\<close>: big-endian 16 and 32 bit integers.
\<close>

section \<open>Types of the Go programs\<close>

type_synonym byte = "8 word"
type_synonym bytes = "byte list"
type_synonym goerr = string
type_synonym peer_id = string

text \<open>A call returns, panics, or never returns.\<close>

datatype 'a outcome = Returns 'a | Panics | Hangs

definition str_bytes :: "string \<Rightarrow> bytes" where
  "str_bytes s = map of_char s"

definition bytes_str :: "bytes \<Rightarrow> string" where
  "bytes_str b = map (\<lambda>x. char_of (unat x)) b"

lemma length_str_bytes [simp]: "length (str_bytes s) = length s"
  by (simp add: str_bytes_def)

lemma char_of_byte [simp]: "char_of (unat (of_char c :: byte)) = c"
proof -
  have "unat (of_char c :: byte) = take_bit 8 (of_char c :: nat)"
    by (simp add: of_nat_of_char [symmetric, where 'a = byte] unsigned_of_nat
        del: of_nat_of_char)
  moreover have "take_bit 8 (of_char c :: nat) = of_char c"
    using char_of_eq_iff [of "of_char c :: nat" c] by simp
  ultimately show ?thesis by (simp add: char_of_eq_iff)
qed

lemma bytes_str_inverse [simp]: "bytes_str (str_bytes s) = s"
  by (simp add: str_bytes_def bytes_str_def comp_def)

section \<open>Stateful code\<close>

text \<open>
  A Go method with side effects is a computation of the state monad: it maps the state of
  the node to its results and the next state. \<open>wp m Q s\<close> says that running \<open>m\<close> from \<open>s\<close>
  ends with a result and a state that satisfy \<open>Q\<close>; computations are total functions, so
  this is total correctness.
\<close>

abbreviation ret :: "'a \<Rightarrow> ('s, 'a) state" where
  "ret \<equiv> State_Monad.return"

definition gets :: "('s \<Rightarrow> 'a) \<Rightarrow> ('s, 'a) state" where
  "gets f = State (\<lambda>s. (f s, s))"

definition modify :: "('s \<Rightarrow> 's) \<Rightarrow> ('s, unit) state" where
  "modify f = State (\<lambda>s. ((), f s))"

definition wp :: "('s, 'a) state \<Rightarrow> ('a \<Rightarrow> 's \<Rightarrow> bool) \<Rightarrow> 's \<Rightarrow> bool" where
  "wp m Q s = (case run_state m s of (a, t) \<Rightarrow> Q a t)"

definition keeps :: "('s \<Rightarrow> bool) \<Rightarrow> ('s, 'a) state \<Rightarrow> bool" where
  "keeps I m = (\<forall>s. I s \<longrightarrow> I (snd (run_state m s)))"

text \<open>Sequencing of calls: the rest runs only when the first call returned.\<close>

definition obind ::
  "('s, 'a outcome) state \<Rightarrow> ('a \<Rightarrow> ('s, 'b outcome) state) \<Rightarrow> ('s, 'b outcome) state" where
  "obind m f = do {
     r \<leftarrow> m;
     (case r of Returns a \<Rightarrow> f a | Panics \<Rightarrow> ret Panics | Hangs \<Rightarrow> ret Hangs)
   }"

named_theorems wp_simps \<open>weakest preconditions of the monad's operations and of the model's\<close>
named_theorems keeps_intros \<open>rules that show that a computation keeps an invariant\<close>

lemma run_state_gets [simp]: "run_state (gets f) s = (f s, s)"
  by (simp add: gets_def)

lemma run_state_modify [simp]: "run_state (modify f) s = ((), f s)"
  by (simp add: modify_def)

lemma wp_return [simp]: "wp (ret a) Q = Q a"
  by (simp add: wp_def fun_eq_iff)

lemma wp_bind [simp]: "wp (m \<bind> f) Q = wp m (\<lambda>a. wp (f a) Q)"
  by (simp add: wp_def fun_eq_iff split: prod.splits)

lemma wp_gets [simp]: "wp (gets f) Q = (\<lambda>s. Q (f s) s)"
  by (simp add: wp_def fun_eq_iff)

lemma wp_modify [simp]: "wp (modify f) Q = (\<lambda>s. Q () (f s))"
  by (simp add: wp_def fun_eq_iff)

lemma wp_if [wp_simps]: "wp (if b then m else n) Q s = (if b then wp m Q s else wp n Q s)"
  by simp

lemma wp_case_option [wp_simps]:
  "wp (case x of None \<Rightarrow> m | Some a \<Rightarrow> f a) Q s =
     (case x of None \<Rightarrow> wp m Q s | Some a \<Rightarrow> wp (f a) Q s)"
  by (cases x) simp_all

lemma wp_case_prod [wp_simps]:
  "wp (case p of (a, b) \<Rightarrow> f a b) Q s = (case p of (a, b) \<Rightarrow> wp (f a b) Q s)"
  by (cases p) simp

lemma wp_case_sum [wp_simps]:
  "wp (case x of Inl a \<Rightarrow> f a | Inr b \<Rightarrow> g b) Q s =
     (case x of Inl a \<Rightarrow> wp (f a) Q s | Inr b \<Rightarrow> wp (g b) Q s)"
  by (cases x) simp_all

lemma wp_obind [wp_simps]:
  "wp (obind m f) Q = wp m (\<lambda>r. case r of Returns a \<Rightarrow> wp (f a) Q | Panics \<Rightarrow> Q Panics
     | Hangs \<Rightarrow> Q Hangs)"
  by (simp add: obind_def wp_def fun_eq_iff split: prod.splits outcome.splits)

lemma run_obind [simp]:
  "run_state (obind m f) s = (case run_state m s of
     (Returns a, t) \<Rightarrow> run_state (f a) t | (Panics, t) \<Rightarrow> (Panics, t) | (Hangs, t) \<Rightarrow> (Hangs, t))"
  by (simp add: obind_def split: prod.splits outcome.splits)

lemma wp_True [simp]: "wp m (\<lambda>_ _. True) s"
  by (simp add: wp_def split: prod.splits)

lemma wp_mono: "wp m P s \<Longrightarrow> (\<And>a t. P a t \<Longrightarrow> Q a t) \<Longrightarrow> wp m Q s"
  by (simp add: wp_def split: prod.splits)

lemma wp_bind_step:
  "wp m P s \<Longrightarrow> (\<And>a t. P a t \<Longrightarrow> wp (f a) Q t) \<Longrightarrow> wp (m \<bind> f) Q s"
  by (simp add: wp_mono)

lemma wp_obind_step:
  assumes "wp m P s"
    and "\<And>r t. P r t \<Longrightarrow> case r of Returns a \<Rightarrow> wp (f a) Q t | Panics \<Rightarrow> Q Panics t | Hangs \<Rightarrow> Q Hangs t"
  shows "wp (obind m f) Q s"
  unfolding obind_def
  by (rule wp_bind_step [OF assms(1)], drule assms(2)) (simp split: outcome.splits)

lemma wp_run: "wp m Q s \<longleftrightarrow> Q (fst (run_state m s)) (snd (run_state m s))"
  by (simp add: wp_def split: prod.splits)

lemma wpD: "wp m Q s \<Longrightarrow> run_state m s = (a, t) \<Longrightarrow> Q a t"
  by (simp add: wp_def)

lemma keeps_wp: "keeps I m \<longleftrightarrow> (\<forall>s. I s \<longrightarrow> wp m (\<lambda>_. I) s)"
  by (simp add: keeps_def wp_run)

lemma keepsI: "(\<And>s. I s \<Longrightarrow> wp m (\<lambda>_. I) s) \<Longrightarrow> keeps I m"
  by (simp add: keeps_wp)

lemma keepsD: "keeps I m \<Longrightarrow> I s \<Longrightarrow> wp m (\<lambda>_. I) s"
  by (simp add: keeps_wp)

lemma keeps_run: "keeps I m \<Longrightarrow> I s \<Longrightarrow> run_state m s = (a, t) \<Longrightarrow> I t"
  by (metis keeps_def snd_conv)

lemma keeps_return [keeps_intros]: "keeps I (ret a)"
  by (simp add: keeps_wp)

lemma keeps_gets [keeps_intros]: "keeps I (gets f)"
  by (simp add: keeps_wp)

lemma keeps_modify [keeps_intros]: "(\<And>s. I s \<Longrightarrow> I (f s)) \<Longrightarrow> keeps I (modify f)"
  by (simp add: keeps_wp)

lemma keeps_bind [keeps_intros]:
  "keeps I m \<Longrightarrow> (\<And>a. keeps I (f a)) \<Longrightarrow> keeps I (m \<bind> f)"
  by (simp add: keeps_def split: prod.splits) (metis snd_conv)

lemma keeps_if [keeps_intros]:
  "(b \<Longrightarrow> keeps I m) \<Longrightarrow> (\<not> b \<Longrightarrow> keeps I n) \<Longrightarrow> keeps I (if b then m else n)"
  by simp

lemma keeps_case_option [keeps_intros]:
  "(x = None \<Longrightarrow> keeps I m) \<Longrightarrow> (\<And>a. x = Some a \<Longrightarrow> keeps I (f a)) \<Longrightarrow>
   keeps I (case x of None \<Rightarrow> m | Some a \<Rightarrow> f a)"
  by (cases x) simp_all

lemma keeps_case_prod [keeps_intros]:
  "(\<And>a b. p = (a, b) \<Longrightarrow> keeps I (f a b)) \<Longrightarrow> keeps I (case p of (a, b) \<Rightarrow> f a b)"
  by (cases p) simp

lemma keeps_case_sum [keeps_intros]:
  "(\<And>a. x = Inl a \<Longrightarrow> keeps I (f a)) \<Longrightarrow> (\<And>b. x = Inr b \<Longrightarrow> keeps I (g b)) \<Longrightarrow>
   keeps I (case x of Inl a \<Rightarrow> f a | Inr b \<Rightarrow> g b)"
  by (cases x) simp_all

lemma keeps_case_outcome [keeps_intros]:
  "(\<And>a. x = Returns a \<Longrightarrow> keeps I (f a)) \<Longrightarrow> keeps I m \<Longrightarrow> keeps I n \<Longrightarrow>
   keeps I (case x of Returns a \<Rightarrow> f a | Panics \<Rightarrow> m | Hangs \<Rightarrow> n)"
  by (cases x) simp_all

lemma keeps_obind [keeps_intros]:
  "keeps I m \<Longrightarrow> (\<And>a. keeps I (f a)) \<Longrightarrow> keeps I (obind m f)"
  unfolding obind_def by (intro keeps_intros)

lemma keeps_conj: "keeps I m \<Longrightarrow> keeps J m \<Longrightarrow> keeps (\<lambda>s. I s \<and> J s) m"
  by (simp add: keeps_def)

text \<open>A computation that reads the state first and acts on what it read.\<close>

lemma keeps_gets_bind:
  "(\<And>s. I s \<Longrightarrow> wp (f (g s)) (\<lambda>_. I) s) \<Longrightarrow> keeps I (gets g \<bind> f)"
  by (simp add: keeps_wp)

text \<open>Properties of every result of a computation, from any state.\<close>

definition yields :: "('a \<Rightarrow> bool) \<Rightarrow> ('s, 'a) state \<Rightarrow> bool" where
  "yields P m = (\<forall>s. P (fst (run_state m s)))"

lemma yields_return: "P a \<Longrightarrow> yields P (ret a)"
  by (simp add: yields_def)

lemma yields_any: "(\<And>a. P a) \<Longrightarrow> yields P m"
  by (simp add: yields_def)

lemma yields_bind: "yields R m \<Longrightarrow> (\<And>a. R a \<Longrightarrow> yields P (f a)) \<Longrightarrow> yields P (m \<bind> f)"
  by (simp add: yields_def split: prod.splits) (metis fst_conv)

lemma yields_obind:
  assumes "yields R m"
    and "\<And>r. R r \<Longrightarrow> case r of Returns a \<Rightarrow> yields P (f a) | Panics \<Rightarrow> P Panics | Hangs \<Rightarrow> P Hangs"
  shows "yields P (obind m f)"
  unfolding obind_def
  by (rule yields_bind [OF assms(1)], drule assms(2)) (auto intro: yields_return split: outcome.splits)

lemma yields_run: "yields P m \<Longrightarrow> run_state m s = (a, t) \<Longrightarrow> P a"
  by (metis yields_def fst_conv)

lemma wp_yields_keeps: "yields P m \<Longrightarrow> keeps I m \<Longrightarrow> I s \<Longrightarrow> wp m (\<lambda>r t. P r \<and> I t) s"
  by (simp add: wp_run yields_def keeps_def)

section \<open>Calls that fail or panic\<close>

text \<open>Go's \<open>if err != nil { return nil, err }\<close>, and sequencing of calls that may panic.\<close>

definition then_ok :: "(goerr + 'a) outcome \<Rightarrow> ('a \<Rightarrow> (goerr + 'b) outcome) \<Rightarrow> (goerr + 'b) outcome" where
  "then_ok r f =
     (case r of Returns (Inl err) \<Rightarrow> Returns (Inl err) | Returns (Inr x) \<Rightarrow> f x | Panics \<Rightarrow> Panics | Hangs \<Rightarrow> Hangs)"

definition and_then :: "'a outcome \<Rightarrow> ('a \<Rightarrow> 'b outcome) \<Rightarrow> 'b outcome" where
  "and_then r f = (case r of Returns x \<Rightarrow> f x | Panics \<Rightarrow> Panics | Hangs \<Rightarrow> Hangs)"

lemma then_ok_Inr: "then_ok r f = Returns (Inr y) \<longleftrightarrow> (\<exists>x. r = Returns (Inr x) \<and> f x = Returns (Inr y))"
  by (auto simp: then_ok_def split: outcome.split sum.split)

lemma and_then_Returns: "and_then r f = Returns y \<longleftrightarrow> (\<exists>x. r = Returns x \<and> f x = Returns y)"
  by (auto simp: and_then_def split: outcome.split)

lemma and_then_simps [simp]: "and_then (Returns x) f = f x" "and_then Panics f = Panics"
  by (simp_all add: and_then_def)

text \<open>The decimal digits of an integer, as \<open>strconv.Itoa\<close> and \<open>%d\<close> print it.\<close>

fun nat_digits :: "nat \<Rightarrow> string" where
  "nat_digits n = (if n < 10 then [char_of (48 + n)] else nat_digits (n div 10) @ [char_of (48 + n mod 10)])"

declare nat_digits.simps [simp del]

definition strconv_Itoa :: "int \<Rightarrow> string" where
  "strconv_Itoa i = (if i < 0 then CHR ''-'' # nat_digits (nat (- i)) else nat_digits (nat i))"

section \<open>The contract of sync.Map\<close>

text \<open>
  Every manager keeps its tables in \<open>sync.Map\<close>s. The managers rely on three laws: a
  \<open>Load\<close> after a \<open>Store\<close> of the key returns the stored value, a \<open>Load\<close> after a
  \<open>Delete\<close> finds nothing, and other keys are not touched. The tables are fields of the
  managers' records; each is shown to be an instance.
\<close>

locale sync_map =
  fixes Load :: "'s \<Rightarrow> 'k \<Rightarrow> 'v option"
    and Store :: "'k \<Rightarrow> 'v \<Rightarrow> 's \<Rightarrow> 's"
    and Delete :: "'k \<Rightarrow> 's \<Rightarrow> 's"
  assumes load_store: "Load (Store k v s) j = (if j = k then Some v else Load s j)"
    and load_delete: "Load (Delete k s) j = (if j = k then None else Load s j)"
begin

lemma load_store_same: "Load (Store k v s) k = Some v"
  by (simp add: load_store)

lemma load_delete_same: "Load (Delete k s) k = None"
  by (simp add: load_delete)

lemma load_delete_store: "Load (Delete k (Store k v s)) = (Load s)(k := None)"
  by (rule ext) (simp add: load_store load_delete)

lemma load_store_delete: "Load (Store k v (Delete k s)) = (Load s)(k \<mapsto> v)"
  by (rule ext) (simp add: load_store load_delete)

text \<open>A well-formedness condition on the entries that every stored value satisfies.\<close>

definition entries_ok :: "('k \<Rightarrow> 'v \<Rightarrow> bool) \<Rightarrow> 's \<Rightarrow> bool" where
  "entries_ok P s = (\<forall>k v. Load s k = Some v \<longrightarrow> P k v)"

lemma entries_ok_store: "entries_ok P s \<Longrightarrow> P k v \<Longrightarrow> entries_ok P (Store k v s)"
  by (auto simp: entries_ok_def load_store split: if_splits)

lemma entries_ok_delete: "entries_ok P s \<Longrightarrow> entries_ok P (Delete k s)"
  by (auto simp: entries_ok_def load_delete split: if_splits)

end

section \<open>Big-endian integers (encoding/binary)\<close>

definition PutUint16 :: "16 word \<Rightarrow> bytes" where
  "PutUint16 w = [ucast (drop_bit 8 w), ucast w]"

definition Uint16 :: "bytes \<Rightarrow> 16 word" where
  "Uint16 b = push_bit 8 (ucast (b ! 0)) OR ucast (b ! 1)"

definition PutUint32 :: "32 word \<Rightarrow> bytes" where
  "PutUint32 w = [ucast (drop_bit 24 w), ucast (drop_bit 16 w), ucast (drop_bit 8 w), ucast w]"

definition Uint32 :: "bytes \<Rightarrow> 32 word" where
  "Uint32 b = push_bit 24 (ucast (b ! 0)) OR push_bit 16 (ucast (b ! 1)) OR
     push_bit 8 (ucast (b ! 2)) OR ucast (b ! 3)"

lemma length_PutUint16 [simp]: "length (PutUint16 w) = 2"
  by (simp add: PutUint16_def)

lemma length_PutUint32 [simp]: "length (PutUint32 w) = 4"
  by (simp add: PutUint32_def)

lemma Uint16_PutUint16 [simp]: "Uint16 (PutUint16 w) = w"
  by (rule bit_word_eqI)
    (auto simp: Uint16_def PutUint16_def bit_or_iff bit_push_bit_iff bit_ucast_iff
      bit_drop_bit_eq not_le)

lemma Uint32_PutUint32 [simp]: "Uint32 (PutUint32 w) = w"
proof (rule bit_word_eqI)
  fix n :: nat
  assume "n < LENGTH(32)"
  then consider "n < 8" | "8 \<le> n" "n < 16" | "16 \<le> n" "n < 24" | "24 \<le> n" "n < 32"
    by fastforce
  then show "bit (Uint32 (PutUint32 w)) n \<longleftrightarrow> bit w n"
    by cases (simp_all add: Uint32_def PutUint32_def bit_or_iff bit_push_bit_iff
        bit_ucast_iff bit_drop_bit_eq less_diff_conv2)
qed

lemma unat_of_nat16: "n < 65536 \<Longrightarrow> unat (of_nat n :: 16 word) = n"
  by (simp add: unsigned_of_nat take_bit_nat_eq_self_iff)

lemma unat_of_nat32: "n < 4294967296 \<Longrightarrow> unat (of_nat n :: 32 word) = n"
  by (simp add: unsigned_of_nat take_bit_nat_eq_self_iff)

end
