(* ===== verification/WN_Session.thy ===== *)
theory WN_Session
  imports WN_Prelude
begin

text \<open>
  \<^verbatim>\<open>network/session/session.go\<close>, the session roles of \<^verbatim>\<open>common/consts.go\<close> and the
  service modes of \<^verbatim>\<open>common/config/config.go\<close>.

  A session joins at most two streams; a relaying node copies what it reads from one of
  them to the other. A \<open>Stream\<close> is modelled by its identifier and its remote peer: the
  remaining fields of the struct (\<open>RW\<close>, \<open>raw\<close>, \<open>cancel\<close>, \<open>Ctx\<close>) are handles on the
  libp2p stream the identifier names, and what is done through them is recorded as an
  effect on that identifier.
\<close>

section \<open>Roles and modes\<close>

type_synonym session_role = int

definition CallerRole :: session_role where "CallerRole = 1"
definition EntryRole :: session_role where "EntryRole = 2"
definition JointRole :: session_role where "JointRole = 3"
definition RelayRole :: session_role where "RelayRole = 4"
definition ExitRole :: session_role where "ExitRole = 5"
definition AnswerRole :: session_role where "AnswerRole = 6"

lemmas role_defs = CallerRole_def EntryRole_def JointRole_def RelayRole_def ExitRole_def
  AnswerRole_def

datatype service_mode = ServerMode | ClientMode | BootMode

section \<open>Streams and sessions\<close>

record wn_stream =
  StreamId :: string
  RemotePeer :: peer_id

record session =
  sess_Id :: string
  Pair :: "wn_stream list"
  Role :: session_role

record probe =
  probe_SessionId :: string
  probe_Rand :: bytes

definition SessionIdNon :: string where
  "SessionIdNon = ''SessionIDNon''"

definition NewSession :: session where
  "NewSession = \<lparr>sess_Id = SessionIdNon, Pair = [], Role = 0\<rparr>"

definition zero_session :: session where
  "zero_session = \<lparr>sess_Id = '''', Pair = [], Role = 0\<rparr>"

definition SetSessionID :: "string \<Rightarrow> session \<Rightarrow> session" where
  "SetSessionID sID s = s\<lparr>sess_Id := sID\<rparr>"

definition IsReady :: "session \<Rightarrow> bool" where
  "IsReady s = (length (Pair s) = 2)"

definition GetPair :: "session \<Rightarrow> wn_stream list" where
  "GetPair s = Pair s"

text \<open>The loop of \<open>AddStream\<close> that drops the oldest stream while there are more than two.\<close>

function trim_pair :: "wn_stream list \<Rightarrow> wn_stream list" where
  "trim_pair p = (if length p > 2 then trim_pair (tl p) else p)"
  by pat_completeness auto
termination
  by (relation "measure length") auto

declare trim_pair.simps [simp del]

definition AddStream :: "wn_stream \<Rightarrow> session \<Rightarrow> session" where
  "AddStream stream s =
     (if IsReady s then s else s\<lparr>Pair := trim_pair (Pair s @ [stream])\<rparr>)"

fun has_stream :: "wn_stream list \<Rightarrow> string \<Rightarrow> bool" where
  "has_stream [] streamID = False"
| "has_stream (s # ss) streamID = (if StreamId s = streamID then True else has_stream ss streamID)"

definition Has :: "session \<Rightarrow> string \<Rightarrow> bool" where
  "Has s streamID = has_stream (Pair s) streamID"

fun find_pattern :: "wn_stream list \<Rightarrow> string \<Rightarrow> nat \<Rightarrow> wn_stream list \<Rightarrow> goerr + wn_stream" where
  "find_pattern pair streamID i [] = Inl ''no such stream''"
| "find_pattern pair streamID i (stream # rest) =
     (if StreamId stream = streamID then Inr (pair ! (i XOR 1))
      else find_pattern pair streamID (Suc i) rest)"

definition GetPattern :: "session \<Rightarrow> string \<Rightarrow> goerr + wn_stream" where
  "GetPattern s streamID =
     (if length (Pair s) \<noteq> 2 then Inl ''session not ready''
      else find_pattern (Pair s) streamID 0 (Pair s))"

section \<open>Behaviour of sessions\<close>

lemma length_trim_pair: "length (trim_pair p) = min 2 (length p)"
  by (induction p rule: trim_pair.induct) (subst trim_pair.simps, auto)

lemma trim_pair_short [simp]: "length p \<le> 2 \<Longrightarrow> trim_pair p = p"
  by (subst trim_pair.simps) simp

lemma trim_pair_drop: "trim_pair p = drop (length p - 2) p"
  by (induction p rule: trim_pair.induct)
    (subst trim_pair.simps, auto simp: drop_Suc [symmetric] Suc_diff_Suc numeral_2_eq_2)

lemma AddStream_bound: "length (Pair s) \<le> 2 \<Longrightarrow> length (Pair (AddStream st s)) \<le> 2"
  by (simp add: AddStream_def length_trim_pair)

lemma AddStream_nonempty: "Pair (AddStream st s) \<noteq> []"
proof (cases "IsReady s")
  case True
  then show ?thesis by (auto simp: AddStream_def IsReady_def)
next
  case False
  have "length (trim_pair (Pair s @ [st])) \<noteq> 0"
    unfolding length_trim_pair by simp
  with False show ?thesis by (auto simp: AddStream_def simp del: trim_pair_short)
qed

lemma AddStream_fields [simp]:
  "sess_Id (AddStream st s) = sess_Id s" "Role (AddStream st s) = Role s"
  by (simp_all add: AddStream_def)

lemma AddStream_ready [simp]: "IsReady s \<Longrightarrow> AddStream st s = s"
  by (simp add: AddStream_def)

lemma AddStream_append:
  "length (Pair s) < 2 \<Longrightarrow> Pair (AddStream st s) = Pair s @ [st]"
  by (simp add: AddStream_def IsReady_def)

lemma Has_iff: "Has s i \<longleftrightarrow> i \<in> StreamId ` set (Pair s)"
proof -
  have "has_stream p i \<longleftrightarrow> i \<in> StreamId ` set p" for p
    by (induction p) auto
  then show ?thesis by (simp add: Has_def)
qed

lemma length2_conv: "length xs = 2 \<longleftrightarrow> (\<exists>a b. xs = [a, b])"
  by (auto simp: numeral_2_eq_2 length_Suc_conv)

lemma GetPattern_pair:
  "Pair s = [a, b] \<Longrightarrow> GetPattern s i =
     (if StreamId a = i then Inr b else if StreamId b = i then Inr a
      else Inl ''no such stream'')"
  by (simp add: GetPattern_def)

lemma GetPattern_not_ready: "\<not> IsReady s \<Longrightarrow> GetPattern s i = Inl ''session not ready''"
  by (simp add: GetPattern_def IsReady_def)

lemma GetPattern_member:
  assumes "GetPattern s i = Inr t" shows "IsReady s \<and> t \<in> set (Pair s) \<and> Has s i"
proof -
  from assms have "length (Pair s) = 2"
    by (auto simp: GetPattern_def split: if_splits)
  then obtain a b where "Pair s = [a, b]" by (auto simp: length2_conv)
  with assms show ?thesis
    by (auto simp: GetPattern_pair Has_iff IsReady_def split: if_splits)
qed

lemma GetPattern_error_iff:
  "(\<exists>e. GetPattern s i = Inl e) \<longleftrightarrow> \<not> IsReady s \<or> \<not> Has s i"
proof (cases "IsReady s")
  case True
  then obtain a b where "Pair s = [a, b]" by (auto simp: length2_conv IsReady_def)
  with True show ?thesis by (auto simp: GetPattern_pair Has_iff)
next
  case False
  then show ?thesis by (auto simp: GetPattern_not_ready)
qed

text \<open>
  The contract the relay manager has with sessions: the partner of a stream is a stream of
  the session, partners are mutual, and a stream whose session joins two different streams
  is never its own partner.
\<close>

locale stream_pairing =
  fixes partner :: "'p \<Rightarrow> string \<Rightarrow> goerr + wn_stream"
    and members :: "'p \<Rightarrow> wn_stream list"
    and ready :: "'p \<Rightarrow> bool"
  assumes partner_member: "partner p i = Inr t \<Longrightarrow> t \<in> set (members p)"
    and partner_defined: "ready p \<Longrightarrow> i \<in> StreamId ` set (members p) \<Longrightarrow> \<exists>t. partner p i = Inr t"
    and partner_mutual: "distinct (map StreamId (members p)) \<Longrightarrow> partner p i = Inr t \<Longrightarrow>
      \<exists>u. partner p (StreamId t) = Inr u \<and> StreamId u = i"
    and partner_other: "distinct (map StreamId (members p)) \<Longrightarrow> partner p i = Inr t \<Longrightarrow>
      StreamId t \<noteq> i"
begin

lemma partner_back_and_forth:
  assumes "distinct (map StreamId (members p))" and "partner p i = Inr t"
    and "partner p (StreamId t) = Inr u"
  shows "StreamId u = i \<and> u \<in> set (members p) \<and> StreamId u \<noteq> StreamId t"
proof -
  from partner_mutual [OF assms(1,2)] assms(3) have "StreamId u = i" by auto
  moreover from assms(3) have "u \<in> set (members p)" by (rule partner_member)
  moreover have "StreamId u \<noteq> StreamId t" using assms(1,3) by (rule partner_other)
  ultimately show ?thesis by simp
qed

end

interpretation sess_pairing: stream_pairing GetPattern Pair IsReady
proof unfold_locales
  show "GetPattern p i = Inr t \<Longrightarrow> t \<in> set (Pair p)" for p i t
    by (drule GetPattern_member) simp
  show "IsReady p \<Longrightarrow> i \<in> StreamId ` set (Pair p) \<Longrightarrow> \<exists>t. GetPattern p i = Inr t" for p i
    by (metis GetPattern_error_iff Has_iff sum.exhaust)
  fix p i t
  assume d: "distinct (map StreamId (Pair p))" and g: "GetPattern p i = Inr t"
  from g have "length (Pair p) = 2"
    by (auto simp: GetPattern_def split: if_splits)
  then obtain a b where ab: "Pair p = [a, b]" by (auto simp: length2_conv)
  show "\<exists>u. GetPattern p (StreamId t) = Inr u \<and> StreamId u = i"
    using d g ab by (auto simp: GetPattern_pair split: if_splits)
  show "StreamId t \<noteq> i"
    using d g ab by (auto simp: GetPattern_pair split: if_splits)
qed

section \<open>Property\<close>

text \<open>
  In a session that joins two different streams, the partner of a stream's partner is the
  stream itself, and no stream is its own partner: what is read from one stream is sent to the
  other, both ways.
\<close>

theorem partner_mutual:
  assumes "distinct (map StreamId (Pair s))" and "GetPattern s i = Inr t"
  shows "\<exists>u. GetPattern s (StreamId t) = Inr u \<and> StreamId u = i \<and> u \<in> set (Pair s) \<and> StreamId t \<noteq> i"
proof -
  obtain u where u: "GetPattern s (StreamId t) = Inr u"
    using sess_pairing.partner_mutual [OF assms] by blast
  then show ?thesis using sess_pairing.partner_back_and_forth [OF assms u] by auto
qed

end
