(* ===== verification/WN_Messages.thy ===== *)
theory WN_Messages
  imports WN_Session
begin

text \<open>
  The messages of \<^verbatim>\<open>internal/pb\<close> as records, the third-party code the program calls as a
  record of functions, the constructors of relay messages of \<^verbatim>\<open>protocol/relay/relay.go\<close>, and
  what a node does to the network.

  \<^item> \<open>lib\<close> holds the functions of packages outside the repository (protobuf, SHA-256 and
    base58, libp2p's peer identifiers, \<open>time.ParseDuration\<close>). \<open>proto.Marshal\<close> returns bytes and
    an error, \<open>proto.Unmarshal\<close> fills a message and returns an error; both are kept as Go has
    them, so that code which ignores an error ignores it in the model too.
  \<^item> \<open>env\<close> holds the answers of the environment: whether a write or the opening of a stream
    succeeds, given everything that happened before, whether an actor answers in time, and
    what happens while a goroutine waits for an acknowledgement.
  \<^item> \<open>effect\<close> is what a node does to its streams, contexts, channels, event bus and actors; the
    trace \<open>tr\<close> of a node's state lists them in order. \<open>EFuture\<close> marks that a future was asked for, so
    that the environment can let each one be in time or late.
\<close>

section \<open>Messages\<close>

datatype relaytype = Relaytype_SetSessionId | Relaytype_Ack | Relaytype_Data
  | Relaytype_Disconnect | Relaytype_Wake | Relaytype_Probe | Relaytype_Success
  | Relaytype_other "32 word"

record relay =
  relay_Id :: string
  relay_Type :: relaytype
  relay_Data :: bytes

record set_session_id_msg =
  ssm_SessionId :: string
  ssm_Role :: "32 word"

record relay_msg =
  rm_SessionId :: string
  rm_Data :: bytes

record probe_signal =
  ps_SessionId :: string
  ps_Data :: bytes

record disconnect =
  dis_SessionId :: string
  dis_ErrCode :: "32 word"

record circuit_success =
  cs_SessionId :: string

record pb_ack =
  ack_CommandId :: string
  ack_Result :: bool
  ack_Data :: bytes

datatype reqtype = Reqtype_GetOnlineNodes | Reqtype_NewProxy | Reqtype_NewCircuit
  | Reqtype_DecryptGossip | Reqtype_NegPlainText | Reqtype_UnRegisterType
  | Reqtype_MainNetPeers | Reqtype_other "32 word"

record request =
  req_ReqId :: string
  req_From :: string
  req_Reqtype :: reqtype
  req_Data :: bytes

record new_circuit =
  nc_From :: string
  nc_To :: string
  nc_SessionId :: string

record new_proxy =
  np_Time :: string
  np_WhiteNoiseID :: string

record decrypt_req =
  dec_Destination :: string
  dec_Cypher :: bytes

record un_register =
  ur_SessionID :: "string list"

record neg_plaintext =
  npl_SessionId :: string
  npl_Neg :: bytes

record main_net_peers =
  mnp_Max :: "32 word"

record node_info =
  ni_Id :: string
  ni_Addr :: "string list"

record peers_list =
  pl_Peers :: "node_info list"

datatype cmdtype = Cmdtype_SessionExPend | Cmdtype_Disconnect | Cmdtype_other "32 word"

record command =
  cmd_CommandId :: string
  cmd_Type :: cmdtype
  cmd_From :: string
  cmd_Data :: bytes

record session_expend =
  se_SessionId :: string
  se_PeerId :: string

record negotiate =
  neg_Join :: string
  neg_SessionId :: string
  neg_Destination :: string
  neg_Sig :: bytes

record encrypted_neg =
  en_Des :: string
  en_Cypher :: bytes

record noise_payload =
  nhp_IdentityKey :: bytes
  nhp_IdentitySig :: bytes
  nhp_Data :: bytes

record pb_account =
  pba_Type :: "32 word"
  pba_PrivateKey :: bytes
  pba_PublicKey :: bytes

section \<open>Third-party functions\<close>

record 'm codec =
  Marshal :: "'m \<Rightarrow> bytes \<times> goerr option"
  Unmarshal :: "bytes \<Rightarrow> 'm \<times> goerr option"

definition codec_ok :: "'m codec \<Rightarrow> bool" where
  "codec_ok c = (\<forall>m b. Marshal c m = (b, None) \<longrightarrow> Unmarshal c b = (m, None))"

record lib =
  Sum256 :: "bytes \<Rightarrow> bytes"
  base58_Encode :: "bytes \<Rightarrow> string"
  base58_Decode :: "string \<Rightarrow> goerr + bytes"
  peer_String :: "peer_id \<Rightarrow> string"
  peer_Decode :: "string \<Rightarrow> peer_id \<times> goerr option"
  ParseDuration :: "string \<Rightarrow> int \<times> goerr option"
  pb_Relay :: "relay codec"
  pb_SetSessionIdMsg :: "set_session_id_msg codec"
  pb_RelayMsg :: "relay_msg codec"
  pb_ProbeSignal :: "probe_signal codec"
  pb_Disconnect :: "disconnect codec"
  pb_CircuitSuccess :: "circuit_success codec"
  pb_Ack :: "pb_ack codec"
  pb_Request :: "request codec"
  pb_NewCircuit :: "new_circuit codec"
  pb_NewProxy :: "new_proxy codec"
  pb_Decrypt :: "decrypt_req codec"
  pb_UnRegister :: "un_register codec"
  pb_NegPlaintext :: "neg_plaintext codec"
  pb_MainNetPeers :: "main_net_peers codec"
  pb_PeersList :: "peers_list codec"
  pb_Command :: "command codec"
  pb_SessionExpend :: "session_expend codec"
  pb_Negotiate :: "negotiate codec"
  pb_EncryptedNeg :: "encrypted_neg codec"
  pb_NoisePayload :: "noise_payload codec"
  pb_Account :: "pb_account codec"

section \<open>Message identifiers and the constructors of relay messages\<close>

definition EncodeMSGIDHash :: "'l lib_scheme \<Rightarrow> bytes \<Rightarrow> string" where
  "EncodeMSGIDHash L hash = base58_Encode L hash"

definition sealed_relay :: "'l lib_scheme \<Rightarrow> relaytype \<Rightarrow> bytes \<Rightarrow> relay" where
  "sealed_relay L ty data =
     (let relay = \<lparr>relay_Id = '''', relay_Type = ty, relay_Data = data\<rparr>;
          noId = fst (Marshal (pb_Relay L) relay);
          hash = Sum256 L noId
      in relay\<lparr>relay_Id := EncodeMSGIDHash L hash\<rparr>)"

definition NewSetSessionIDCommand :: "'l lib_scheme \<Rightarrow> string \<Rightarrow> session_role \<Rightarrow> bytes \<times> string" where
  "NewSetSessionIDCommand L sessionID otherRole =
     (let cmd = \<lparr>ssm_SessionId = sessionID, ssm_Role = word_of_int otherRole\<rparr>;
          data = fst (Marshal (pb_SetSessionIdMsg L) cmd);
          relay = sealed_relay L Relaytype_SetSessionId data
      in (fst (Marshal (pb_Relay L) relay), relay_Id relay))"

definition NewRelayWake :: "'l lib_scheme \<Rightarrow> bytes" where
  "NewRelayWake L = fst (Marshal (pb_Relay L) (sealed_relay L Relaytype_Wake []))"

definition NewRelayMsg :: "'l lib_scheme \<Rightarrow> bytes \<Rightarrow> string \<Rightarrow> bytes" where
  "NewRelayMsg L msg sessionID =
     (let relayMsg = \<lparr>rm_SessionId = sessionID, rm_Data = msg\<rparr>;
          relayMsgData = fst (Marshal (pb_RelayMsg L) relayMsg)
      in fst (Marshal (pb_Relay L) (sealed_relay L Relaytype_Data relayMsgData)))"

definition NewProbeSignal :: "'l lib_scheme \<Rightarrow> string \<Rightarrow> bytes \<times> goerr option" where
  "NewProbeSignal L sessionId =
     (let signal = Sum256 L (str_bytes sessionId);
          probe = \<lparr>ps_SessionId = sessionId, ps_Data = signal\<rparr>
      in case Marshal (pb_ProbeSignal L) probe of
           (_, Some err) \<Rightarrow> ([], Some err)
         | (data, None) \<Rightarrow>
             (case Marshal (pb_Relay L) (sealed_relay L Relaytype_Probe data) of
                (_, Some err) \<Rightarrow> ([], Some err)
              | (relayData, None) \<Rightarrow> (relayData, None)))"

definition NewDisconnect :: "'l lib_scheme \<Rightarrow> string \<Rightarrow> bytes \<times> goerr option" where
  "NewDisconnect L sessionId =
     (let dis = \<lparr>dis_SessionId = sessionId, dis_ErrCode = 0\<rparr>
      in case Marshal (pb_Disconnect L) dis of
           (_, Some err) \<Rightarrow> ([], Some err)
         | (data, None) \<Rightarrow>
             (case Marshal (pb_Relay L) (sealed_relay L Relaytype_Disconnect data) of
                (_, Some err) \<Rightarrow> ([], Some err)
              | (relayData, None) \<Rightarrow> (relayData, None)))"

definition NewCircuitSuccess :: "'l lib_scheme \<Rightarrow> string \<Rightarrow> bytes" where
  "NewCircuitSuccess L sessionId =
     (let succ = \<lparr>cs_SessionId = sessionId\<rparr>;
          data = fst (Marshal (pb_CircuitSuccess L) succ)
      in fst (Marshal (pb_Relay L) (sealed_relay L Relaytype_Success data)))"

section \<open>Effects and the environment\<close>

datatype effect =
    EWrite string bytes
  | EWriteErr string bytes
  | EOpen peer_id string string
  | EOpenErr peer_id string
  | ECloseStream string
  | ECancelCircuit string
  | EPublish string string
  | EGossip bytes
  | EFuture
  | EChanSend nat bool bytes
  | EChanClose nat

record net_state =
  tr :: "effect list"

record ack_result =
  res_Ok :: bool
  res_Data :: bytes

record 's env =
  write_res :: "effect list \<Rightarrow> string \<Rightarrow> bytes \<Rightarrow> goerr option"
  open_res :: "effect list \<Rightarrow> peer_id \<Rightarrow> string \<Rightarrow> goerr + wn_stream"
  fut_late :: "effect list \<Rightarrow> bool"
  await :: "string \<Rightarrow> ('s, ack_result option) state"

definition emit :: "effect \<Rightarrow> ('a net_state_scheme, unit) state" where
  "emit e = modify (\<lambda>s. s\<lparr>tr := tr s @ [e]\<rparr>)"

text \<open>\<open>stream.RW.WriteMsg\<close> and \<open>host.NewStream\<close>; \<open>stream.Close\<close> cancels and closes.\<close>

definition WriteMsg ::
  "('a net_state_scheme, 'e) env_scheme \<Rightarrow> wn_stream \<Rightarrow> bytes \<Rightarrow> ('a net_state_scheme, goerr option) state" where
  "WriteMsg E st data = do {
     t \<leftarrow> gets tr;
     (case write_res E t (StreamId st) data of
        None \<Rightarrow> do { emit (EWrite (StreamId st) data); ret None }
      | Some err \<Rightarrow> do { emit (EWriteErr (StreamId st) data); ret (Some err) })
   }"

definition NewStream ::
  "('a net_state_scheme, 'e) env_scheme \<Rightarrow> peer_id \<Rightarrow> string \<Rightarrow> ('a net_state_scheme, goerr + wn_stream) state" where
  "NewStream E peer proto = do {
     t \<leftarrow> gets tr;
     (case open_res E t peer proto of
        Inl err \<Rightarrow> do { emit (EOpenErr peer proto); ret (Inl err) }
      | Inr st \<Rightarrow> do { emit (EOpen peer proto (StreamId st)); ret (Inr st) })
   }"

definition CloseStream :: "wn_stream \<Rightarrow> ('a net_state_scheme, unit) state" where
  "CloseStream st = emit (ECloseStream (StreamId st))"

definition writes :: "effect list \<Rightarrow> (string \<times> bytes) list" where
  "writes t = List.map_filter (\<lambda>e. case e of EWrite i b \<Rightarrow> Some (i, b) | _ \<Rightarrow> None) t"

definition closed :: "effect list \<Rightarrow> string \<Rightarrow> bool" where
  "closed t i = (ECloseStream i \<in> set t)"

section \<open>Rules\<close>

definition ignores_trace :: "('a net_state_scheme \<Rightarrow> bool) \<Rightarrow> bool" where
  "ignores_trace I = (\<forall>s t. I (s\<lparr>tr := t\<rparr>) = I s)"

lemma wp_emit [wp_simps]: "wp (emit e) Q s = Q () (s\<lparr>tr := tr s @ [e]\<rparr>)"
  by (simp add: emit_def)

lemma wp_WriteMsg [wp_simps]:
  "wp (WriteMsg E st data) Q s =
     (case write_res E (tr s) (StreamId st) data of
        None \<Rightarrow> Q None (s\<lparr>tr := tr s @ [EWrite (StreamId st) data]\<rparr>)
      | Some err \<Rightarrow> Q (Some err) (s\<lparr>tr := tr s @ [EWriteErr (StreamId st) data]\<rparr>))"
  by (simp add: WriteMsg_def wp_simps split: option.splits)

lemma wp_NewStream [wp_simps]:
  "wp (NewStream E peer proto) Q s =
     (case open_res E (tr s) peer proto of
        Inl err \<Rightarrow> Q (Inl err) (s\<lparr>tr := tr s @ [EOpenErr peer proto]\<rparr>)
      | Inr st \<Rightarrow> Q (Inr st) (s\<lparr>tr := tr s @ [EOpen peer proto (StreamId st)]\<rparr>))"
  by (simp add: NewStream_def wp_simps split: sum.splits)

lemma wp_CloseStream [wp_simps]:
  "wp (CloseStream st) Q s = Q () (s\<lparr>tr := tr s @ [ECloseStream (StreamId st)]\<rparr>)"
  by (simp add: CloseStream_def wp_simps)

lemma ignores_traceD: "ignores_trace I \<Longrightarrow> I (s\<lparr>tr := t\<rparr>) = I s"
  by (simp add: ignores_trace_def)

lemma keeps_emit [keeps_intros]: "ignores_trace I \<Longrightarrow> keeps I (emit e)"
  by (simp add: keeps_wp wp_simps ignores_traceD)

lemma keeps_WriteMsg [keeps_intros]: "ignores_trace I \<Longrightarrow> keeps I (WriteMsg E st data)"
  by (simp add: keeps_wp wp_simps ignores_traceD split: option.splits)

lemma keeps_NewStream [keeps_intros]: "ignores_trace I \<Longrightarrow> keeps I (NewStream E peer proto)"
  by (simp add: keeps_wp wp_simps ignores_traceD split: sum.splits)

lemma keeps_CloseStream [keeps_intros]: "ignores_trace I \<Longrightarrow> keeps I (CloseStream st)"
  by (simp add: keeps_wp wp_simps ignores_traceD)

lemma writes_simps [simp]:
  "writes [] = []"
  "writes (t @ u) = writes t @ writes u"
  "writes (EWrite i b # t) = (i, b) # writes t"
  "writes (EWriteErr i b # t) = writes t"
  "writes (EOpen p q i # t) = writes t"
  "writes (EOpenErr p q # t) = writes t"
  "writes (ECloseStream i # t) = writes t"
  "writes (ECancelCircuit i # t) = writes t"
  "writes (EPublish i j # t) = writes t"
  "writes (EGossip b # t) = writes t"
  "writes (EFuture # t) = writes t"
  "writes (EChanSend n c b # t) = writes t"
  "writes (EChanClose n # t) = writes t"
  by (simp_all add: writes_def List.map_filter_def)

text \<open>
  What a receiver gets from a constructor, when the bytes were marshalled without an error:
  protobuf returns the message that was written.
\<close>

lemma codec_okD: "codec_ok c \<Longrightarrow> Marshal c m = (b, None) \<Longrightarrow> Unmarshal c b = (m, None)"
  by (simp add: codec_ok_def)

lemma NewRelayMsg_unmarshal:
  assumes "codec_ok (pb_Relay L)" "codec_ok (pb_RelayMsg L)"
    and "Marshal (pb_RelayMsg L) \<lparr>rm_SessionId = sid, rm_Data = msg\<rparr> = (d, None)"
    and "Marshal (pb_Relay L) (sealed_relay L Relaytype_Data d) = (b, None)"
  shows "NewRelayMsg L msg sid = b"
    and "Unmarshal (pb_Relay L) b = (sealed_relay L Relaytype_Data d, None)"
    and "Unmarshal (pb_RelayMsg L) d = (\<lparr>rm_SessionId = sid, rm_Data = msg\<rparr>, None)"
  using assms by (simp_all add: NewRelayMsg_def codec_okD)

lemma sealed_relay_fields [simp]:
  "relay_Type (sealed_relay L ty d) = ty" "relay_Data (sealed_relay L ty d) = d"
  by (simp_all add: sealed_relay_def Let_def)

end
