(* ===== verification/WN_Ack.thy ===== *)
theory WN_Ack
  imports WN_Messages
begin

text \<open>
  \<^verbatim>\<open>protocol/ack\<close>: the manager that correlates acknowledgements with the goroutines that
  wait for them, and its actor. A task is a command identifier and the channel its owner
  waits on; channels are numbered in the order they are made, and sending on or closing a
  channel is an effect. A stream handler gets the result of its one \<open>ReadMsg\<close> as an argument.
\<close>

section \<open>State and operations\<close>

record task =
  task_Id :: string
  task_Channel :: nat

datatype ack_req = ReqAck pb_ack peer_id | ReqAddTask task | ReqDeleteTask string

record ack_state = net_state +
  TaskMap :: "string \<rightharpoonup> task"
  ackMail :: "ack_req list"
  next_chan :: nat

definition ACK_PROTOCOL :: string where
  "ACK_PROTOCOL = ''/ack''"

definition store_task :: "string \<Rightarrow> task \<Rightarrow> 'a ack_state_scheme \<Rightarrow> 'a ack_state_scheme" where
  "store_task k t s = s\<lparr>TaskMap := (TaskMap s)(k \<mapsto> t)\<rparr>"

definition delete_task :: "string \<Rightarrow> 'a ack_state_scheme \<Rightarrow> 'a ack_state_scheme" where
  "delete_task k s = s\<lparr>TaskMap := (TaskMap s)(k := None)\<rparr>"

definition chan_closed :: "effect list \<Rightarrow> nat \<Rightarrow> bool" where
  "chan_closed t c = (EChanClose c \<in> set t)"

definition make_chan :: "('a ack_state_scheme, nat) state" where
  "make_chan = do {
     c \<leftarrow> gets next_chan;
     modify (\<lambda>s. s\<lparr>next_chan := Suc c\<rparr>);
     ret c
   }"

text \<open>\<open>actorCtx.Request(ackPid, msg)\<close>: the message joins the actor's mailbox.\<close>

definition RequestAck :: "ack_req \<Rightarrow> ('a ack_state_scheme, unit) state" where
  "RequestAck m = modify (\<lambda>s. s\<lparr>ackMail := ackMail s @ [m]\<rparr>)"

definition AddTask :: "task \<Rightarrow> ('a ack_state_scheme, unit) state" where
  "AddTask task = modify (store_task (task_Id task) task)"

definition DeletTask :: "string \<Rightarrow> ('a ack_state_scheme, unit outcome) state" where
  "DeletTask i = do {
     m \<leftarrow> gets TaskMap;
     t \<leftarrow> gets tr;
     (case m i of
        Some task \<Rightarrow>
          (if chan_closed t (task_Channel task) then ret Panics
           else do {
             emit (EChanClose (task_Channel task));
             modify (delete_task i);
             ret (Returns ())
           })
      | None \<Rightarrow> do { modify (delete_task i); ret (Returns ()) })
   }"

text \<open>
  The type assertion \<open>res.(Task)\<close> comes before the test of \<open>ok\<close>: for an identifier with no
  task it is an assertion on a nil interface and panics. A send on a closed channel panics.
  The deferred \<open>stream.Close()\<close> runs on every way out.
\<close>

definition AckStreamHandler ::
  "'l lib_scheme \<Rightarrow> wn_stream \<Rightarrow> goerr + bytes \<Rightarrow> ('a ack_state_scheme, unit outcome) state" where
  "AckStreamHandler L str rd =
     (case rd of
        Inl err \<Rightarrow> do { CloseStream str; ret (Returns ()) }
      | Inr payloadBytes \<Rightarrow>
          (case Unmarshal (pb_Ack L) payloadBytes of
             (_, Some err) \<Rightarrow> do { CloseStream str; ret (Returns ()) }
           | (ack, None) \<Rightarrow> do {
               m \<leftarrow> gets TaskMap;
               t \<leftarrow> gets tr;
               (case m (ack_CommandId ack) of
                  None \<Rightarrow> do { CloseStream str; ret Panics }
                | Some task \<Rightarrow>
                    (if chan_closed t (task_Channel task)
                     then do { CloseStream str; ret Panics }
                     else do {
                       emit (EChanSend (task_Channel task) (ack_Result ack) (ack_Data ack));
                       CloseStream str;
                       ret (Returns ())
                     }))
             }))"

text \<open>
  \<open>defer stream.Close()\<close> is evaluated before \<open>err\<close> is tested; when \<open>NewStream\<close> failed the
  stream is a nil interface and the statement panics.
\<close>

definition SendAck ::
  "('a ack_state_scheme, 'e) env_scheme \<Rightarrow> 'l lib_scheme \<Rightarrow> pb_ack \<Rightarrow> peer_id \<Rightarrow>
   ('a ack_state_scheme, goerr option outcome) state" where
  "SendAck E L ack peerId = do {
     r \<leftarrow> NewStream E peerId ACK_PROTOCOL;
     (case r of
        Inl err \<Rightarrow> ret Panics
      | Inr stream \<Rightarrow>
          (case Marshal (pb_Ack L) ack of
             (_, Some err) \<Rightarrow> do { CloseStream stream; ret (Returns (Some err)) }
           | (data, None) \<Rightarrow> do {
               err \<leftarrow> WriteMsg E stream data;
               CloseStream stream;
               ret (Returns err)
             }))
   }"

definition ack_Receive ::
  "('a ack_state_scheme, 'e) env_scheme \<Rightarrow> 'l lib_scheme \<Rightarrow> ack_req \<Rightarrow>
   ('a ack_state_scheme, unit outcome) state" where
  "ack_Receive E L msg =
     (case msg of
        ReqAck ack peerId \<Rightarrow> do {
          r \<leftarrow> SendAck E L ack peerId;
          ret (case r of Returns _ \<Rightarrow> Returns () | Panics \<Rightarrow> Panics | Hangs \<Rightarrow> Hangs)
        }
      | ReqAddTask task \<Rightarrow> do { AddTask task; ret (Returns ()) }
      | ReqDeleteTask i \<Rightarrow> DeletTask i)"

text \<open>The actor takes the oldest message of its mailbox.\<close>

definition ack_deliver ::
  "('a ack_state_scheme, 'e) env_scheme \<Rightarrow> 'l lib_scheme \<Rightarrow> ('a ack_state_scheme, unit outcome) state" where
  "ack_deliver E L = do {
     q \<leftarrow> gets ackMail;
     (case q of
        [] \<Rightarrow> ret (Returns ())
      | msg # rest \<Rightarrow> do {
          modify (\<lambda>s. s\<lparr>ackMail := rest\<rparr>);
          ack_Receive E L msg
        })
   }"

section \<open>Invariant\<close>

text \<open>
  Every task is filed under its own identifier, waits on a channel that was made and is not
  closed, and no two tasks share a channel.
\<close>

definition ack_inv :: "'a ack_state_scheme \<Rightarrow> bool" where
  "ack_inv s =
     ((\<forall>k t. TaskMap s k = Some t \<longrightarrow>
         task_Id t = k \<and> task_Channel t < next_chan s \<and> \<not> chan_closed (tr s) (task_Channel t)) \<and>
      (\<forall>j k t u. TaskMap s j = Some t \<and> TaskMap s k = Some u \<and> task_Channel t = task_Channel u
         \<longrightarrow> j = k) \<and>
      (\<forall>c. chan_closed (tr s) c \<longrightarrow> c < next_chan s))"

text \<open>What a task must satisfy when it is registered: a new channel that nobody else uses.\<close>

definition fresh_task :: "task \<Rightarrow> 'a ack_state_scheme \<Rightarrow> bool" where
  "fresh_task t s =
     (task_Channel t < next_chan s \<and> \<not> chan_closed (tr s) (task_Channel t) \<and>
      (\<forall>k u. TaskMap s k = Some u \<longrightarrow> task_Channel u \<noteq> task_Channel t))"

interpretation task_map: sync_map TaskMap store_task delete_task
  by unfold_locales (auto simp: store_task_def delete_task_def)

lemma chan_closed_simps [simp]:
  "chan_closed [] c = False"
  "chan_closed (t @ u) c = (chan_closed t c \<or> chan_closed u c)"
  "chan_closed (e # t) c = (e = EChanClose c \<or> chan_closed t c)"
  by (auto simp: chan_closed_def)

lemma make_chan_inv:
  "ack_inv s \<Longrightarrow> wp make_chan (\<lambda>c t. ack_inv t \<and> fresh_task \<lparr>task_Id = i, task_Channel = c\<rparr> t) s"
  by (simp add: make_chan_def ack_inv_def fresh_task_def) (metis less_SucI less_irrefl_nat)

lemma AddTask_inv: "ack_inv s \<Longrightarrow> fresh_task t s \<Longrightarrow> wp (AddTask t) (\<lambda>_. ack_inv) s"
  by (simp add: AddTask_def store_task_def ack_inv_def fresh_task_def) metis

lemma ack_inv_no_close:
  "ack_inv s \<Longrightarrow> (\<And>c. \<not> chan_closed u c) \<Longrightarrow> ack_inv (s\<lparr>tr := tr s @ u\<rparr>)"
  by (simp add: ack_inv_def)

lemma ack_inv_mail [simp]: "ack_inv (s\<lparr>ackMail := q\<rparr>) = ack_inv s"
  by (simp add: ack_inv_def)

lemma DeletTask_inv: "ack_inv s \<Longrightarrow> wp (DeletTask i) (\<lambda>r t. r = Returns () \<and> ack_inv t) s"
proof (cases "TaskMap s i")
  case None
  then have "(TaskMap s)(i := None) = TaskMap s" by auto
  moreover assume "ack_inv s"
  ultimately show ?thesis using None by (simp add: DeletTask_def delete_task_def)
next
  case (Some t)
  moreover assume inv: "ack_inv s"
  ultimately have "\<not> chan_closed (tr s) (task_Channel t)" and "task_Channel t < next_chan s"
    by (auto simp: ack_inv_def)
  moreover have "\<forall>k u. TaskMap s k = Some u \<and> k \<noteq> i \<longrightarrow> task_Channel u \<noteq> task_Channel t"
    using inv Some by (auto simp: ack_inv_def)
  ultimately show ?thesis using inv Some
    by (auto simp: DeletTask_def delete_task_def wp_simps ack_inv_def)
qed

lemma AckStreamHandler_inv: "keeps ack_inv (AckStreamHandler L str rd)"
  unfolding keeps_wp AckStreamHandler_def
  by (auto simp: wp_simps ack_inv_no_close split: sum.split prod.split option.split)

lemma SendAck_inv: "keeps ack_inv (SendAck E L ack peerId)"
  unfolding keeps_wp SendAck_def
  by (auto simp: wp_simps ack_inv_no_close split: sum.split prod.split option.split)

lemma ack_Receive_inv:
  assumes "ack_inv s" and "\<And>t. msg = ReqAddTask t \<Longrightarrow> fresh_task t s"
  shows "wp (ack_Receive E L msg) (\<lambda>_. ack_inv) s"
proof (cases msg)
  case (ReqAck a p)
  then show ?thesis
    using keepsD [OF SendAck_inv assms(1), of E L a p] by (simp add: ack_Receive_def)
next
  case (ReqAddTask t)
  then show ?thesis using AddTask_inv [of s t] assms by (simp add: ack_Receive_def)
next
  case (ReqDeleteTask i)
  then show ?thesis
    using wp_mono [OF DeletTask_inv [OF assms(1), of i]] by (simp add: ack_Receive_def)
qed

section \<open>Behaviour\<close>

lemma AckStreamHandler_delivers:
  assumes "Unmarshal (pb_Ack L) b = (a, None)"
    and "TaskMap s (ack_CommandId a) = Some t" and "\<not> chan_closed (tr s) (task_Channel t)"
  shows "run_state (AckStreamHandler L str (Inr b)) s =
    (Returns (), s\<lparr>tr := tr s @ [EChanSend (task_Channel t) (ack_Result a) (ack_Data a),
                                  ECloseStream (StreamId str)]\<rparr>)"
  using assms by (simp add: AckStreamHandler_def emit_def CloseStream_def)

lemma AckStreamHandler_unknown:
  assumes "Unmarshal (pb_Ack L) b = (a, None)" and "TaskMap s (ack_CommandId a) = None"
  shows "run_state (AckStreamHandler L str (Inr b)) s =
    (Panics, s\<lparr>tr := tr s @ [ECloseStream (StreamId str)]\<rparr>)"
  using assms by (simp add: AckStreamHandler_def emit_def CloseStream_def)

section \<open>The race between an acknowledgement and its deadline\<close>

text \<open>
  The owner of a task, the actor that files and deletes the task, and the handlers of
  incoming acknowledgements run concurrently. The owner has written its request and asked the
  actor to file the task; it now waits in a \<open>select\<close> for the channel or the deadline, and on
  its way out asks the actor to delete the task. An unbuffered channel is a rendezvous: a
  handler that found the task is \<open>Sending\<close> until the owner receives.
\<close>

datatype owner = Waiting | Got ack_result | TimedOut

datatype filing = NotFiled | Filed | Deleted

datatype handler = Idle | Sending ack_result | Done | Crashed

record race =
  owner :: owner
  filing :: filing
  handler :: "nat \<Rightarrow> handler"

definition race_init :: race where
  "race_init = \<lparr>owner = Waiting, filing = NotFiled, handler = (\<lambda>_. Idle)\<rparr>"

inductive race_step :: "race \<Rightarrow> race \<Rightarrow> bool" where
  filed: "filing s = NotFiled \<Longrightarrow> race_step s (s\<lparr>filing := Filed\<rparr>)"
| found: "handler s i = Idle \<Longrightarrow> filing s = Filed \<Longrightarrow>
    race_step s (s\<lparr>handler := (handler s)(i := Sending r)\<rparr>)"
| not_found: "handler s i = Idle \<Longrightarrow> filing s \<noteq> Filed \<Longrightarrow>
    race_step s (s\<lparr>handler := (handler s)(i := Crashed)\<rparr>)"
| receive: "handler s i = Sending r \<Longrightarrow> owner s = Waiting \<Longrightarrow> filing s = Filed \<Longrightarrow>
    race_step s (s\<lparr>owner := Got r, handler := (handler s)(i := Done)\<rparr>)"
| deadline: "owner s = Waiting \<Longrightarrow> race_step s (s\<lparr>owner := TimedOut\<rparr>)"
| delete: "owner s \<noteq> Waiting \<Longrightarrow> filing s = Filed \<Longrightarrow> race_step s (s\<lparr>filing := Deleted\<rparr>)"
| send_closed: "handler s i = Sending r \<Longrightarrow> filing s = Deleted \<Longrightarrow>
    race_step s (s\<lparr>handler := (handler s)(i := Crashed)\<rparr>)"

inductive_cases race_stepE: "race_step s t"

definition race_reachable :: "race \<Rightarrow> bool" where
  "race_reachable s = race_step\<^sup>*\<^sup>* race_init s"

definition race_inv :: "race \<Rightarrow> bool" where
  "race_inv s =
     ((\<forall>i j. handler s i = Done \<and> handler s j = Done \<longrightarrow> i = j) \<and>
      ((\<exists>r. owner s = Got r) \<longleftrightarrow> (\<exists>i. handler s i = Done)) \<and>
      (filing s = Deleted \<longrightarrow> owner s \<noteq> Waiting))"

lemma race_inv_init: "race_inv race_init"
  by (simp add: race_inv_def race_init_def)

lemma race_step_inv: "race_step s t \<Longrightarrow> race_inv s \<Longrightarrow> race_inv t"
  by (erule race_stepE) (auto simp: race_inv_def split: if_splits, (metis handler.distinct)+)

lemma race_reachable_inv: "race_reachable s \<Longrightarrow> race_inv s"
  unfolding race_reachable_def
  by (induction rule: rtranclp_induct) (auto intro: race_inv_init race_step_inv)

lemma race_reachable_init: "race_reachable race_init"
  by (simp add: race_reachable_def)

lemma race_reachable_step: "race_reachable s \<Longrightarrow> race_step s t \<Longrightarrow> race_reachable t"
  unfolding race_reachable_def by (rule rtranclp.rtrancl_into_rtrancl)

lemma race_three_steps: "race_step a b \<Longrightarrow> race_step b c \<Longrightarrow> race_step c d \<Longrightarrow> race_step\<^sup>*\<^sup>* a d"
  by (auto intro: rtranclp.rtrancl_into_rtrancl)

text \<open>Once the owner has stopped waiting, what it got does not change.\<close>

lemma race_step_owner_final: "race_step s t \<Longrightarrow> owner s \<noteq> Waiting \<Longrightarrow> owner t = owner s"
  by (erule race_stepE) auto

lemma race_owner_final: "race_step\<^sup>*\<^sup>* s t \<Longrightarrow> owner s \<noteq> Waiting \<Longrightarrow> owner t = owner s"
  by (induction rule: rtranclp_induct) (auto dest: race_step_owner_final)

section \<open>Properties\<close>

text \<open>
  C22: every message the acknowledgement actor handles keeps its invariant: each task is filed
  under its own identifier, on an open channel of its own. A task to be filed needs a new channel.
\<close>

theorem ack_actor_invariant:
  assumes "ack_inv s" and "\<And>t. msg = ReqAddTask t \<Longrightarrow> fresh_task t s"
  shows "ack_inv (snd (run_state (ack_Receive E L msg) s))"
  using ack_Receive_inv [OF assms] by (simp add: wp_run)

text \<open>
  C21: in every interleaving of the owner of a task, the actor and any number of acknowledgement
  handlers, at most one handler delivers; the owner got a result exactly when one did, and what
  the owner has does not change any more.
\<close>

theorem ack_delivered_once:
  assumes "race_reachable s"
  shows "(\<forall>i j. handler s i = Done \<and> handler s j = Done \<longrightarrow> i = j) \<and>
    ((\<exists>r. owner s = Got r) \<longleftrightarrow> (\<exists>i. handler s i = Done)) \<and>
    (\<forall>t. race_step\<^sup>*\<^sup>* s t \<and> owner s \<noteq> Waiting \<longrightarrow> owner t = owner s)"
  using race_reachable_inv [OF assms] race_owner_final by (auto simp: race_inv_def)

text \<open>
  An acknowledgement whose identifier belongs to no task panics the handler (the type
  assertion comes before the test), whatever peer sent it.
\<close>

theorem ack_unknown_panics:
  assumes "Unmarshal (pb_Ack L) b = (a, None)" and "TaskMap s (ack_CommandId a) = None"
  shows "fst (run_state (AckStreamHandler L str (Inr b)) s) = Panics"
  using AckStreamHandler_unknown [OF assms] by simp

text \<open>
  When no stream to the peer can be opened, sending an acknowledgement does not return the
  error: the deferred close of the nil stream panics.
\<close>

theorem send_ack_panics:
  assumes "open_res E (tr s) p ACK_PROTOCOL = Inl e"
  shows "run_state (SendAck E L a p) s = (Panics, s\<lparr>tr := tr s @ [EOpenErr p ACK_PROTOCOL]\<rparr>)"
  using assms by (simp add: SendAck_def NewStream_def emit_def)

text \<open>
  C35: an acknowledgement that arrives in time but meets the deadline crashes its handler: there is
  a run in which a handler found the task, the owner timed out, the actor deleted the task and
  closed the channel, and the handler's send on the closed channel panics.
\<close>

theorem late_ack_crashes:
  "\<exists>s. race_reachable s \<and> owner s = TimedOut \<and> handler s 0 = Crashed \<and>
     (\<exists>t. race_reachable t \<and> filing t = Filed \<and> handler t 0 = Sending r \<and> race_step\<^sup>*\<^sup>* t s)"
proof -
  let ?s1 = "race_init\<lparr>filing := Filed\<rparr>"
  let ?s2 = "?s1\<lparr>handler := (handler ?s1)(0 := Sending r)\<rparr>"
  let ?s3 = "?s2\<lparr>owner := TimedOut\<rparr>"
  let ?s4 = "?s3\<lparr>filing := Deleted\<rparr>"
  let ?s5 = "?s4\<lparr>handler := (handler ?s4)(0 := Crashed)\<rparr>"
  have 1: "race_step race_init ?s1" by (rule filed) (simp add: race_init_def)
  have 2: "race_step ?s1 ?s2" by (rule found) (simp_all add: race_init_def)
  have 3: "race_step ?s2 ?s3" by (rule deadline) (simp add: race_init_def)
  have 4: "race_step ?s3 ?s4" by (rule delete) simp_all
  have 5: "race_step ?s4 ?s5" by (rule send_closed [where r = r]) simp_all
  have t: "race_reachable ?s2"
    using race_reachable_step [OF race_reachable_step [OF race_reachable_init 1] 2] .
  have s: "race_step\<^sup>*\<^sup>* ?s2 ?s5"
    by (rule race_three_steps [OF 3 4 5])
  have "race_reachable ?s5"
    using t s unfolding race_reachable_def by (rule rtranclp_trans)
  then show ?thesis using t s by (intro exI [of _ ?s5] conjI exI [of _ ?s2]) simp_all
qed

end
