(* ===== verification/WN_IO.thy ===== *)
theory WN_IO
  imports WN_Messages
begin

text \<open>
  What the program uses of \<^verbatim>\<open>io\<close> and \<^verbatim>\<open>bytes\<close>: readers, \<open>io.ReadFull\<close>, \<open>bytes.Buffer\<close>; the
  blocking buffer \<open>SafeBuffer\<close> of \<^verbatim>\<open>protocol/relay/connection.go\<close>; the length-prefixed payloads
  of \<^verbatim>\<open>secure/message.go\<close>; and the contract \<open>byte_source\<close> of a connection that has bytes to be
  read.
\<close>

section \<open>io.ReadFull and bytes.Buffer\<close>

definition EOF :: goerr where "EOF = ''EOF''"
definition ErrUnexpectedEOF :: goerr where "ErrUnexpectedEOF = ''unexpected EOF''"

type_synonym 's reader = "nat \<Rightarrow> ('s, (bytes \<times> goerr option) outcome) state"

definition ReadFull_end :: "nat \<Rightarrow> bytes \<Rightarrow> goerr option \<Rightarrow> bytes \<times> goerr option" where
  "ReadFull_end n acc err =
     (acc, if n \<le> length acc then None
           else if acc \<noteq> [] \<and> err = Some EOF then Some ErrUnexpectedEOF else err)"

text \<open>
  The loop of \<open>io.ReadAtLeast\<close>. A reader may return no bytes and no error, so the loop need
  not end; the first argument bounds its iterations and running out of it is \<^const>\<open>Hangs\<close>.
\<close>

fun ReadFull :: "nat \<Rightarrow> 's reader \<Rightarrow> nat \<Rightarrow> bytes \<Rightarrow> ('s, (bytes \<times> goerr option) outcome) state" where
  "ReadFull 0 rd n acc = ret Hangs"
| "ReadFull (Suc fuel) rd n acc =
     (if length acc < n then
        obind (rd (n - length acc)) (\<lambda>(bs, err).
          case err of
            None \<Rightarrow> ReadFull fuel rd n (acc @ bs)
          | Some e \<Rightarrow> ret (Returns (ReadFull_end n (acc @ bs) (Some e))))
      else ret (Returns (ReadFull_end n acc None)))"

definition Buffer_Read :: "nat \<Rightarrow> bytes \<Rightarrow> (bytes \<times> goerr option) \<times> bytes" where
  "Buffer_Read n b =
     (if b = [] then (([], if n = 0 then None else Some EOF), [])
      else ((take n b, None), drop n b))"

section \<open>SafeBuffer\<close>

text \<open>
  \<open>SafeBuffer.Read\<close>: when the buffer is empty the reader subscribes to \<open>NonEmptyTopic\<close> and
  waits until something was written or the read timeout passes. \<open>wait\<close> is the environment's
  part: what other goroutines do to the state meanwhile, and whether the event came.
\<close>

definition SafeBuffer_Read ::
  "('s \<Rightarrow> bytes) \<Rightarrow> (bytes \<Rightarrow> 's \<Rightarrow> 's) \<Rightarrow> ('s, bool) state \<Rightarrow> 's reader" where
  "SafeBuffer_Read getb setb wait n = do {
     b \<leftarrow> gets getb;
     (case Buffer_Read n b of ((bs, err), rest) \<Rightarrow> do {
        modify (setb rest);
        (if err = Some EOF then do {
           woken \<leftarrow> wait;
           (if woken then do {
              b2 \<leftarrow> gets getb;
              (case Buffer_Read n b2 of ((bs2, err2), rest2) \<Rightarrow> do {
                 modify (setb rest2);
                 ret (Returns (bs2, err2))
               })
            }
            else ret (Returns (bs, err)))
         }
         else ret (Returns (bs, err)))
      })
   }"

section \<open>Length-prefixed payloads\<close>

definition LENLEN :: nat where "LENLEN = 4"

definition Int2Bytes :: "32 word \<Rightarrow> bytes" where
  "Int2Bytes l = PutUint32 l"

definition Bytes2Int :: "bytes \<Rightarrow> 32 word" where
  "Bytes2Int b = Uint32 b"

definition EncodePayload :: "bytes \<Rightarrow> bytes" where
  "EncodePayload data = Int2Bytes (of_nat (length data)) @ data"

definition ReadPayload ::
  "(nat \<Rightarrow> ('s, (bytes \<times> goerr option) outcome) state) \<Rightarrow> ('s, (bytes \<times> goerr option) outcome) state" where
  "ReadPayload readFull =
     obind (readFull LENLEN) (\<lambda>(lBytes, err).
       case err of
         Some e \<Rightarrow> ret (Returns ([], Some e))
       | None \<Rightarrow>
           obind (readFull (unat (Bytes2Int lBytes))) (\<lambda>(msgBytes, err).
             case err of
               Some e \<Rightarrow> ret (Returns ([], Some e))
             | None \<Rightarrow> ret (Returns (msgBytes, None))))"

section \<open>The contract of a connection with bytes to be read\<close>

text \<open>
  A reader from which the bytes \<open>p\<close> are to come (\<open>view s p\<close>) delivers exactly the next \<open>n\<close> of them when
  there are as many, and the others are still to come.
\<close>

locale byte_stream =
  fixes readFull :: "nat \<Rightarrow> ('s, (bytes \<times> goerr option) outcome) state"
    and view :: "'s \<Rightarrow> bytes \<Rightarrow> bool"
  assumes readFull_view: "view s p \<Longrightarrow> n \<le> length p \<Longrightarrow>
    wp (readFull n) (\<lambda>r t. r = Returns (take n p, None) \<and> view t (drop n p)) s"
begin

lemma readFull_append:
  "view s (x @ y) \<Longrightarrow> wp (readFull (length x)) (\<lambda>r t. r = Returns (x, None) \<and> view t y) s"
  using readFull_view [of s "x @ y" "length x"] by simp

lemma ReadPayload_EncodePayload:
  assumes "view s (EncodePayload msg @ rest)" and "length msg < 2 ^ 32"
  shows "wp (ReadPayload readFull) (\<lambda>r t. r = Returns (msg, None) \<and> view t rest) s"
proof -
  let ?l = "Int2Bytes (of_nat (length msg))"
  have l: "length ?l = LENLEN" by (simp add: Int2Bytes_def LENLEN_def)
  have n: "unat (Bytes2Int ?l) = length msg"
    using assms(2) by (simp add: Bytes2Int_def Int2Bytes_def unat_of_nat32)
  have first: "wp (readFull LENLEN) (\<lambda>r t. r = Returns (?l, None) \<and> view t (msg @ rest)) s"
    using readFull_append [of s ?l "msg @ rest"] assms(1) l by (simp add: EncodePayload_def)
  have second: "wp (readFull (length msg)) (\<lambda>r u. r = Returns (msg, None) \<and> view u rest) t"
    if "view t (msg @ rest)" for t
    using that by (rule readFull_append)
  show ?thesis
    unfolding ReadPayload_def
    by (rule wp_obind_step [OF first]) (auto simp: n intro!: wp_obind_step [OF second])
qed

end

text \<open>A source whose pending bytes are a function of the state.\<close>

locale byte_source =
  fixes readFull :: "nat \<Rightarrow> ('s, (bytes \<times> goerr option) outcome) state"
    and pending :: "'s \<Rightarrow> bytes"
  assumes readFull_pending: "n \<le> length (pending s) \<Longrightarrow>
    wp (readFull n) (\<lambda>r t. r = Returns (take n (pending s), None) \<and>
                            pending t = drop n (pending s)) s"
begin

lemma readFull_prefix:
  assumes "pending s = x @ y"
  shows "wp (readFull (length x)) (\<lambda>r t. r = Returns (x, None) \<and> pending t = y) s"
  using readFull_pending [of "length x" s] assms by simp

end

sublocale byte_source \<subseteq> byte_stream readFull "\<lambda>s p. pending s = p"
  by unfold_locales (use readFull_pending in auto)

section \<open>Reading from a SafeBuffer\<close>

text \<open>
  \<open>getb\<close> and \<open>setb\<close> address one buffer inside the state: reading what was written, the last
  write counts.
\<close>

locale buffer_cell =
  fixes getb :: "'s \<Rightarrow> bytes" and setb :: "bytes \<Rightarrow> 's \<Rightarrow> 's" and present :: "'s \<Rightarrow> bool"
  assumes get_set: "present s \<Longrightarrow> getb (setb b s) = b"
    and present_set: "present (setb b s) = present s"
    and absent: "\<not> present s \<Longrightarrow> getb s = []"
begin

lemma Read_nonempty:
  assumes "present s" "getb s \<noteq> []"
  shows "wp (SafeBuffer_Read getb setb wait n) (\<lambda>r t. r = Returns (take n (getb s), None) \<and>
    t = setb (drop n (getb s)) s) s"
  using assms by (simp add: SafeBuffer_Read_def Buffer_Read_def)

text \<open>A read for at least one byte that reports no error delivers at least one byte.\<close>

lemma Read_progress:
  "0 < n \<Longrightarrow> wp (SafeBuffer_Read getb setb wait n) (\<lambda>r t. \<exists>bs err. r = Returns (bs, err) \<and>
     (err = None \<longrightarrow> bs \<noteq> []) \<and> length bs \<le> n) s"
  by (auto simp: SafeBuffer_Read_def Buffer_Read_def wp_simps wp_def EOF_def
      split: prod.splits if_splits)

lemma ReadFull_present:
  assumes "present s" "n \<le> length acc + length (getb s)" "length acc \<le> n" "n - length acc < fuel"
  shows "wp (ReadFull fuel (SafeBuffer_Read getb setb wait) n acc)
    (\<lambda>r t. r = Returns (acc @ take (n - length acc) (getb s), None) \<and>
           getb t = drop (n - length acc) (getb s) \<and> (t = s \<or> t = setb (getb t) s)) s"
proof (cases "length acc < n")
  case True
  with assms have "2 \<le> fuel" by simp
  then obtain f where f: "fuel = Suc (Suc f)" using that [of "fuel - 2"] by simp
  from assms True have ne: "getb s \<noteq> []" by auto
  have "length (acc @ take (n - length acc) (getb s)) = n" using assms True by simp
  then show ?thesis
    unfolding f using True assms(1)
    by (auto simp: wp_simps get_set ReadFull_end_def intro!: wp_mono [OF Read_nonempty [OF assms(1) ne]])
next
  case False
  moreover from assms(4) obtain f where "fuel = Suc f" by (cases fuel) auto
  ultimately show ?thesis using assms by (simp add: ReadFull_end_def)
qed

text \<open>With one more unit of fuel than bytes wanted the loop always returns.\<close>

lemma ReadFull_returns:
  "n - length acc < fuel \<Longrightarrow>
   wp (ReadFull fuel (SafeBuffer_Read getb setb wait) n acc) (\<lambda>r t. \<exists>bs err. r = Returns (bs, err)) s"
proof (induction fuel arbitrary: acc s)
  case 0
  then show ?case by simp
next
  case (Suc fuel acc s)
  show ?case
  proof (cases "length acc < n")
    case True
    then have p: "wp (SafeBuffer_Read getb setb wait (n - length acc))
      (\<lambda>r t. \<exists>bs err. r = Returns (bs, err) \<and> (err = None \<longrightarrow> bs \<noteq> []) \<and>
        length bs \<le> n - length acc) s"
      by (intro Read_progress) simp
    have rec: "wp (ReadFull fuel (SafeBuffer_Read getb setb wait) n (acc @ bs))
        (\<lambda>r t. \<exists>bs err. r = Returns (bs, err)) t" if "bs \<noteq> []" for bs t
    proof (rule Suc.IH)
      show "n - length (acc @ bs) < fuel" using Suc.prems that True by (cases bs) auto
    qed
    show ?thesis
      unfolding ReadFull.simps if_P [OF True]
      by (rule wp_obind_step [OF p]) (auto simp: ReadFull_end_def rec split: option.split)
  next
    case False
    then show ?thesis by (simp add: ReadFull_end_def)
  qed
qed

end

end
