(* ===== verification/WN_Secure.thy ===== *)
theory WN_Secure
  imports WN_IO
begin

text \<open>
  \<^verbatim>\<open>secure/\<close>: the encrypted session the two ends of a circuit run over it. \<^verbatim>\<open>rw.go\<close> cuts what
  is written into frames of at most 65535 bytes, each a 16-bit big-endian length and a
  ciphertext, and reassembles them; \<^verbatim>\<open>handshake.go\<close> runs the three messages of the Noise XX
  pattern and checks the identity of the other end; \<^verbatim>\<open>session.go\<close> starts it.

  The insecure connection is the Go interface: a record of its methods, over any state. It is
  read through \<open>io.ReadFull\<close> only, so that is the read method of the record. \<open>noise_lib\<close>
  holds the functions of flynn/noise and of libp2p's keys; cipher states, handshake states
  and keys are opaque values of those packages. The two locks serialise readers and writers
  and the buffer pool only recycles memory; neither changes a result.
\<close>

section \<open>State\<close>

type_synonym hs_state = bytes
datatype cipher_state = CipherState bytes nat
type_synonym p2p_pub = bytes
type_synonym p2p_priv = bytes

record dh_key =
  dh_Private :: bytes
  dh_Public :: bytes

record 's insecure_conn =
  ic_ReadFull :: "nat \<Rightarrow> ('s, (bytes \<times> goerr option) outcome) state"
  ic_Write :: "bytes \<Rightarrow> ('s, nat \<times> goerr option) state"
  ic_Close :: "('s, unit) state"

record noise_lib = lib +
  cs_Encrypt :: "cipher_state \<Rightarrow> bytes \<Rightarrow> bytes \<times> cipher_state"
  cs_Decrypt :: "cipher_state \<Rightarrow> bytes \<Rightarrow> (goerr + bytes) \<times> cipher_state"
  NewHandshakeState :: "bool \<Rightarrow> dh_key \<Rightarrow> goerr + hs_state"
  hs_WriteMessage :: "hs_state \<Rightarrow> bytes \<Rightarrow>
     (goerr + bytes \<times> (cipher_state \<times> cipher_state) option) \<times> hs_state"
  hs_ReadMessage :: "hs_state \<Rightarrow> bytes \<Rightarrow>
     (goerr + bytes \<times> (cipher_state \<times> cipher_state) option) \<times> hs_state"
  hs_PeerStatic :: "hs_state \<Rightarrow> bytes"
  priv_GetPublic :: "p2p_priv \<Rightarrow> p2p_pub"
  priv_Sign :: "p2p_priv \<Rightarrow> bytes \<Rightarrow> goerr + bytes"
  pub_Bytes :: "p2p_pub \<Rightarrow> goerr + bytes"
  UnmarshalPublicKey :: "bytes \<Rightarrow> goerr + p2p_pub"
  IDFromPublicKey :: "p2p_pub \<Rightarrow> goerr + peer_id"
  pub_Verify :: "p2p_pub \<Rightarrow> bytes \<Rightarrow> bytes \<Rightarrow> goerr + bool"

record secure_session =
  initiator :: bool
  localID :: peer_id
  localKey :: p2p_priv
  remoteID :: peer_id
  remoteKey :: "p2p_pub option"
  qseek :: nat
  qbuf :: "bytes option"
  enc :: "cipher_state option"
  dec :: "cipher_state option"

section \<open>Encrypting and framing\<close>

definition TagSize :: nat where "TagSize = 16"
definition MaxTransportMsgLength :: nat where "MaxTransportMsgLength = 65535"
definition MaxPlaintextLength :: nat where "MaxPlaintextLength = MaxTransportMsgLength - TagSize"
definition LengthPrefixLength :: nat where "LengthPrefixLength = 2"

definition encrypt :: "'l noise_lib_scheme \<Rightarrow> bytes \<Rightarrow> secure_session \<Rightarrow> (goerr + bytes) \<times> secure_session" where
  "encrypt L plaintext ss =
     (case enc ss of
        None \<Rightarrow> (Inl ''cannot encrypt, no handshake or handshake failed'', ss)
      | Some cs \<Rightarrow>
          (case cs_Encrypt L cs plaintext of (c, cs') \<Rightarrow> (Inr c, ss\<lparr>enc := Some cs'\<rparr>)))"

definition decrypt :: "'l noise_lib_scheme \<Rightarrow> bytes \<Rightarrow> secure_session \<Rightarrow> (goerr + bytes) \<times> secure_session" where
  "decrypt L ciphertext ss =
     (case dec ss of
        None \<Rightarrow> (Inl ''cannot decrypt, no handshake or handshake failed'', ss)
      | Some cs \<Rightarrow>
          (case cs_Decrypt L cs ciphertext of (r, cs') \<Rightarrow> (r, ss\<lparr>dec := Some cs'\<rparr>)))"

definition frame :: "bytes \<Rightarrow> bytes" where
  "frame c = PutUint16 (of_nat (length c)) @ c"

definition readNextInsecureMsgLen ::
  "'s insecure_conn \<Rightarrow> ('s, (nat \<times> goerr option) outcome) state" where
  "readNextInsecureMsgLen conn =
     obind (ic_ReadFull conn LengthPrefixLength) (\<lambda>(rlen, err).
       case err of
         Some e \<Rightarrow> ret (Returns (0, Some e))
       | None \<Rightarrow> ret (Returns (unat (Uint16 rlen), None)))"

definition readNextMsgInsecure ::
  "'s insecure_conn \<Rightarrow> nat \<Rightarrow> ('s, (bytes \<times> goerr option) outcome) state" where
  "readNextMsgInsecure conn n = ic_ReadFull conn n"

text \<open>
  \<open>Read\<close> with a buffer of \<open>n\<close> bytes returns the bytes it stores at the front of the buffer (their
  number is Go's result), the error, and the session afterwards.
\<close>

definition SecureSession_Read ::
  "'l noise_lib_scheme \<Rightarrow> 's insecure_conn \<Rightarrow> nat \<Rightarrow> secure_session \<Rightarrow>
   ('s, (bytes \<times> goerr option \<times> secure_session) outcome) state" where
  "SecureSession_Read L conn n ss =
     (case qbuf ss of
        Some q \<Rightarrow>
          (let copied = take n (drop (qseek ss) q);
               seek = qseek ss + length copied
           in ret (Returns (copied, None,
                if seek = length q then ss\<lparr>qseek := 0, qbuf := None\<rparr> else ss\<lparr>qseek := seek\<rparr>)))
      | None \<Rightarrow>
          obind (readNextInsecureMsgLen conn) (\<lambda>(nextMsgLen, err).
            case err of
              Some e \<Rightarrow> ret (Returns ([], Some e, ss))
            | None \<Rightarrow>
                obind (readNextMsgInsecure conn nextMsgLen) (\<lambda>(cbuf, err).
                  case err of
                    Some e \<Rightarrow> ret (Returns ([], Some e, ss))
                  | None \<Rightarrow>
                      (case decrypt L cbuf ss of
                         (Inl e, ss') \<Rightarrow> ret (Returns ([], Some e, ss'))
                       | (Inr dbuf, ss') \<Rightarrow>
                           (if nextMsgLen \<le> n then ret (Returns (dbuf, None, ss'))
                            else ret (Returns (take n dbuf, None,
                              ss'\<lparr>qbuf := Some dbuf, qseek := length (take n dbuf)\<rparr>)))))))"

function Write_loop ::
  "'l noise_lib_scheme \<Rightarrow> 's insecure_conn \<Rightarrow> bytes \<Rightarrow> nat \<Rightarrow> secure_session \<Rightarrow>
   ('s, nat \<times> goerr option \<times> secure_session) state" where
  "Write_loop L conn data written ss =
     (if written < length data then
        let stop = min (written + MaxPlaintextLength) (length data)
        in (case encrypt L (take (stop - written) (drop written data)) ss of
              (Inl err, ss') \<Rightarrow> ret (0, Some err, ss')
            | (Inr c, ss') \<Rightarrow> do {
                r \<leftarrow> ic_Write conn (frame c);
                (case snd r of
                   Some err \<Rightarrow> ret (written, Some err, ss')
                 | None \<Rightarrow> Write_loop L conn data stop ss')
              })
      else ret (written, None, ss))"
  by pat_completeness auto
termination
  by (relation "measure (\<lambda>(L, conn, data, written, ss). length data - written)")
    (auto simp: MaxPlaintextLength_def MaxTransportMsgLength_def TagSize_def min_def)

declare Write_loop.simps [simp del]

definition SecureSession_Write ::
  "'l noise_lib_scheme \<Rightarrow> 's insecure_conn \<Rightarrow> bytes \<Rightarrow> secure_session \<Rightarrow>
   ('s, nat \<times> goerr option \<times> secure_session) state" where
  "SecureSession_Write L conn data ss = Write_loop L conn data 0 ss"

section \<open>The handshake\<close>

definition payloadSigPrefix :: bytes where
  "payloadSigPrefix = str_bytes ''noise-libp2p-static-key:''"

definition setCipherStates :: "cipher_state \<Rightarrow> cipher_state \<Rightarrow> secure_session \<Rightarrow> secure_session" where
  "setCipherStates cs1 cs2 ss =
     (if initiator ss then ss\<lparr>enc := Some cs1, dec := Some cs2\<rparr>
      else ss\<lparr>enc := Some cs2, dec := Some cs1\<rparr>)"

definition sendHandshakeMessage ::
  "'l noise_lib_scheme \<Rightarrow> 's insecure_conn \<Rightarrow> hs_state \<Rightarrow> bytes \<Rightarrow> secure_session \<Rightarrow>
   ('s, goerr option \<times> hs_state \<times> secure_session) state" where
  "sendHandshakeMessage L conn hs payload ss =
     (case hs_WriteMessage L hs payload of
        (Inl err, hs') \<Rightarrow> ret (Some err, hs', ss)
      | (Inr (c, css), hs') \<Rightarrow> do {
          r \<leftarrow> ic_Write conn (frame c);
          (case snd r of
             Some err \<Rightarrow> ret (Some err, hs', ss)
           | None \<Rightarrow>
               (case css of
                  None \<Rightarrow> ret (None, hs', ss)
                | Some (cs1, cs2) \<Rightarrow> ret (None, hs', setCipherStates cs1 cs2 ss)))
        })"

definition readHandshakeMessage ::
  "'l noise_lib_scheme \<Rightarrow> 's insecure_conn \<Rightarrow> hs_state \<Rightarrow> secure_session \<Rightarrow>
   ('s, (bytes \<times> goerr option \<times> hs_state \<times> secure_session) outcome) state" where
  "readHandshakeMessage L conn hs ss =
     obind (readNextInsecureMsgLen conn) (\<lambda>(l, err).
       case err of
         Some e \<Rightarrow> ret (Returns ([], Some e, hs, ss))
       | None \<Rightarrow>
           obind (readNextMsgInsecure conn l) (\<lambda>(buf, err).
             case err of
               Some e \<Rightarrow> ret (Returns ([], Some e, hs, ss))
             | None \<Rightarrow>
                 (case hs_ReadMessage L hs buf of
                    (Inl e, hs') \<Rightarrow> ret (Returns ([], Some e, hs', ss))
                  | (Inr (msg, css), hs') \<Rightarrow>
                      (case css of
                         None \<Rightarrow> ret (Returns (msg, None, hs', ss))
                       | Some (cs1, cs2) \<Rightarrow>
                           ret (Returns (msg, None, hs', setCipherStates cs1 cs2 ss))))))"

definition generateHandshakePayload ::
  "'l noise_lib_scheme \<Rightarrow> dh_key \<Rightarrow> secure_session \<Rightarrow> goerr + bytes" where
  "generateHandshakePayload L localStatic ss =
     (case pub_Bytes L (priv_GetPublic L (localKey ss)) of
        Inl e \<Rightarrow> Inl (''error serializing libp2p identity key: '' @ e)
      | Inr localKeyRaw \<Rightarrow>
          (case priv_Sign L (localKey ss) (payloadSigPrefix @ dh_Public localStatic) of
             Inl e \<Rightarrow> Inl (''error sigining handshake payload: '' @ e)
           | Inr signedPayload \<Rightarrow>
               (case Marshal (pb_NoisePayload L)
                   \<lparr>nhp_IdentityKey = localKeyRaw, nhp_IdentitySig = signedPayload, nhp_Data = []\<rparr> of
                  (_, Some e) \<Rightarrow> Inl (''error marshaling handshake payload: '' @ e)
                | (payloadEnc, None) \<Rightarrow> Inr payloadEnc)))"

definition handleRemoteHandshakePayload ::
  "'l noise_lib_scheme \<Rightarrow> bytes \<Rightarrow> bytes \<Rightarrow> secure_session \<Rightarrow> goerr option \<times> secure_session" where
  "handleRemoteHandshakePayload L payload remoteStatic ss =
     (case Unmarshal (pb_NoisePayload L) payload of
        (_, Some e) \<Rightarrow> (Some (''error unmarshaling remote handshake payload: '' @ e), ss)
      | (nhp, None) \<Rightarrow>
          (case UnmarshalPublicKey L (nhp_IdentityKey nhp) of
             Inl e \<Rightarrow> (Some e, ss)
           | Inr remotePubKey \<Rightarrow>
               (case IDFromPublicKey L remotePubKey of
                  Inl e \<Rightarrow> (Some e, ss)
                | Inr i \<Rightarrow>
                    (if initiator ss \<and> remoteID ss \<noteq> i
                     then (Some (''peer id mismatch: expected '' @ peer_String L (remoteID ss) @
                             '', but remote key matches '' @ peer_String L i), ss)
                     else
                       (case pub_Verify L remotePubKey (payloadSigPrefix @ remoteStatic)
                               (nhp_IdentitySig nhp) of
                          Inl e \<Rightarrow> (Some (''error verifying signature: '' @ e), ss)
                        | Inr ok \<Rightarrow>
                            (if \<not> ok then (Some ''handshake signature invalid'', ss)
                             else (None, ss\<lparr>remoteID := i, remoteKey := Some remotePubKey\<rparr>)))))))"

definition wrap_err :: "string \<Rightarrow> goerr option \<Rightarrow> goerr option" where
  "wrap_err msg e = map_option (\<lambda>x. msg @ x) e"

text \<open>The two branches of \<open>runHandshake\<close>: the initiator sends, reads, sends; the other side reads,
  sends, reads.\<close>

definition initiatorHandshake ::
  "'l noise_lib_scheme \<Rightarrow> 's insecure_conn \<Rightarrow> hs_state \<Rightarrow> bytes \<Rightarrow> secure_session \<Rightarrow>
   ('s, (goerr option \<times> secure_session) outcome) state" where
  "initiatorHandshake L conn hs0 payload ss0 = do {
     (e, hs, ss) \<leftarrow> sendHandshakeMessage L conn hs0 [] ss0;
     (if e \<noteq> None then ret (Returns (wrap_err ''error sending handshake message: '' e, ss)) else
      obind (readHandshakeMessage L conn hs ss) (\<lambda>(plaintext, e, hs, ss).
        if e \<noteq> None then ret (Returns (wrap_err ''error reading handshake message: '' e, ss)) else
        (case handleRemoteHandshakePayload L plaintext (hs_PeerStatic L hs) ss of
           (Some e, ss) \<Rightarrow> ret (Returns (Some e, ss))
         | (None, ss) \<Rightarrow> do {
             (e, hs, ss) \<leftarrow> sendHandshakeMessage L conn hs payload ss;
             ret (Returns (wrap_err ''error sending handshake message: '' e, ss))
           })))
   }"

definition responderHandshake ::
  "'l noise_lib_scheme \<Rightarrow> 's insecure_conn \<Rightarrow> hs_state \<Rightarrow> bytes \<Rightarrow> secure_session \<Rightarrow>
   ('s, (goerr option \<times> secure_session) outcome) state" where
  "responderHandshake L conn hs0 payload ss0 =
     obind (readHandshakeMessage L conn hs0 ss0) (\<lambda>(plaintext, e, hs, ss).
       if e \<noteq> None then ret (Returns (wrap_err ''error reading handshake message: '' e, ss)) else do {
         (e, hs, ss) \<leftarrow> sendHandshakeMessage L conn hs payload ss;
         (if e \<noteq> None then ret (Returns (wrap_err ''error sending handshake message: '' e, ss)) else
          obind (readHandshakeMessage L conn hs ss) (\<lambda>(plaintext, e, hs, ss).
            if e \<noteq> None then ret (Returns (wrap_err ''error reading handshake message: '' e, ss)) else
            ret (Returns (handleRemoteHandshakePayload L plaintext (hs_PeerStatic L hs) ss))))
       })"

definition runHandshake ::
  "'l noise_lib_scheme \<Rightarrow> 's insecure_conn \<Rightarrow> goerr + dh_key \<Rightarrow> secure_session \<Rightarrow>
   ('s, (goerr option \<times> secure_session) outcome) state" where
  "runHandshake L conn keypair ss =
     (case keypair of
        Inl e \<Rightarrow> ret (Returns (Some (''error generating static keypair: '' @ e), ss))
      | Inr kp \<Rightarrow>
          (case NewHandshakeState L (initiator ss) kp of
             Inl e \<Rightarrow> ret (Returns (Some (''error initializing handshake state: '' @ e), ss))
           | Inr hs \<Rightarrow>
               (case generateHandshakePayload L kp ss of
                  Inl e \<Rightarrow> ret (Returns (Some e, ss))
                | Inr payload \<Rightarrow>
                    (if initiator ss then initiatorHandshake L conn hs payload ss
                     else responderHandshake L conn hs payload ss))))"

text \<open>
  \<open>NewSecureSession\<close> runs the handshake in a goroutine and waits for it or for the context;
  \<open>ctx_err\<close> is the context's error when it is done first. It then closes the connection and
  still waits for the handshake to end.
\<close>

definition NewSecureSession ::
  "'l noise_lib_scheme \<Rightarrow> 's insecure_conn \<Rightarrow> goerr + dh_key \<Rightarrow> goerr option \<Rightarrow>
   peer_id \<Rightarrow> p2p_priv \<Rightarrow> peer_id \<Rightarrow> bool \<Rightarrow>
   ('s, (secure_session option \<times> goerr option) outcome) state" where
  "NewSecureSession L conn keypair ctx_err lID privateKey remote init =
     (let s0 = \<lparr>initiator = init, localID = lID, localKey = privateKey, remoteID = remote,
                remoteKey = None, qseek = 0, qbuf = None, enc = None, dec = None\<rparr>
      in case ctx_err of
           None \<Rightarrow>
             obind (runHandshake L conn keypair s0) (\<lambda>(err, s). do {
               (if err \<noteq> None then ic_Close conn else ret ());
               ret (Returns (Some s, err))
             })
         | Some e \<Rightarrow> do {
             ic_Close conn;
             obind (runHandshake L conn keypair s0) (\<lambda>_. ret (Returns (None, Some e)))
           })"

section \<open>Frames and what they carry\<close>

text \<open>
  The documented behaviour of the transport ciphers: a ciphertext is 16 bytes longer than its
  plaintext, and a decrypting state equal to the encrypting one recovers the plaintext and
  moves on to the same next state.
\<close>

definition aead_ok :: "'l noise_lib_scheme \<Rightarrow> bool" where
  "aead_ok L = (\<forall>cs p c cs'. cs_Encrypt L cs p = (c, cs') \<longrightarrow>
     length c = length p + TagSize \<and> cs_Decrypt L cs c = (Inr p, cs'))"

function chunks :: "bytes \<Rightarrow> bytes list" where
  "chunks d = (if d = [] then [] else take MaxPlaintextLength d # chunks (drop MaxPlaintextLength d))"
  by pat_completeness auto
termination
  by (relation "measure length")
    (auto simp: MaxPlaintextLength_def MaxTransportMsgLength_def TagSize_def)

declare chunks.simps [simp del]

fun encode_chunks :: "'l noise_lib_scheme \<Rightarrow> cipher_state \<Rightarrow> bytes list \<Rightarrow> bytes list \<times> cipher_state" where
  "encode_chunks L cs [] = ([], cs)"
| "encode_chunks L cs (p # ps) =
     (case cs_Encrypt L cs p of (c, cs') \<Rightarrow>
        (case encode_chunks L cs' ps of (fs, cs'') \<Rightarrow> (frame c # fs, cs'')))"

lemma encode_chunks_append:
  "encode_chunks L cs (ps @ qs) = (fst (encode_chunks L cs ps) @ fst (encode_chunks L (snd (encode_chunks L cs ps)) qs),
     snd (encode_chunks L (snd (encode_chunks L cs ps)) qs))"
  by (induction ps arbitrary: cs) (auto split: prod.split)

definition fits :: "bytes \<Rightarrow> bool" where
  "fits p = (length p \<le> MaxPlaintextLength)"

lemmas size_defs = MaxPlaintextLength_def MaxTransportMsgLength_def TagSize_def LengthPrefixLength_def

lemma concat_chunks [simp]: "concat (chunks d) = d"
  by (induction d rule: chunks.induct) (subst chunks.simps, simp)

lemma chunks_Nil [simp]: "chunks [] = []"
  by (simp add: chunks.simps)

lemma chunks_fit: "p \<in> set (chunks d) \<Longrightarrow> fits p \<and> p \<noteq> []"
proof (induction d arbitrary: p rule: chunks.induct)
  case (1 d)
  show ?case
  proof (cases "d = []")
    case False
    with 1 show ?thesis
      by (subst (asm) (2) chunks.simps) (auto simp: fits_def size_defs)
  qed (use 1 in simp)
qed

lemma aead_okD:
  "aead_ok L \<Longrightarrow> cs_Encrypt L cs p = (c, cs') \<Longrightarrow>
   length c = length p + TagSize \<and> cs_Decrypt L cs c = (Inr p, cs')"
  unfolding aead_ok_def by blast

text \<open>The 16-bit length never wraps around for a chunk that fits.\<close>

lemma frame_length:
  assumes "length c \<le> MaxTransportMsgLength"
  shows "unat (Uint16 (PutUint16 (of_nat (length c)))) = length c"
  using assms by (simp_all add: size_defs unat_of_nat16)

section \<open>Writing\<close>

text \<open>
  The contract of a connection that is written to: while it is \<open>sound\<close>, a write that reports no
  error has added exactly the given bytes to what was sent, and leaves it sound.
\<close>

locale byte_sink =
  fixes wr :: "bytes \<Rightarrow> ('s, nat \<times> goerr option) state"
    and sent :: "'s \<Rightarrow> bytes"
    and sound :: "'s \<Rightarrow> bool"
  assumes write_sent: "sound s \<Longrightarrow>
    wp (wr d) (\<lambda>r t. snd r = None \<longrightarrow> sound t \<and> sent t = sent s @ d) s"
begin

definition wrote :: "'l noise_lib_scheme \<Rightarrow> cipher_state \<Rightarrow> bytes \<Rightarrow> nat \<Rightarrow> secure_session \<Rightarrow> 's \<Rightarrow>
    nat \<times> goerr option \<times> secure_session \<Rightarrow> 's \<Rightarrow> bool" where
  "wrote L cs data len ss s r t = (case r of (n, err, ss') \<Rightarrow> err = None \<longrightarrow>
     n = len \<and> sound t \<and>
     sent t = sent s @ concat (fst (encode_chunks L cs (chunks data))) \<and>
     ss' = ss\<lparr>enc := Some (snd (encode_chunks L cs (chunks data)))\<rparr>)"

lemma Write_loop_sent:
  assumes "ic_Write conn = wr" and "sound s" and "enc ss = Some cs" and "written \<le> length data"
  shows "wp (Write_loop L conn data written ss)
    (wrote L cs (drop written data) (length data) ss s) s"
  using assms(2-4)
proof (induction "length data - written" arbitrary: written ss cs s rule: less_induct)
  case less
  show ?case
  proof (cases "written < length data")
    case True
    let ?stop = "min (written + MaxPlaintextLength) (length data)"
    let ?p = "take (?stop - written) (drop written data)"
    obtain c cs' where e: "cs_Encrypt L cs ?p = (c, cs')" by (rule prod.exhaust)
    have ch: "chunks (drop written data) = ?p # chunks (drop ?stop data)"
      using True by (subst chunks.simps) (auto simp: min_def add.commute)
    have rec: "wp (Write_loop L conn data ?stop (ss\<lparr>enc := Some cs'\<rparr>))
      (wrote L cs' (drop ?stop data) (length data) (ss\<lparr>enc := Some cs'\<rparr>) t) t" if "sound t" for t
      using less.hyps [of ?stop t "ss\<lparr>enc := Some cs'\<rparr>" cs'] True that
      by (auto simp: size_defs min_def)
    note w = write_sent [OF less.prems(1), of "frame c"]
    have step: "Write_loop L conn data written ss = (wr (frame c) \<bind> (\<lambda>r.
       case snd r of Some err \<Rightarrow> ret (written, Some err, ss\<lparr>enc := Some cs'\<rparr>)
       | None \<Rightarrow> Write_loop L conn data ?stop (ss\<lparr>enc := Some cs'\<rparr>)))"
      using True less.prems assms(1) e by (subst Write_loop.simps) (simp add: encrypt_def Let_def)
    show ?thesis
      unfolding step
      by (rule wp_bind_step [OF w])
        (auto simp: e ch wrote_def split: option.split prod.split intro: wp_mono [OF rec])
  next
    case False
    with less.prems show ?thesis by (subst Write_loop.simps) (simp add: wrote_def)
  qed
qed

lemma Write_sent:
  assumes "ic_Write conn = wr" and "sound s" and "enc ss = Some cs"
  shows "wp (SecureSession_Write L conn data ss) (wrote L cs data (length data) ss s) s"
  using Write_loop_sent [OF assms, of 0 data L] by (simp add: SecureSession_Write_def)

end

text \<open>A sink that never fails: then a write through a session does not fail either.\<close>

locale open_sink = byte_sink +
  assumes write_ok: "sound s \<Longrightarrow> wp (wr d) (\<lambda>r t. snd r = None) s"
begin

lemma write_succeeds:
  "sound s \<Longrightarrow> wp (wr d) (\<lambda>r t. snd r = None \<and> sound t \<and> sent t = sent s @ d) s"
  using write_sent [of s d] write_ok [of s d] by (simp add: wp_run)

lemma Write_loop_ok:
  assumes "ic_Write conn = wr"
  shows "sound s \<Longrightarrow> enc ss \<noteq> None \<Longrightarrow> wp (Write_loop L conn data written ss) (\<lambda>r t. fst (snd r) = None) s"
proof (induction "length data - written" arbitrary: written ss s rule: less_induct)
  case less
  then obtain cs where cs: "enc ss = Some cs" by auto
  show ?case
  proof (cases "written < length data")
    case True
    let ?stop = "min (written + MaxPlaintextLength) (length data)"
    let ?p = "take (?stop - written) (drop written data)"
    obtain c cs' where e: "cs_Encrypt L cs ?p = (c, cs')" by (rule prod.exhaust)
    have step: "Write_loop L conn data written ss = (wr (frame c) \<bind> (\<lambda>r.
       case snd r of Some err \<Rightarrow> ret (written, Some err, ss\<lparr>enc := Some cs'\<rparr>)
       | None \<Rightarrow> Write_loop L conn data ?stop (ss\<lparr>enc := Some cs'\<rparr>)))"
      using True cs assms(1) e by (subst Write_loop.simps) (simp add: encrypt_def Let_def)
    have "length data - ?stop < length data - written" using True by (auto simp: size_defs min_def)
    note IH = less.hyps [OF this]
    show ?thesis
      unfolding step by (rule wp_bind_step [OF write_succeeds [OF less.prems(1)]]) (auto intro: IH)
  next
    case False
    then show ?thesis by (subst Write_loop.simps) simp
  qed
qed

lemma Write_ok:
  assumes "ic_Write conn = wr" and "sound s" and "enc ss = Some cs"
  shows "wp (SecureSession_Write L conn data ss) (\<lambda>r t. fst (snd r) = None \<and>
    wrote L cs data (length data) ss s r t) s"
  using Write_sent [OF assms, of L data] Write_loop_ok [OF assms(1,2), of ss L data 0] assms(3)
  by (simp add: wp_run SecureSession_Write_def)

end

section \<open>Reading\<close>

text \<open>
  The plaintext a session has still to deliver, seen from the bytes that are pending on its
  connection: what is queued, then what the pending frames carry.
\<close>

definition queued :: "secure_session \<Rightarrow> bytes" where
  "queued ss = (case qbuf ss of None \<Rightarrow> [] | Some q \<Rightarrow> drop (qseek ss) q)"

definition secure_view :: "'l noise_lib_scheme \<Rightarrow> secure_session \<Rightarrow> bytes \<Rightarrow> bytes \<Rightarrow> bool" where
  "secure_view L ss inp plain =
     ((\<forall>q. qbuf ss = Some q \<longrightarrow> qseek ss \<le> length q) \<and>
      (\<exists>cs ps. dec ss = Some cs \<and> list_all fits ps \<and>
         inp = concat (fst (encode_chunks L cs ps)) \<and> plain = queued ss @ concat ps))"

lemma secure_viewI:
  "(\<And>q. qbuf ss = Some q \<Longrightarrow> qseek ss \<le> length q) \<Longrightarrow> dec ss = Some cs \<Longrightarrow> list_all fits ps \<Longrightarrow>
   inp = concat (fst (encode_chunks L cs ps)) \<Longrightarrow> plain = queued ss @ concat ps \<Longrightarrow>
   secure_view L ss inp plain"
  by (auto simp: secure_view_def)

lemma secure_view_queue:
  assumes "secure_view L ss inp plain" and "qbuf ss = Some q"
  shows "wp (SecureSession_Read L conn n ss) (\<lambda>r t. t = s \<and> (\<exists>out ss' rest.
     r = Returns (out, None, ss') \<and> plain = out @ rest \<and> length out \<le> n \<and>
     secure_view L ss' inp rest)) s"
proof -
  let ?out = "take n (drop (qseek ss) q)"
  from assms obtain cs ps where d: "dec ss = Some cs" "list_all fits ps"
      "inp = concat (fst (encode_chunks L cs ps))" "plain = drop (qseek ss) q @ concat ps"
      and le: "qseek ss \<le> length q"
    by (auto simp: secure_view_def queued_def)
  let ?rest = "drop n (drop (qseek ss) q) @ concat ps"
  have "plain = ?out @ ?rest"
    using d(4) append_take_drop_id [of n "drop (qseek ss) q"] by (simp add: append_assoc [symmetric] del: drop_drop append_assoc)
  moreover have "length ?out \<le> n" by simp
  moreover have "secure_view L (if qseek ss + length ?out = length q then ss\<lparr>qseek := 0, qbuf := None\<rparr>
      else ss\<lparr>qseek := qseek ss + length ?out\<rparr>) inp ?rest"
    using d le assms(2)
    by (intro secure_viewI [where cs = cs and ps = ps]) (auto simp: queued_def min_def add.commute)
  ultimately show ?thesis
    using assms(2) by (auto simp: SecureSession_Read_def Let_def intro!: exI)
qed

context byte_stream
begin

lemma read_frame:
  assumes "ic_ReadFull conn = readFull" and "view s (frame c @ rest)"
    and "length c \<le> MaxTransportMsgLength"
  shows "wp (readNextInsecureMsgLen conn) (\<lambda>r t. r = Returns (length c, None) \<and> view t (c @ rest)) s"
    and "view t (c @ rest) \<Longrightarrow>
      wp (readNextMsgInsecure conn (length c)) (\<lambda>r u. r = Returns (c, None) \<and> view u rest) t"
proof -
  have "wp (readFull LengthPrefixLength)
     (\<lambda>r t. r = Returns (PutUint16 (of_nat (length c)), None) \<and> view t (c @ rest)) s"
    using readFull_append [of s "PutUint16 (of_nat (length c))" "c @ rest"] assms(2)
    by (simp add: frame_def LengthPrefixLength_def)
  then show "wp (readNextInsecureMsgLen conn) (\<lambda>r t. r = Returns (length c, None) \<and> view t (c @ rest)) s"
    unfolding readNextInsecureMsgLen_def assms(1)
    by (rule wp_obind_step) (auto simp: frame_length [OF assms(3), simplified])
  show "view t (c @ rest) \<Longrightarrow>
      wp (readNextMsgInsecure conn (length c)) (\<lambda>r u. r = Returns (c, None) \<and> view u rest) t"
    unfolding readNextMsgInsecure_def assms(1) by (rule readFull_append)
qed

lemma Read_frame:
  assumes conn: "ic_ReadFull conn = readFull" and p: "view s (frame c @ rest)"
    and len: "length c \<le> MaxTransportMsgLength" and q: "qbuf ss = None"
    and d: "decrypt L c ss = (Inr m, ss')"
  shows "wp (SecureSession_Read L conn n ss) (\<lambda>r t. view t rest \<and>
     r = Returns (if length c \<le> n then (m, None, ss')
       else (take n m, None, ss'\<lparr>qbuf := Some m, qseek := length (take n m)\<rparr>))) s"
proof -
  note r1 = read_frame(1) [OF conn p len]
  note r2 = read_frame(2) [OF conn p len]
  show ?thesis
    unfolding SecureSession_Read_def q option.case
    by (rule wp_obind_step [OF r1])
      (auto intro!: wp_obind_step [OF r2] simp: d)
qed

end

context byte_source
begin

lemma secure_view_next:
  assumes conn: "ic_ReadFull conn = readFull" and ok: "aead_ok L"
    and view: "secure_view L ss (pending s) plain" and q: "qbuf ss = None" and ne: "pending s \<noteq> []"
  shows "wp (SecureSession_Read L conn n ss) (\<lambda>r t. \<exists>out ss' rest.
     r = Returns (out, None, ss') \<and> plain = out @ rest \<and> length out \<le> n \<and>
     secure_view L ss' (pending t) rest) s"
proof -
  from view q obtain cs ps where v: "dec ss = Some cs" "list_all fits ps"
      "pending s = concat (fst (encode_chunks L cs ps))" "plain = concat ps"
    by (auto simp: secure_view_def queued_def)
  with ne obtain p ps' where ps: "ps = p # ps'" by (cases ps) auto
  obtain c cs' where e: "cs_Encrypt L cs p = (c, cs')" by (rule prod.exhaust)
  from aead_okD [OF ok e] have c: "length c = length p + TagSize" "cs_Decrypt L cs c = (Inr p, cs')"
    by auto
  let ?rest = "concat (fst (encode_chunks L cs' ps'))"
  have pend: "pending s = frame c @ ?rest"
    using v(3) ps e by (auto split: prod.splits)
  have len: "length c \<le> MaxTransportMsgLength"
    using c(1) v(2) ps by (simp add: fits_def size_defs)
  have d: "decrypt L c ss = (Inr p, ss\<lparr>dec := Some cs'\<rparr>)"
    using v(1) c(2) by (simp add: decrypt_def)
  show ?thesis
  proof (rule wp_mono [OF Read_frame [OF conn pend len q d, of n]], elim conjE, cases "length c \<le> n")
    fix r t
    assume t: "pending t = ?rest" and n: "length c \<le> n"
      and "r = Returns (if length c \<le> n then (p, None, ss\<lparr>dec := Some cs'\<rparr>)
       else (take n p, None, ss\<lparr>dec := Some cs', qbuf := Some p, qseek := length (take n p)\<rparr>))"
    moreover have "secure_view L (ss\<lparr>dec := Some cs'\<rparr>) ?rest (concat ps')"
      using v(2) ps q
      by (intro secure_viewI [where cs = cs' and ps = ps']) (auto simp: queued_def)
    ultimately show "\<exists>out ss' rest. r = Returns (out, None, ss') \<and> plain = out @ rest \<and>
        length out \<le> n \<and> secure_view L ss' (pending t) rest"
      using v(4) ps c(1) by auto
  next
    fix r t
    assume t: "pending t = ?rest" and n: "\<not> length c \<le> n"
      and r: "r = Returns (if length c \<le> n then (p, None, ss\<lparr>dec := Some cs'\<rparr>)
       else (take n p, None, ss\<lparr>dec := Some cs', qbuf := Some p, qseek := length (take n p)\<rparr>))"
    let ?ss = "ss\<lparr>dec := Some cs', qbuf := Some p, qseek := length (take n p)\<rparr>"
    have "secure_view L ?ss ?rest (drop n p @ concat ps')"
      using v(2) ps
      by (intro secure_viewI [where cs = cs' and ps = ps']) (auto simp: queued_def min_def)
    moreover have "plain = take n p @ (drop n p @ concat ps')" using v(4) ps by simp
    ultimately show "\<exists>out ss' rest. r = Returns (out, None, ss') \<and> plain = out @ rest \<and>
        length out \<le> n \<and> secure_view L ss' (pending t) rest"
      using r n t by (auto intro!: exI)
  qed
qed

lemma Read_view:
  assumes "ic_ReadFull conn = readFull" and "aead_ok L"
    and "secure_view L ss (pending s) plain" and "qbuf ss \<noteq> None \<or> pending s \<noteq> []"
  shows "wp (SecureSession_Read L conn n ss) (\<lambda>r t. \<exists>out ss' rest.
     r = Returns (out, None, ss') \<and> plain = out @ rest \<and> length out \<le> n \<and>
     secure_view L ss' (pending t) rest) s"
proof (cases "qbuf ss")
  case None
  with assms show ?thesis by (intro secure_view_next) auto
next
  case (Some q)
  show ?thesis
    by (rule wp_mono [OF secure_view_queue [OF assms(3) Some]]) auto
qed

end

section \<open>A secure session as a stream of its own\<close>

text \<open>
  \<open>io.ReadFull\<close> on a secure session: the session is part of what a read changes. A read may return no
  bytes and no error when the queued frame was used up before, so the loop may need two rounds for a
  byte; with \<open>2 n + 2\<close> of them the frames that \<open>Write\<close> makes are always enough.
\<close>

definition secure_reader ::
  "'l noise_lib_scheme \<Rightarrow> 's insecure_conn \<Rightarrow> ('s \<times> secure_session) reader" where
  "secure_reader L conn n = State (\<lambda>(s, ss).
     case run_state (SecureSession_Read L conn n ss) s of
       (Returns (out, err, ss'), t) \<Rightarrow> (Returns (out, err), (t, ss'))
     | (Panics, t) \<Rightarrow> (Panics, (t, ss))
     | (Hangs, t) \<Rightarrow> (Hangs, (t, ss)))"

definition secure_ReadFull ::
  "'l noise_lib_scheme \<Rightarrow> 's insecure_conn \<Rightarrow> nat \<Rightarrow> ('s \<times> secure_session, (bytes \<times> goerr option) outcome) state" where
  "secure_ReadFull L conn n = ReadFull (2 * n + 2) (secure_reader L conn) n []"

lemma wp_secure_reader:
  "wp (secure_reader L conn n) Q (s, ss) = wp (SecureSession_Read L conn n ss) (\<lambda>r t.
     case r of Returns (out, err, ss') \<Rightarrow> Q (Returns (out, err)) (t, ss') | Panics \<Rightarrow> Q Panics (t, ss)
     | Hangs \<Rightarrow> Q Hangs (t, ss)) s"
  by (simp add: secure_reader_def wp_def split: prod.splits outcome.splits)

definition secure_stream :: "'l noise_lib_scheme \<Rightarrow> secure_session \<Rightarrow> bytes \<Rightarrow> bytes \<Rightarrow> bool" where
  "secure_stream L ss inp plain =
     (aead_ok L \<and> (\<forall>q. qbuf ss = Some q \<longrightarrow> qseek ss \<le> length q) \<and>
      (\<exists>cs ps. dec ss = Some cs \<and> list_all (\<lambda>p. fits p \<and> p \<noteq> []) ps \<and>
         inp = concat (fst (encode_chunks L cs ps)) \<and> plain = queued ss @ concat ps))"

definition drained :: "secure_session \<Rightarrow> bool" where
  "drained ss = (case qbuf ss of None \<Rightarrow> False | Some q \<Rightarrow> qseek ss = length q)"

lemma secure_streamI:
  "aead_ok L \<Longrightarrow> (\<And>q. qbuf ss = Some q \<Longrightarrow> qseek ss \<le> length q) \<Longrightarrow> dec ss = Some cs \<Longrightarrow>
   list_all (\<lambda>p. fits p \<and> p \<noteq> []) ps \<Longrightarrow> inp = concat (fst (encode_chunks L cs ps)) \<Longrightarrow>
   plain = queued ss @ concat ps \<Longrightarrow> secure_stream L ss inp plain"
  by (auto simp: secure_stream_def)

text \<open>What one read does: it delivers something, or it drops a queued frame that was used up.\<close>

definition read_step ::
  "'l noise_lib_scheme \<Rightarrow> secure_session \<Rightarrow> bytes \<Rightarrow> nat \<Rightarrow> (bytes \<times> goerr option \<times> secure_session) outcome \<Rightarrow> bytes \<Rightarrow> bool" where
  "read_step L ss plain n r inp = (\<exists>out ss' rest. r = Returns (out, None, ss') \<and> plain = out @ rest \<and> length out \<le> n \<and>
     secure_stream L ss' inp rest \<and> (out = [] \<longrightarrow> drained ss \<and> \<not> drained ss'))"

lemma queued_step:
  assumes view: "secure_stream L ss inp plain" and q: "qbuf ss = Some q" and "0 < n"
  shows "wp (SecureSession_Read L conn n ss) (\<lambda>r t. t = s \<and> read_step L ss plain n r inp) s"
proof -
  let ?out = "take n (drop (qseek ss) q)"
  let ?ss = "if qseek ss + length ?out = length q then ss\<lparr>qseek := 0, qbuf := None\<rparr>
     else ss\<lparr>qseek := qseek ss + length ?out\<rparr>"
  from view q obtain cs ps where d: "aead_ok L" "dec ss = Some cs" "list_all (\<lambda>p. fits p \<and> p \<noteq> []) ps"
      "inp = concat (fst (encode_chunks L cs ps))" "plain = drop (qseek ss) q @ concat ps"
      and le: "qseek ss \<le> length q"
    by (auto simp: secure_stream_def queued_def)
  let ?rest = "drop n (drop (qseek ss) q) @ concat ps"
  have "plain = ?out @ ?rest"
    using d(5) append_take_drop_id [of n "drop (qseek ss) q"]
    by (simp add: append_assoc [symmetric] del: drop_drop append_assoc)
  moreover have "secure_stream L ?ss inp ?rest"
    using d le q by (intro secure_streamI [where cs = cs and ps = ps]) (auto simp: queued_def min_def add.commute)
  moreover have "?out = [] \<longrightarrow> drained ss \<and> \<not> drained ?ss"
    using le q assms(3) by (auto simp: drained_def)
  ultimately have "read_step L ss plain n (Returns (?out, None, ?ss)) inp"
    unfolding read_step_def by (intro exI [of _ ?out] exI [of _ ?ss] exI [of _ ?rest]) simp
  then show ?thesis using q by (simp add: SecureSession_Read_def Let_def)
qed

context byte_stream
begin

definition secure_seen :: "'l noise_lib_scheme \<Rightarrow> 's \<Rightarrow> secure_session \<Rightarrow> bytes \<Rightarrow> bool" where
  "secure_seen L s ss plain = (\<exists>inp. view s inp \<and> secure_stream L ss inp plain)"

lemma frame_step:
  assumes conn: "ic_ReadFull conn = readFull" and see: "view s inp" and view: "secure_stream L ss inp plain"
    and q: "qbuf ss = None" and "0 < n" and "plain \<noteq> []"
  shows "wp (SecureSession_Read L conn n ss) (\<lambda>r t. \<exists>inp. view t inp \<and> read_step L ss plain n r inp) s"
proof -
  from view q obtain cs ps where v: "aead_ok L" "dec ss = Some cs" "list_all (\<lambda>p. fits p \<and> p \<noteq> []) ps"
      "inp = concat (fst (encode_chunks L cs ps))" "plain = concat ps"
    by (auto simp: secure_stream_def queued_def)
  with assms(6) obtain p ps' where ps: "ps = p # ps'" by (cases ps) auto
  obtain c cs' where e: "cs_Encrypt L cs p = (c, cs')" by (rule prod.exhaust)
  from aead_okD [OF v(1) e] have c: "length c = length p + TagSize" "cs_Decrypt L cs c = (Inr p, cs')"
    by auto
  let ?inp = "concat (fst (encode_chunks L cs' ps'))"
  have "inp = frame c @ ?inp" using v(4) ps e by (auto split: prod.splits)
  with see have pend: "view s (frame c @ ?inp)" by simp
  have len: "length c \<le> MaxTransportMsgLength" using c(1) v(3) ps by (simp add: fits_def size_defs)
  have d: "decrypt L c ss = (Inr p, ss\<lparr>dec := Some cs'\<rparr>)" using v(2) c(2) by (simp add: decrypt_def)
  have whole: "secure_stream L (ss\<lparr>dec := Some cs'\<rparr>) ?inp (concat ps')"
    using v ps q by (intro secure_streamI [where cs = cs' and ps = ps']) (auto simp: queued_def)
  let ?ss = "ss\<lparr>dec := Some cs', qbuf := Some p, qseek := length (take n p)\<rparr>"
  have part: "secure_stream L ?ss ?inp (drop n p @ concat ps')"
    using v ps by (intro secure_streamI [where cs = cs' and ps = ps']) (auto simp: queued_def min_def)
  have "read_step L ss plain n (Returns (if length c \<le> n then (p, None, ss\<lparr>dec := Some cs'\<rparr>) else (take n p, None, ?ss))) ?inp"
  proof (cases "length c \<le> n")
    case True
    then show ?thesis
      unfolding read_step_def using whole v(3,5) ps c(1)
      by (intro exI [of _ p] exI [of _ "ss\<lparr>dec := Some cs'\<rparr>"] exI [of _ "concat ps'"]) auto
  next
    case False
    then show ?thesis
      unfolding read_step_def using part v(3,5) ps assms(5)
      by (intro exI [of _ "take n p"] exI [of _ ?ss] exI [of _ "drop n p @ concat ps'"]) auto
  qed
  then show ?thesis by (auto intro: wp_mono [OF Read_frame [OF conn pend len q d, of n]])
qed

lemma secure_step:
  assumes "ic_ReadFull conn = readFull" and "secure_seen L s ss plain" and "0 < n" and "plain \<noteq> []"
  shows "wp (SecureSession_Read L conn n ss) (\<lambda>r t. \<exists>inp. view t inp \<and> read_step L ss plain n r inp) s"
proof -
  from assms(2) obtain inp where i: "view s inp" "secure_stream L ss inp plain" by (auto simp: secure_seen_def)
  show ?thesis
  proof (cases "qbuf ss")
    case None
    with assms i show ?thesis by (intro frame_step) auto
  next
    case (Some q)
    show ?thesis by (rule wp_mono [OF queued_step [OF i(2) Some assms(3)]]) (use i(1) in auto)
  qed
qed

lemma secure_ReadFull_loop:
  assumes conn: "ic_ReadFull conn = readFull"
  shows "secure_seen L s ss plain \<Longrightarrow> n \<le> length acc + length plain \<Longrightarrow> length acc \<le> n \<Longrightarrow>
    2 * (n - length acc) + (if drained ss then 1 else 0) < fuel \<Longrightarrow>
    wp (ReadFull fuel (secure_reader L conn) n acc) (\<lambda>r (t, ss'). r = Returns (acc @ take (n - length acc) plain, None) \<and>
      secure_seen L t ss' (drop (n - length acc) plain)) (s, ss)"
proof (induction fuel arbitrary: acc s ss plain)
  case (Suc fuel)
  show ?case
  proof (cases "length acc < n")
    case True
    with Suc.prems have "plain \<noteq> []" by auto
    then have step: "wp (secure_reader L conn (n - length acc)) (\<lambda>r (t, ss'). \<exists>out rest.
        r = Returns (out, None) \<and> plain = out @ rest \<and> length out \<le> n - length acc \<and>
        secure_seen L t ss' rest \<and> (out = [] \<longrightarrow> drained ss \<and> \<not> drained ss')) (s, ss)"
      using secure_step [OF conn Suc.prems(1), of "n - length acc"] True
      by (auto simp: wp_secure_reader read_step_def secure_seen_def elim!: wp_mono)
    have rec: "wp (ReadFull fuel (secure_reader L conn) n (acc @ out)) (\<lambda>r (t, ss').
        r = Returns (acc @ out @ take (n - (length acc + length out)) rest, None) \<and>
        secure_seen L t ss' (drop (n - (length acc + length out)) rest)) (t, ss')"
      if "plain = out @ rest" "length out \<le> n - length acc" "secure_seen L t ss' rest"
        "out = [] \<longrightarrow> drained ss \<and> \<not> drained ss'" for out rest t ss'
    proof -
      have "2 * (n - length (acc @ out)) + (if drained ss' then 1 else 0) < fuel"
        using Suc.prems(4) that(2,4) True by (cases out) (auto split: if_splits)
      then show ?thesis using Suc.IH [OF that(3), of "acc @ out"] Suc.prems that True by simp
    qed
    show ?thesis
      using True unfolding ReadFull.simps
      by (auto intro!: wp_obind_step [OF step] wp_mono [OF rec])
  next
    case False
    with Suc.prems show ?thesis by (simp add: ReadFull_end_def)
  qed
qed simp

lemma secure_ReadFull_view:
  assumes "ic_ReadFull conn = readFull" and "secure_seen L s ss plain" and "n \<le> length plain"
  shows "wp (secure_ReadFull L conn n) (\<lambda>r (t, ss'). r = Returns (take n plain, None) \<and>
    secure_seen L t ss' (drop n plain)) (s, ss)"
  using secure_ReadFull_loop [OF assms(1,2), of n "[]" "2 * n + 2"] assms(3)
  unfolding secure_ReadFull_def by simp

end

section \<open>What a completed handshake guarantees\<close>

text \<open>
  The identity of the other end was checked: its key came in a handshake payload, hashes to
  the peer identifier the session records, and signed the Noise static key.
\<close>

definition authentic :: "'l noise_lib_scheme \<Rightarrow> secure_session \<Rightarrow> bool" where
  "authentic L ss = (\<exists>payload hs nhp pk.
     Unmarshal (pb_NoisePayload L) payload = (nhp, None) \<and>
     UnmarshalPublicKey L (nhp_IdentityKey nhp) = Inr pk \<and>
     IDFromPublicKey L pk = Inr (remoteID ss) \<and>
     pub_Verify L pk (payloadSigPrefix @ hs_PeerStatic L hs) (nhp_IdentitySig nhp) = Inr True \<and>
     remoteKey ss = Some pk)"

text \<open>Sending and reading a handshake message changes the cipher states only.\<close>

definition same_identity :: "secure_session \<Rightarrow> secure_session \<Rightarrow> bool" where
  "same_identity a b = (initiator a = initiator b \<and> remoteID a = remoteID b \<and> remoteKey a = remoteKey b)"

lemma setCipherStates_identity [simp]: "same_identity ss (setCipherStates a b ss)"
  by (simp add: setCipherStates_def same_identity_def)

lemma same_identity_refl [simp]: "same_identity ss ss"
  by (simp add: same_identity_def)

lemma same_identity_trans: "same_identity a b \<Longrightarrow> same_identity b c \<Longrightarrow> same_identity a c"
  by (simp add: same_identity_def)

lemma same_identity_authentic: "same_identity a b \<Longrightarrow> authentic L b = authentic L a"
  by (simp add: authentic_def same_identity_def)

lemma sendHandshakeMessage_identity:
  "yields (\<lambda>(e, hs', ss'). same_identity ss ss') (sendHandshakeMessage L conn hs p ss)"
  unfolding sendHandshakeMessage_def
  by (auto split: prod.split sum.split option.split intro!: yields_return
      yields_bind [OF yields_any [where P = "\<lambda>_. True"]])

lemma readHandshakeMessage_identity:
  "yields (\<lambda>r. \<forall>m e hs' ss'. r = Returns (m, e, hs', ss') \<longrightarrow> same_identity ss ss')
     (readHandshakeMessage L conn hs ss)"
  unfolding readHandshakeMessage_def
  by (auto split: prod.split sum.split option.split outcome.split intro!: yields_return
      yields_obind [OF yields_any [where P = "\<lambda>_. True"]])

lemma handleRemoteHandshakePayload_ok:
  assumes "handleRemoteHandshakePayload L payload (hs_PeerStatic L hs) ss = (None, ss')"
  shows "authentic L ss'" and "initiator ss' = initiator ss"
    and "initiator ss \<Longrightarrow> remoteID ss' = remoteID ss"
proof -
  obtain nhp pk where h: "Unmarshal (pb_NoisePayload L) payload = (nhp, None)"
      "UnmarshalPublicKey L (nhp_IdentityKey nhp) = Inr pk"
      "IDFromPublicKey L pk = Inr (remoteID ss')"
      "pub_Verify L pk (payloadSigPrefix @ hs_PeerStatic L hs) (nhp_IdentitySig nhp) = Inr True"
      "remoteKey ss' = Some pk" "initiator ss' = initiator ss"
      "initiator ss \<longrightarrow> remoteID ss' = remoteID ss"
    using assms
    by (auto simp: handleRemoteHandshakePayload_def split: prod.splits option.splits
        sum.splits if_splits)
  from h show "authentic L ss'" unfolding authentic_def by blast
  from h show "initiator ss' = initiator ss" "initiator ss \<Longrightarrow> remoteID ss' = remoteID ss" by auto
qed

definition handshake_post :: "'l noise_lib_scheme \<Rightarrow> secure_session \<Rightarrow>
    (goerr option \<times> secure_session) outcome \<Rightarrow> bool" where
  "handshake_post L ss r = (\<forall>ss'. r = Returns (None, ss') \<longrightarrow> authentic L ss' \<and>
     initiator ss' = initiator ss \<and> (initiator ss \<longrightarrow> remoteID ss' = remoteID ss))"

lemma wrap_err_None [simp]: "wrap_err m e = None \<longleftrightarrow> e = None"
  by (simp add: wrap_err_def)

lemma handshake_post_simps [simp]:
  "handshake_post L ss (Returns (Some e, ss'))" "handshake_post L ss Panics" "handshake_post L ss Hangs"
  "f \<noteq> None \<Longrightarrow> handshake_post L ss (Returns (wrap_err m f, ss'))"
  by (auto simp: handshake_post_def)

lemma handshake_postI:
  assumes "handleRemoteHandshakePayload L p (hs_PeerStatic L hs) ss1 = (None, ss2)"
    and "same_identity ss ss1" and "same_identity ss2 ss3"
  shows "handshake_post L ss (Returns (e, ss3))"
  using handleRemoteHandshakePayload_ok [OF assms(1)] assms(2,3)
    same_identity_authentic [OF assms(3), of L]
  by (auto simp: handshake_post_def same_identity_def)

lemma handshake_post_checked:
  assumes "same_identity ss ss1"
  shows "handshake_post L ss (Returns (handleRemoteHandshakePayload L p (hs_PeerStatic L hs) ss1))"
proof (cases "handleRemoteHandshakePayload L p (hs_PeerStatic L hs) ss1")
  case (Pair e ss2)
  with assms show ?thesis by (cases e) (auto intro: handshake_postI)
qed

lemmas handshake_yields = yields_bind [OF sendHandshakeMessage_identity]
  yields_obind [OF readHandshakeMessage_identity] yields_return

lemmas handshake_splits = prod.split option.split outcome.split

lemma initiatorHandshake_post: "yields (handshake_post L ss) (initiatorHandshake L conn hs payload ss)"
  unfolding initiatorHandshake_def
  by (auto intro!: handshake_yields split: handshake_splits)
    (auto elim!: handshake_postI intro: same_identity_trans)

lemma responderHandshake_post: "yields (handshake_post L ss) (responderHandshake L conn hs payload ss)"
  unfolding responderHandshake_def
  by (auto intro!: handshake_yields handshake_post_checked split: handshake_splits)
    (blast intro: same_identity_trans)

lemma runHandshake_post: "yields (handshake_post L ss) (runHandshake L conn kp ss)"
  unfolding runHandshake_def
  by (auto split: sum.split intro!: yields_return initiatorHandshake_post responderHandshake_post)

lemma NewSecureSession_authentic:
  "yields (\<lambda>r. \<forall>ss. r = Returns (Some ss, None) \<longrightarrow> authentic L ss \<and> initiator ss = init \<and>
      (init \<longrightarrow> remoteID ss = remote))
     (NewSecureSession L conn kp ctx_err lID key remote init)"
  unfolding NewSecureSession_def Let_def
  by (auto simp: handshake_post_def split: handshake_splits
      intro!: yields_obind [OF runHandshake_post] yields_return
        yields_bind [OF yields_any [where P = "\<lambda>_. True"]]
        yields_obind [OF yields_any [where P = "\<lambda>_. True"]])

text \<open>The two ends of a handshake use each other's cipher states.\<close>

lemma setCipherStates_opposite:
  assumes "initiator a" "\<not> initiator b"
  shows "enc (setCipherStates c1 c2 a) = dec (setCipherStates c1 c2 b)"
    and "dec (setCipherStates c1 c2 a) = enc (setCipherStates c1 c2 b)"
  using assms by (simp_all add: setCipherStates_def)

end
