(* ===== verification/WN_Crypto.thy ===== *)
theory WN_Crypto
  imports WN_Secure
begin

text \<open>
  \<^verbatim>\<open>crypto/\<close>: the three kinds of account keys, and WhiteNoise identifiers. An identifier is an
  array of 34 bytes, the key type and the marshalled public key; its text form is a digit and
  the base58 of the key, and the hash of the key is the name under which proxies file clients.

  The arithmetic of the curves, ECIES and the serialisation of curve points belong to other
  packages; they are fields of \<open>crypto_lib\<close>. An Ed25519 key is a byte string in the code and
  here; the points and scalars of the other curves are opaque.
\<close>

section \<open>Keys\<close>

type_synonym ec_pub = bytes
type_synonym ec_priv = bytes
type_synonym wn_id = bytes

datatype public_key = Ed25519PublicKey bytes | Secp256k1PublicKey ec_pub
  | ECDSAPublicKey "ec_pub option"

datatype private_key = Ed25519PrivateKey bytes | Secp256k1PrivateKey ec_priv
  | ECDSAPrivateKey ec_priv

datatype p2p_kind = P2P_Ed25519 | P2P_ECDSA | P2P_Secp256k1 | P2P_other

record crypto_lib = noise_lib +
  ed_GenerateKey :: "bytes \<Rightarrow> goerr + bytes \<times> bytes"
  ed_Public :: "bytes \<Rightarrow> bytes"
  Sum512 :: "bytes \<Rightarrow> bytes"
  kyber_Scalar :: "bytes \<Rightarrow> goerr + bytes"
  kyber_Point :: "bytes \<Rightarrow> goerr + bytes"
  kyber_MulBase :: "bytes \<Rightarrow> bytes"
  kyber_Encrypt :: "bytes \<Rightarrow> bytes \<Rightarrow> goerr + bytes"
  kyber_Decrypt :: "bytes \<Rightarrow> bytes \<Rightarrow> goerr + bytes"
  ecdsa_GenerateKey :: "bytes \<Rightarrow> goerr + ec_priv"
  btcec_NewPrivateKey :: "goerr + ec_priv"
  ec_Public :: "ec_priv \<Rightarrow> ec_pub"
  nc_MarshalPublicKey :: "ec_pub \<Rightarrow> bytes"
  nc_UnmarshalPublicKey :: "bytes \<Rightarrow> ec_pub option"
  x509_MarshalECPrivateKey :: "ec_priv \<Rightarrow> goerr + bytes"
  x509_ParseECPrivateKey :: "bytes \<Rightarrow> goerr + ec_priv"
  x509_MarshalPKIX :: "ec_pub option \<Rightarrow> goerr + bytes"
  x509_ParsePKIX :: "bytes \<Rightarrow> goerr + ec_pub option"
  btcec_Serialize :: "ec_pub \<Rightarrow> bytes"
  btcec_Parse :: "bytes \<Rightarrow> goerr + ec_pub"
  btcec_PrivSerialize :: "ec_priv \<Rightarrow> bytes"
  btcec_PrivFromBytes :: "bytes \<Rightarrow> ec_priv option"
  ecies_Encrypt :: "ec_pub option \<Rightarrow> bytes \<Rightarrow> bytes \<Rightarrow> goerr + bytes"
  ecies_Decrypt :: "ec_priv \<Rightarrow> bytes \<Rightarrow> goerr + bytes"
  p2p_UnmarshalEd25519 :: "bytes \<Rightarrow> goerr + p2p_pub"
  p2p_UnmarshalECDSA :: "bytes \<Rightarrow> goerr + p2p_pub"
  p2p_FromSecp256k1 :: "ec_pub \<Rightarrow> p2p_pub"
  p2p_Kind :: "p2p_pub \<Rightarrow> p2p_kind"
  p2p_Raw :: "p2p_pub \<Rightarrow> goerr + bytes"
  p2p_MarshalEd25519Private :: "bytes \<Rightarrow> goerr + bytes"
  p2p_UnmarshalPrivateKey :: "bytes \<Rightarrow> goerr + p2p_priv"
  p2p_ECDSAKeyPair :: "ec_priv \<Rightarrow> goerr + p2p_priv \<times> p2p_pub"
  p2p_PrivFromSecp256k1 :: "ec_priv \<Rightarrow> p2p_priv"
  pem_Encode :: "bytes \<Rightarrow> string"
  pem_Decode :: "string \<Rightarrow> bytes option"

definition MarshallECDSAPublicKeyLength :: nat where "MarshallECDSAPublicKeyLength = 33"
definition MarshallEd25519PublicKeyLength :: nat where "MarshallEd25519PublicKeyLength = 32"
definition MarshallSecp256k1PublicKeyLength :: nat where "MarshallSecp256k1PublicKeyLength = 33"

definition Ed25519 :: int where "Ed25519 = 0"
definition Secpk1 :: int where "Secpk1 = 1"
definition ECDSA :: int where "ECDSA = 2"

lemmas key_type_defs = Ed25519_def Secpk1_def ECDSA_def
lemmas key_length_defs = MarshallECDSAPublicKeyLength_def MarshallEd25519PublicKeyLength_def
  MarshallSecp256k1PublicKeyLength_def

definition MarshallEd25519PublicKey :: "bytes \<Rightarrow> bytes" where
  "MarshallEd25519PublicKey pub = pub"

definition UnMarshallEd25519PublicKey :: "bytes \<Rightarrow> goerr + public_key" where
  "UnMarshallEd25519PublicKey buf =
     (if length buf \<noteq> 32 then Inl ''not right size'' else Inr (Ed25519PublicKey buf))"

definition MarshallEd25519PrivateKey :: "bytes \<Rightarrow> bytes" where
  "MarshallEd25519PrivateKey priv = priv"

definition UnMarshallEd25519PrivateKey :: "bytes \<Rightarrow> goerr + private_key" where
  "UnMarshallEd25519PrivateKey data =
     (if length data \<noteq> 64 then Inl ''not right size'' else Inr (Ed25519PrivateKey data))"

definition MarshallECDSAPublicKey :: "'l crypto_lib_scheme \<Rightarrow> ec_pub option \<Rightarrow> goerr + bytes" where
  "MarshallECDSAPublicKey L pub =
     (case pub of None \<Rightarrow> Inl ''pub nil'' | Some p \<Rightarrow> Inr (nc_MarshalPublicKey L p))"

definition UnMarshallECDSAPublicKey :: "'l crypto_lib_scheme \<Rightarrow> bytes \<Rightarrow> goerr + public_key" where
  "UnMarshallECDSAPublicKey L data =
     (case nc_UnmarshalPublicKey L data of
        None \<Rightarrow> Inl ''UnMarshallECDSAPublicKey err''
      | Some pk \<Rightarrow> Inr (ECDSAPublicKey (Some pk)))"

definition MarshallECDSAPrivateKey :: "'l crypto_lib_scheme \<Rightarrow> ec_priv \<Rightarrow> goerr + bytes" where
  "MarshallECDSAPrivateKey L priv = x509_MarshalECPrivateKey L priv"

definition UnMarshallECDSAPrivateKey :: "'l crypto_lib_scheme \<Rightarrow> bytes \<Rightarrow> goerr + private_key" where
  "UnMarshallECDSAPrivateKey L data =
     (case x509_ParseECPrivateKey L data of Inl e \<Rightarrow> Inl e | Inr priv \<Rightarrow> Inr (ECDSAPrivateKey priv))"

definition MarshallSecp256k1PublicKey :: "'l crypto_lib_scheme \<Rightarrow> ec_pub \<Rightarrow> bytes" where
  "MarshallSecp256k1PublicKey L pk = btcec_Serialize L pk"

definition UnMarshallSecp256k1PublicKey :: "'l crypto_lib_scheme \<Rightarrow> bytes \<Rightarrow> goerr + public_key" where
  "UnMarshallSecp256k1PublicKey L data =
     (case btcec_Parse L data of Inl e \<Rightarrow> Inl e | Inr pk \<Rightarrow> Inr (Secp256k1PublicKey pk))"

definition MarshallSecp256k1PrivateKey :: "'l crypto_lib_scheme \<Rightarrow> ec_priv \<Rightarrow> bytes" where
  "MarshallSecp256k1PrivateKey L sk = btcec_PrivSerialize L sk"

definition UnMarshallSecp256k1PrivateKey :: "'l crypto_lib_scheme \<Rightarrow> bytes \<Rightarrow> goerr + private_key" where
  "UnMarshallSecp256k1PrivateKey L data =
     (case btcec_PrivFromBytes L data of
        None \<Rightarrow> Inl ''UnMarshallSecp256k1PrivateKey PrivKeyFromBytes error''
      | Some priv \<Rightarrow> Inr (Secp256k1PrivateKey priv))"

text \<open>
  The methods of the three kinds of keys, and the interfaces \<open>PublicKey\<close> and \<open>PrivateKey\<close>: a call on an
  interface is a call of the method of its kind.
\<close>

definition Ed25519_pub_Bytes :: "bytes \<Rightarrow> bytes" where
  [simp]: "Ed25519_pub_Bytes pub = MarshallEd25519PublicKey pub"

definition Secp256k1_pub_Bytes :: "'l crypto_lib_scheme \<Rightarrow> ec_pub \<Rightarrow> bytes" where
  [simp]: "Secp256k1_pub_Bytes L pub = MarshallSecp256k1PublicKey L pub"

definition ECDSA_pub_Bytes :: "'l crypto_lib_scheme \<Rightarrow> ec_pub option \<Rightarrow> bytes" where
  [simp]: "ECDSA_pub_Bytes L pub = (case MarshallECDSAPublicKey L pub of Inl e \<Rightarrow> [] | Inr b \<Rightarrow> b)"

fun public_Bytes :: "'l crypto_lib_scheme \<Rightarrow> public_key \<Rightarrow> bytes" where
  "public_Bytes L (Ed25519PublicKey pub) = Ed25519_pub_Bytes pub"
| "public_Bytes L (Secp256k1PublicKey pub) = Secp256k1_pub_Bytes L pub"
| "public_Bytes L (ECDSAPublicKey pub) = ECDSA_pub_Bytes L pub"

definition Ed25519_priv_Bytes :: "bytes \<Rightarrow> bytes" where
  [simp]: "Ed25519_priv_Bytes priv = MarshallEd25519PrivateKey priv"

definition Secp256k1_priv_Bytes :: "'l crypto_lib_scheme \<Rightarrow> ec_priv \<Rightarrow> bytes" where
  [simp]: "Secp256k1_priv_Bytes L priv = MarshallSecp256k1PrivateKey L priv"

definition ECDSA_priv_Bytes :: "'l crypto_lib_scheme \<Rightarrow> ec_priv \<Rightarrow> bytes" where
  [simp]: "ECDSA_priv_Bytes L priv = (case x509_MarshalECPrivateKey L priv of Inl e \<Rightarrow> [] | Inr b \<Rightarrow> b)"

fun private_Bytes :: "'l crypto_lib_scheme \<Rightarrow> private_key \<Rightarrow> bytes" where
  "private_Bytes L (Ed25519PrivateKey priv) = Ed25519_priv_Bytes priv"
| "private_Bytes L (Secp256k1PrivateKey priv) = Secp256k1_priv_Bytes L priv"
| "private_Bytes L (ECDSAPrivateKey priv) = ECDSA_priv_Bytes L priv"

definition Ed25519_Public :: "'l crypto_lib_scheme \<Rightarrow> bytes \<Rightarrow> public_key" where
  [simp]: "Ed25519_Public L priv = Ed25519PublicKey (ed_Public L priv)"

definition Secp256k1_Public :: "'l crypto_lib_scheme \<Rightarrow> ec_priv \<Rightarrow> public_key" where
  [simp]: "Secp256k1_Public L priv = Secp256k1PublicKey (ec_Public L priv)"

definition ECDSA_Public :: "'l crypto_lib_scheme \<Rightarrow> ec_priv \<Rightarrow> public_key" where
  [simp]: "ECDSA_Public L priv = ECDSAPublicKey (Some (ec_Public L priv))"

fun private_Public :: "'l crypto_lib_scheme \<Rightarrow> private_key \<Rightarrow> public_key" where
  "private_Public L (Ed25519PrivateKey priv) = Ed25519_Public L priv"
| "private_Public L (Secp256k1PrivateKey priv) = Secp256k1_Public L priv"
| "private_Public L (ECDSAPrivateKey priv) = ECDSA_Public L priv"

text \<open>The third generator ignores the source of randomness it is given.\<close>

definition GenerateECDSAKeyPair ::
  "'l crypto_lib_scheme \<Rightarrow> bytes \<Rightarrow> goerr + private_key \<times> public_key" where
  "GenerateECDSAKeyPair L r =
     (case ecdsa_GenerateKey L r of
        Inl e \<Rightarrow> Inl e
      | Inr priv \<Rightarrow> Inr (ECDSAPrivateKey priv, ECDSAPublicKey (Some (ec_Public L priv))))"

definition GenerateEd25519KeyPair ::
  "'l crypto_lib_scheme \<Rightarrow> bytes \<Rightarrow> goerr + private_key \<times> public_key" where
  "GenerateEd25519KeyPair L r =
     (case ed_GenerateKey L r of
        Inl e \<Rightarrow> Inl e
      | Inr (pub, priv) \<Rightarrow> Inr (Ed25519PrivateKey priv, Ed25519PublicKey pub))"

definition GenerateSecp256k1KeyPair ::
  "'l crypto_lib_scheme \<Rightarrow> bytes \<Rightarrow> goerr + private_key \<times> public_key" where
  "GenerateSecp256k1KeyPair L r =
     (case btcec_NewPrivateKey L of
        Inl e \<Rightarrow> Inl e
      | Inr priv \<Rightarrow> Inr (Secp256k1PrivateKey priv, Secp256k1PublicKey (ec_Public L priv)))"

definition GenerateKeyPair ::
  "'l crypto_lib_scheme \<Rightarrow> int \<Rightarrow> bytes \<Rightarrow> goerr + private_key \<times> public_key" where
  "GenerateKeyPair L keyType rand =
     (if keyType = ECDSA then GenerateECDSAKeyPair L rand
      else if keyType = Ed25519 then GenerateEd25519KeyPair L rand
      else if keyType = Secpk1 then GenerateSecp256k1KeyPair L rand
      else Inl ''key type not support'')"

text \<open>The libp2p keys of an account.\<close>

definition Ed25519_GetP2PKeypair :: "'l crypto_lib_scheme \<Rightarrow> bytes \<Rightarrow> goerr + p2p_priv \<times> p2p_pub" where
  [simp]: "Ed25519_GetP2PKeypair L priv =
     (case p2p_MarshalEd25519Private L priv of
        Inl e \<Rightarrow> Inl e
      | Inr privBytes \<Rightarrow>
          (case p2p_UnmarshalPrivateKey L privBytes of
             Inl e \<Rightarrow> Inl e
           | Inr p2pPriv \<Rightarrow> Inr (p2pPriv, priv_GetPublic L p2pPriv)))"

definition Secp256k1_GetP2PKeypair :: "'l crypto_lib_scheme \<Rightarrow> ec_priv \<Rightarrow> goerr + p2p_priv \<times> p2p_pub" where
  [simp]: "Secp256k1_GetP2PKeypair L priv =
     (let privk = p2p_PrivFromSecp256k1 L priv in Inr (privk, priv_GetPublic L privk))"

definition ECDSA_GetP2PKeypair :: "'l crypto_lib_scheme \<Rightarrow> ec_priv \<Rightarrow> goerr + p2p_priv \<times> p2p_pub" where
  [simp]: "ECDSA_GetP2PKeypair L priv = p2p_ECDSAKeyPair L priv"

fun GetP2PKeypair :: "'l crypto_lib_scheme \<Rightarrow> private_key \<Rightarrow> goerr + p2p_priv \<times> p2p_pub" where
  "GetP2PKeypair L (Ed25519PrivateKey priv) = Ed25519_GetP2PKeypair L priv"
| "GetP2PKeypair L (Secp256k1PrivateKey priv) = Secp256k1_GetP2PKeypair L priv"
| "GetP2PKeypair L (ECDSAPrivateKey priv) = ECDSA_GetP2PKeypair L priv"

definition P2PKeypairFromECDSA :: "'l crypto_lib_scheme \<Rightarrow> ec_priv \<Rightarrow> goerr + p2p_priv \<times> p2p_pub" where
  "P2PKeypairFromECDSA L priv = p2p_ECDSAKeyPair L priv"

text \<open>Key files hold an ECDSA key in PEM. A text that is no PEM block is dereferenced as nil.\<close>

definition EncodeEcdsaPriv :: "'l crypto_lib_scheme \<Rightarrow> ec_priv \<Rightarrow> goerr + string" where
  "EncodeEcdsaPriv L privateKey =
     (case x509_MarshalECPrivateKey L privateKey of Inl e \<Rightarrow> Inl e | Inr b \<Rightarrow> Inr (pem_Encode L b))"

definition DecodeEcdsaPriv :: "'l crypto_lib_scheme \<Rightarrow> string \<Rightarrow> (goerr + ec_priv) outcome" where
  "DecodeEcdsaPriv L pemEncoded =
     (case pem_Decode L pemEncoded of
        None \<Rightarrow> Panics
      | Some x509Encoded \<Rightarrow> Returns (x509_ParseECPrivateKey L x509Encoded))"

section \<open>ECIES\<close>

text \<open>The bit operations on the hashed seed, statement by statement.\<close>

definition clamp :: "bytes \<Rightarrow> bytes" where
  "clamp secretBytes =
     (let b = secretBytes[0 := secretBytes ! 0 AND 248];
          b = b[31 := b ! 31 AND 63];
          b = b[31 := b ! 31 OR 64];
          b = b[0 := b ! 0 AND 248];
          b = b[31 := b ! 31 AND 127];
          b = b[31 := b ! 31 OR 64]
      in b)"

text \<open>\<open>sk[:32]\<close> panics on a key of fewer than 32 bytes.\<close>

definition ECIESKeypairFromEd25519 ::
  "'l crypto_lib_scheme \<Rightarrow> bytes \<Rightarrow> (goerr + bytes \<times> bytes) outcome" where
  "ECIESKeypairFromEd25519 L sk =
     (if length sk < 32 then Panics
      else
        (case kyber_Scalar L (clamp (take 32 (Sum512 L (take 32 sk)))) of
           Inl e \<Rightarrow> Returns (Inl e)
         | Inr private \<Rightarrow> Returns (Inr (private, kyber_MulBase L private))))"

definition ECIESPKFromEd25519 :: "'l crypto_lib_scheme \<Rightarrow> bytes \<Rightarrow> goerr + bytes" where
  "ECIESPKFromEd25519 L pk = kyber_Point L pk"

text \<open>
  \<open>ecies.ImportECDSA\<close> and \<open>ecies.ImportECDSAPublic\<close> wrap a key for the other calls of the package and
  leave its points as they are.
\<close>

definition Ed25519_ECIESEncrypt :: "'l crypto_lib_scheme \<Rightarrow> bytes \<Rightarrow> bytes \<Rightarrow> bytes \<Rightarrow> goerr + bytes" where
  [simp]: "Ed25519_ECIESEncrypt L pub plaintext rand =
     (case ECIESPKFromEd25519 L pub of Inl e \<Rightarrow> Inl e | Inr pk \<Rightarrow> kyber_Encrypt L pk plaintext)"

definition Secp256k1_ECIESEncrypt :: "'l crypto_lib_scheme \<Rightarrow> ec_pub \<Rightarrow> bytes \<Rightarrow> bytes \<Rightarrow> goerr + bytes" where
  [simp]: "Secp256k1_ECIESEncrypt L pub plaintext rand = ecies_Encrypt L (Some pub) plaintext rand"

definition ECDSA_ECIESEncrypt :: "'l crypto_lib_scheme \<Rightarrow> ec_pub option \<Rightarrow> bytes \<Rightarrow> bytes \<Rightarrow> goerr + bytes" where
  [simp]: "ECDSA_ECIESEncrypt L pub plaintext rand = ecies_Encrypt L pub plaintext rand"

fun public_ECIESEncrypt :: "'l crypto_lib_scheme \<Rightarrow> public_key \<Rightarrow> bytes \<Rightarrow> bytes \<Rightarrow> goerr + bytes" where
  "public_ECIESEncrypt L (Ed25519PublicKey pub) plaintext rand = Ed25519_ECIESEncrypt L pub plaintext rand"
| "public_ECIESEncrypt L (Secp256k1PublicKey pub) plaintext rand = Secp256k1_ECIESEncrypt L pub plaintext rand"
| "public_ECIESEncrypt L (ECDSAPublicKey pub) plaintext rand = ECDSA_ECIESEncrypt L pub plaintext rand"

definition Ed25519_ECIESDecrypt :: "'l crypto_lib_scheme \<Rightarrow> bytes \<Rightarrow> bytes \<Rightarrow> (goerr + bytes) outcome" where
  [simp]: "Ed25519_ECIESDecrypt L priv cyphertext =
     (case ECIESKeypairFromEd25519 L priv of
        Returns (Inl e) \<Rightarrow> Returns (Inl e)
      | Returns (Inr (sk, _)) \<Rightarrow> Returns (kyber_Decrypt L sk cyphertext)
      | Panics \<Rightarrow> Panics
      | Hangs \<Rightarrow> Hangs)"

definition Secp256k1_ECIESDecrypt :: "'l crypto_lib_scheme \<Rightarrow> ec_priv \<Rightarrow> bytes \<Rightarrow> (goerr + bytes) outcome" where
  [simp]: "Secp256k1_ECIESDecrypt L priv cyphertext = Returns (ecies_Decrypt L priv cyphertext)"

definition ECDSA_ECIESDecrypt :: "'l crypto_lib_scheme \<Rightarrow> ec_priv \<Rightarrow> bytes \<Rightarrow> (goerr + bytes) outcome" where
  [simp]: "ECDSA_ECIESDecrypt L priv cyphertext = Returns (ecies_Decrypt L priv cyphertext)"

fun private_ECIESDecrypt :: "'l crypto_lib_scheme \<Rightarrow> private_key \<Rightarrow> bytes \<Rightarrow> (goerr + bytes) outcome" where
  "private_ECIESDecrypt L (Ed25519PrivateKey priv) cyphertext = Ed25519_ECIESDecrypt L priv cyphertext"
| "private_ECIESDecrypt L (Secp256k1PrivateKey priv) cyphertext = Secp256k1_ECIESDecrypt L priv cyphertext"
| "private_ECIESDecrypt L (ECDSAPrivateKey priv) cyphertext = ECDSA_ECIESDecrypt L priv cyphertext"

section \<open>WhiteNoise identifiers\<close>

definition WhiteNoiseIDLength :: nat where "WhiteNoiseIDLength = 34"

definition zero_id :: wn_id where
  "zero_id = replicate WhiteNoiseIDLength 0"

text \<open>\<open>id[0] = ty; copy(id[1:], b)\<close> on the zero array: \<open>copy\<close> stops at the shorter slice.\<close>

definition make_id :: "int \<Rightarrow> bytes \<Rightarrow> wn_id" where
  "make_id ty b =
     (let src = take (WhiteNoiseIDLength - 1) b
      in word_of_int ty # src @ drop (length src) (replicate (WhiteNoiseIDLength - 1) 0))"

definition id_String :: "'l lib_scheme \<Rightarrow> wn_id \<Rightarrow> string" where
  "id_String L i =
     (let prefix = uint (i ! 0)
      in if prefix = Ed25519 then
           ''0'' @ base58_Encode L (take MarshallEd25519PublicKeyLength (drop 1 i))
         else if prefix = Secpk1 then
           ''1'' @ base58_Encode L (take MarshallSecp256k1PublicKeyLength (drop 1 i))
         else if prefix = ECDSA then
           ''2'' @ base58_Encode L (take MarshallECDSAPublicKeyLength (drop 1 i))
         else '''')"

text \<open>The slice \<open>s[0:1]\<close> of an empty string panics.\<close>

definition WhiteNoiseIDfromString :: "'l lib_scheme \<Rightarrow> string \<Rightarrow> (goerr + wn_id) outcome" where
  "WhiteNoiseIDfromString L s =
     (case s of
        [] \<Rightarrow> Panics
      | c # rest \<Rightarrow>
          (if c = CHR ''0'' then
             (case base58_Decode L rest of
                Inl e \<Rightarrow> Returns (Inl e) | Inr pkBytes \<Rightarrow> Returns (Inr (make_id Ed25519 pkBytes)))
           else if c = CHR ''1'' then
             (case base58_Decode L rest of
                Inl e \<Rightarrow> Returns (Inl e) | Inr pkBytes \<Rightarrow> Returns (Inr (make_id Secpk1 pkBytes)))
           else if c = CHR ''2'' then
             (case base58_Decode L rest of
                Inl e \<Rightarrow> Returns (Inl e) | Inr pkBytes \<Rightarrow> Returns (Inr (make_id ECDSA pkBytes)))
           else Returns (Inl ''not support key type'')))"

definition id_Hash :: "'l lib_scheme \<Rightarrow> wn_id \<Rightarrow> string" where
  "id_Hash L i =
     (let prefix = uint (i ! 0);
          hash = (if prefix = Ed25519 then Sum256 L (take MarshallEd25519PublicKeyLength (drop 1 i))
                  else if prefix = Secpk1 then Sum256 L (take MarshallSecp256k1PublicKeyLength (drop 1 i))
                  else if prefix = ECDSA then Sum256 L (take MarshallECDSAPublicKeyLength (drop 1 i))
                  else replicate 32 0)
      in base58_Encode L hash)"

definition id_PublicKey :: "'l crypto_lib_scheme \<Rightarrow> wn_id \<Rightarrow> goerr + public_key" where
  "id_PublicKey L i =
     (let keyType = uint (i ! 0); raw = drop 1 i
      in if keyType = Ed25519 then UnMarshallEd25519PublicKey (take MarshallEd25519PublicKeyLength raw)
         else if keyType = ECDSA then UnMarshallECDSAPublicKey L (take MarshallECDSAPublicKeyLength raw)
         else if keyType = Secpk1 then
           UnMarshallSecp256k1PublicKey L (take MarshallSecp256k1PublicKeyLength raw)
         else Inl ''key type not support'')"

definition Ed25519_GetWhiteNoiseID :: "bytes \<Rightarrow> wn_id" where
  [simp]: "Ed25519_GetWhiteNoiseID pub = make_id Ed25519 pub"

definition Secp256k1_GetWhiteNoiseID :: "'l crypto_lib_scheme \<Rightarrow> ec_pub \<Rightarrow> wn_id" where
  [simp]: "Secp256k1_GetWhiteNoiseID L pub = make_id Secpk1 (MarshallSecp256k1PublicKey L pub)"

definition ECDSA_GetWhiteNoiseID :: "'l crypto_lib_scheme \<Rightarrow> ec_pub option \<Rightarrow> wn_id" where
  [simp]: "ECDSA_GetWhiteNoiseID L pub =
     (case MarshallECDSAPublicKey L pub of
        Inl e \<Rightarrow> make_id ECDSA [] | Inr b \<Rightarrow> make_id ECDSA b)"

fun GetWhiteNoiseID :: "'l crypto_lib_scheme \<Rightarrow> public_key \<Rightarrow> wn_id" where
  "GetWhiteNoiseID L (Ed25519PublicKey pub) = Ed25519_GetWhiteNoiseID pub"
| "GetWhiteNoiseID L (Secp256k1PublicKey pub) = Secp256k1_GetWhiteNoiseID L pub"
| "GetWhiteNoiseID L (ECDSAPublicKey pub) = ECDSA_GetWhiteNoiseID L pub"

definition Ed25519_PeerID :: "'l crypto_lib_scheme \<Rightarrow> bytes \<Rightarrow> goerr + peer_id" where
  [simp]: "Ed25519_PeerID L pub =
     (case p2p_UnmarshalEd25519 L pub of Inl e \<Rightarrow> Inl e | Inr pk \<Rightarrow> IDFromPublicKey L pk)"

definition Secp256k1_PeerID :: "'l crypto_lib_scheme \<Rightarrow> ec_pub \<Rightarrow> goerr + peer_id" where
  [simp]: "Secp256k1_PeerID L pub = IDFromPublicKey L (p2p_FromSecp256k1 L pub)"

definition ECDSA_PeerID :: "'l crypto_lib_scheme \<Rightarrow> ec_pub option \<Rightarrow> goerr + peer_id" where
  [simp]: "ECDSA_PeerID L pub =
     (case x509_MarshalPKIX L pub of
        Inl e \<Rightarrow> Inl e
      | Inr b \<Rightarrow>
          (case p2p_UnmarshalECDSA L b of Inl e \<Rightarrow> Inl e | Inr pk \<Rightarrow> IDFromPublicKey L pk))"

fun public_PeerID :: "'l crypto_lib_scheme \<Rightarrow> public_key \<Rightarrow> goerr + peer_id" where
  "public_PeerID L (Ed25519PublicKey pub) = Ed25519_PeerID L pub"
| "public_PeerID L (Secp256k1PublicKey pub) = Secp256k1_PeerID L pub"
| "public_PeerID L (ECDSAPublicKey pub) = ECDSA_PeerID L pub"

definition GetPeerID :: "'l crypto_lib_scheme \<Rightarrow> wn_id \<Rightarrow> goerr + peer_id" where
  "GetPeerID L i = (case id_PublicKey L i of Inl e \<Rightarrow> Inl e | Inr pk \<Rightarrow> public_PeerID L pk)"

definition Ed25519PublicKeyFromP2P :: "'l crypto_lib_scheme \<Rightarrow> p2p_pub \<Rightarrow> goerr + public_key" where
  "Ed25519PublicKeyFromP2P L key = (case p2p_Raw L key of Inl e \<Rightarrow> Inl e | Inr buf \<Rightarrow> Inr (Ed25519PublicKey buf))"

definition ECDSAPublicKeyFromP2P :: "'l crypto_lib_scheme \<Rightarrow> p2p_pub \<Rightarrow> goerr + public_key" where
  "ECDSAPublicKeyFromP2P L p2pPK =
     (case p2p_Raw L p2pPK of
        Inl e \<Rightarrow> Inl e
      | Inr raw \<Rightarrow>
          (case x509_ParsePKIX L raw of
             Inl e \<Rightarrow> Inl e
           | Inr None \<Rightarrow> Inl ''not ecdsa pk''
           | Inr (Some ecdsaPK) \<Rightarrow> Inr (ECDSAPublicKey (Some ecdsaPK))))"

definition SecpPublicKeyFromP2P :: "'l crypto_lib_scheme \<Rightarrow> p2p_pub \<Rightarrow> goerr + public_key" where
  "SecpPublicKeyFromP2P L p2pPK =
     (case p2p_Raw L p2pPK of Inl e \<Rightarrow> Inl e | Inr raw \<Rightarrow> UnMarshallSecp256k1PublicKey L raw)"

definition WhiteNoiseIDFromP2PPK :: "'l crypto_lib_scheme \<Rightarrow> p2p_pub \<Rightarrow> string" where
  "WhiteNoiseIDFromP2PPK L publicP2P =
     (let text = (\<lambda>r. case r of Inl e \<Rightarrow> [] | Inr pk \<Rightarrow> id_String L (GetWhiteNoiseID L pk))
      in case p2p_Kind L publicP2P of
           P2P_Ed25519 \<Rightarrow> text (Ed25519PublicKeyFromP2P L publicP2P)
         | P2P_ECDSA \<Rightarrow> text (ECDSAPublicKeyFromP2P L publicP2P)
         | P2P_Secp256k1 \<Rightarrow> text (SecpPublicKeyFromP2P L publicP2P)
         | P2P_other \<Rightarrow> [])"

text \<open>What the methods of a secure session say of its two ends.\<close>

definition LocalWhiteNoiseID :: "'l crypto_lib_scheme \<Rightarrow> secure_session \<Rightarrow> string" where
  "LocalWhiteNoiseID L ss = (let publicP2P = priv_GetPublic L (localKey ss) in WhiteNoiseIDFromP2PPK L publicP2P)"

text \<open>The key of the other end is nil before the handshake, and so of no kind.\<close>

definition RemoteWhiteNoiseID :: "'l crypto_lib_scheme \<Rightarrow> secure_session \<Rightarrow> string" where
  "RemoteWhiteNoiseID L ss = (case remoteKey ss of None \<Rightarrow> [] | Some pk \<Rightarrow> WhiteNoiseIDFromP2PPK L pk)"

section \<open>Behaviour\<close>

text \<open>The part of an identifier that holds the key, and the identifiers the code makes.\<close>

definition key_length :: "int \<Rightarrow> nat" where
  "key_length ty = (if ty = Ed25519 then 32 else 33)"

definition valid_id :: "wn_id \<Rightarrow> bool" where
  "valid_id i = (length i = WhiteNoiseIDLength \<and> uint (i ! 0) \<in> {Ed25519, Secpk1, ECDSA} \<and>
     (uint (i ! 0) = Ed25519 \<longrightarrow> i ! 33 = 0))"

definition base58_ok :: "'l lib_scheme \<Rightarrow> bool" where
  "base58_ok L = (\<forall>b. base58_Decode L (base58_Encode L b) = Inr b)"

lemma length_make_id [simp]: "length (make_id ty b) = WhiteNoiseIDLength"
  by (simp add: make_id_def Let_def WhiteNoiseIDLength_def)

lemma make_id_type [simp]: "make_id ty b ! 0 = word_of_int ty"
  by (simp add: make_id_def Let_def)

lemma uint_key_type [simp]:
  "uint (word_of_int Ed25519 :: byte) = Ed25519" "uint (word_of_int Secpk1 :: byte) = Secpk1"
  "uint (word_of_int ECDSA :: byte) = ECDSA"
  by (simp_all add: key_type_defs)

lemma key_types_distinct [simp]:
  "Ed25519 \<noteq> Secpk1" "Secpk1 \<noteq> Ed25519" "Ed25519 \<noteq> ECDSA" "ECDSA \<noteq> Ed25519"
  "Secpk1 \<noteq> ECDSA" "ECDSA \<noteq> Secpk1"
  by (simp_all add: key_type_defs)

lemma make_id_key: "length b \<le> 33 \<Longrightarrow> take (length b) (drop 1 (make_id ty b)) = b"
  by (simp add: make_id_def Let_def WhiteNoiseIDLength_def)

lemma take_key [simp]: "length b = n \<Longrightarrow> n \<le> 33 \<Longrightarrow> take n (drop (Suc 0) (make_id ty b)) = b"
  using make_id_key [of b ty] by auto

lemma drop_key [simp]: "length b = 33 \<Longrightarrow> drop (Suc 0) (make_id ty b) = b"
  by (simp add: make_id_def Let_def WhiteNoiseIDLength_def)

lemma valid_make_id:
  "length b = key_length ty \<Longrightarrow> ty \<in> {Ed25519, Secpk1, ECDSA} \<Longrightarrow> valid_id (make_id ty b)"
  by (auto simp: valid_id_def key_length_def make_id_def Let_def WhiteNoiseIDLength_def
      nth_append split: if_splits)

lemma make_id_take:
  assumes "length i = WhiteNoiseIDLength" and "n \<le> 33" and "\<forall>k. n < k \<and> k < 34 \<longrightarrow> i ! k = 0"
  shows "make_id (uint (i ! 0)) (take n (drop 1 i)) = i"
proof (rule nth_equalityI)
  show "length (make_id (uint (i ! 0)) (take n (drop 1 i))) = length i"
    using assms(1) by simp
  fix k
  assume "k < length (make_id (uint (i ! 0)) (take n (drop 1 i)))"
  then have k: "k < 34" by (simp add: WhiteNoiseIDLength_def)
  show "make_id (uint (i ! 0)) (take n (drop 1 i)) ! k = i ! k"
  proof (cases k)
    case (Suc j)
    with assms k show ?thesis
      by (cases "j < n") (auto simp: make_id_def Let_def WhiteNoiseIDLength_def nth_append)
  qed simp
qed

lemma clamp_bits:
  assumes "length b = 32"
  shows "clamp b = b[0 := b ! 0 AND 248, 31 := (b ! 31 AND 127) OR 64]"
proof -
  have "(((x AND 63) OR 64) AND 127) OR 64 = (x AND 127) OR (64 :: byte)" for x :: byte
  proof (rule bit_word_eqI)
    fix n
    assume "n < LENGTH(8)"
    then have "n \<in> {0, 1, 2, 3, 4, 5, 6, 7}" by auto
    then show "bit ((((x AND 63) OR 64) AND 127) OR 64) n = bit ((x AND 127) OR (64 :: byte)) n"
      by (auto simp: bit_and_iff bit_or_iff)
  qed
  then show ?thesis using assms by (simp add: clamp_def Let_def list_update_swap)
qed

text \<open>
  What the conversions to and from libp2p keys promise for an account key: the libp2p key made from
  the public key is the public part of the libp2p key made from the private key, it has the kind of
  the account key, and its raw form is what the account key is written as.
\<close>

fun p2p_same :: "'l crypto_lib_scheme \<Rightarrow> public_key \<Rightarrow> p2p_pub \<Rightarrow> bool" where
  "p2p_same L (Ed25519PublicKey p) pk =
     (length p = 32 \<and> p2p_UnmarshalEd25519 L p = Inr pk \<and> p2p_Kind L pk = P2P_Ed25519 \<and> p2p_Raw L pk = Inr p)"
| "p2p_same L (Secp256k1PublicKey p) pk =
     (length (btcec_Serialize L p) = 33 \<and> btcec_Parse L (btcec_Serialize L p) = Inr p \<and>
      p2p_FromSecp256k1 L p = pk \<and> p2p_Kind L pk = P2P_Secp256k1 \<and> p2p_Raw L pk = Inr (btcec_Serialize L p))"
| "p2p_same L (ECDSAPublicKey None) pk = False"
| "p2p_same L (ECDSAPublicKey (Some p)) pk =
     (length (nc_MarshalPublicKey L p) = 33 \<and> nc_UnmarshalPublicKey L (nc_MarshalPublicKey L p) = Some p \<and>
      p2p_Kind L pk = P2P_ECDSA \<and> (\<exists>b. x509_MarshalPKIX L (Some p) = Inr b \<and> p2p_UnmarshalECDSA L b = Inr pk \<and>
        p2p_Raw L pk = Inr b \<and> x509_ParsePKIX L b = Inr (Some p)))"

lemma p2p_same_identity:
  assumes "p2p_same L pub pk"
  shows "GetPeerID L (GetWhiteNoiseID L pub) = IDFromPublicKey L pk"
    and "WhiteNoiseIDFromP2PPK L pk = id_String L (GetWhiteNoiseID L pub)"
  using assms
  by (induction L pub pk rule: p2p_same.induct)
    (auto simp: GetPeerID_def id_PublicKey_def Let_def UnMarshallEd25519PublicKey_def UnMarshallECDSAPublicKey_def
      UnMarshallSecp256k1PublicKey_def MarshallSecp256k1PublicKey_def MarshallECDSAPublicKey_def key_length_defs
      WhiteNoiseIDLength_def WhiteNoiseIDFromP2PPK_def Ed25519PublicKeyFromP2P_def ECDSAPublicKeyFromP2P_def
      SecpPublicKeyFromP2P_def)

section \<open>Properties\<close>

lemma make_id_valid:
  assumes "valid_id i"
  shows "make_id (uint (i ! 0)) (take (key_length (uint (i ! 0))) (drop 1 i)) = i"
proof (rule make_id_take)
  show "length i = WhiteNoiseIDLength" using assms by (simp add: valid_id_def)
  show "key_length (uint (i ! 0)) \<le> 33" by (simp add: key_length_def)
  show "\<forall>k. key_length (uint (i ! 0)) < k \<and> k < 34 \<longrightarrow> i ! k = 0"
  proof (intro allI impI)
    fix k
    assume k: "key_length (uint (i ! 0)) < k \<and> k < 34"
    then have "uint (i ! 0) = Ed25519" "k = 33" by (auto simp: key_length_def split: if_splits)
    then show "i ! k = 0" using assms by (simp add: valid_id_def)
  qed
qed

text \<open>
  The text form of an identifier determines it: parsing what \<open>String\<close> prints gives the
  identifier back, for each of the three key types, when base58 decodes what it encoded.
\<close>

theorem id_text_round_trip:
  assumes "valid_id i" and "base58_ok L"
  shows "WhiteNoiseIDfromString L (id_String L i) = Returns (Inr i)"
proof -
  have dec: "base58_Decode L (base58_Encode L b) = Inr b" for b
    using assms(2) by (simp add: base58_ok_def)
  from assms(1) consider "uint (i ! 0) = Ed25519" | "uint (i ! 0) = Secpk1" | "uint (i ! 0) = ECDSA"
    by (auto simp: valid_id_def)
  then show ?thesis
    using make_id_valid [OF assms(1)]
    by cases (simp_all add: id_String_def WhiteNoiseIDfromString_def dec key_length_def key_length_defs)
qed

text \<open>
  C23: every identifier the program makes is well formed, whether it was parsed from a text, however
  long the key in it, or made from a key: it has 34 bytes, its first byte is one of the three key
  types, and printing it gives a text that starts with the digit of its type, so that parsing what
  was printed does not panic.
\<close>

theorem id_well_formed:
  assumes "WhiteNoiseIDfromString L s = Returns (Inr i) \<or> i = GetWhiteNoiseID L pk"
  shows "length i = 34 \<and> uint (i ! 0) \<in> {Ed25519, Secpk1, ECDSA} \<and>
    (\<exists>rest. id_String L i = char_of (48 + nat (uint (i ! 0))) # rest) \<and>
    WhiteNoiseIDfromString L (id_String L i) \<noteq> Panics"
proof -
  obtain ty b where i: "i = make_id ty b" "ty \<in> {Ed25519, Secpk1, ECDSA}"
    using assms
  proof
    assume "WhiteNoiseIDfromString L s = Returns (Inr i)"
    then show thesis using that by (auto simp: WhiteNoiseIDfromString_def split: list.splits if_splits sum.splits)
  next
    assume "i = GetWhiteNoiseID L pk"
    then show thesis using that by (cases pk) (auto split: sum.splits)
  qed
  have digits: "char_of (48 :: nat) = CHR ''0''" "char_of (49 :: nat) = CHR ''1''" "char_of (50 :: nat) = CHR ''2''"
    by (simp_all add: char_of_def bit_0)
  from i(2) consider "ty = Ed25519" | "ty = Secpk1" | "ty = ECDSA" by auto
  then show ?thesis
  proof cases
    case 1
    then show ?thesis using i digits
      by (simp add: id_String_def WhiteNoiseIDfromString_def WhiteNoiseIDLength_def split: sum.split)
        (simp add: Ed25519_def)
  next
    case 2
    then show ?thesis using i digits
      by (simp add: id_String_def WhiteNoiseIDfromString_def WhiteNoiseIDLength_def split: sum.split)
        (simp add: Secpk1_def)
  next
    case 3
    then show ?thesis using i digits
      by (simp add: id_String_def WhiteNoiseIDfromString_def WhiteNoiseIDLength_def split: sum.split)
        (simp add: ECDSA_def)
  qed
qed

text \<open>
  C34: the six bit operations on the hashed Ed25519 seed amount to the clamping of X25519: clear the
  three lowest bits, clear the highest bit and set the second highest.
\<close>

theorem clamp_is_x25519:
  assumes "length b = 32"
  shows "clamp b = b[0 := b ! 0 AND 248, 31 := (b ! 31 AND 127) OR 64] \<and>
    (\<forall>k < 3. \<not> bit (clamp b ! 0) k) \<and> \<not> bit (clamp b ! 31) 7 \<and> bit (clamp b ! 31) 6"
proof -
  have "\<not> bit (x AND 248 :: byte) k" if "k < 3" for x k
  proof -
    from that have "k \<in> {0, 1, 2}" by auto
    then show ?thesis by (auto simp: bit_and_iff)
  qed
  moreover have "\<not> bit ((x AND 127) OR 64 :: byte) 7" "bit ((x AND 127) OR 64 :: byte) 6" for x
    by (simp_all add: bit_and_iff bit_or_iff)
  ultimately show ?thesis using assms by (simp add: clamp_bits)
qed

end
