(* ===== verification/WN_Manager.thy ===== *)
theory WN_Manager
  imports WN_Ack WN_Crypto
begin

text \<open>
  \<^verbatim>\<open>protocol/relay/manager.go\<close>, \<^verbatim>\<open>connection.go\<close> and \<^verbatim>\<open>secure_conn.go\<close>: the tables of the relay
  manager, the operations on sessions, streams and circuits, and the connections that the ends
  of a circuit have over it.

  The state extends the one of the acknowledgement manager, which runs on the same node. A
  \<open>CircuitConn\<close> is shared by pointer between \<open>circuitConnMap\<close> and the secure session on top of
  it, so connections live in a store, the list \<open>conns\<close>, and the tables hold their addresses.
  Goroutines started with \<open>go\<close> are entries of \<open>jobs\<close>; messages sent to the relay actor wait in
  \<open>relayMail\<close>.
\<close>

section \<open>State\<close>

datatype conn_state = CircuitConnBuilding | CircuitConnReady

record circuit_conn =
  localWhiteNoiseID :: wn_id
  remoteWhiteNoiseId :: wn_id
  conn_buffer :: bytes
  conn_sessionId :: string
  conn_state :: conn_state

record stream_info =
  si_stream :: wn_stream
  si_sessionID :: string

record secure_conn =
  sc_conn :: nat
  sc_session :: secure_session

datatype relay_req = ReqGetSession string
  | ReqNewSessiontoPeer peer_id string session_role session_role
  | ReqSendRelay string bytes
  | ReqAddSessionID string session
  | ReqCloseCircuit string
  | ReqHandleStreamClosed string

datatype job = InboundJob wn_stream | SuccessJob relay wn_stream bytes

record relay_state = ack_state +
  circuitConnMap :: "string \<rightharpoonup> nat"
  secureConnMap :: "string \<rightharpoonup> secure_conn"
  streamMap :: "string \<rightharpoonup> stream_info"
  sessionMap :: "string \<rightharpoonup> session"
  probeMap :: "string \<rightharpoonup> probe"
  conns :: "circuit_conn list"
  relayMail :: "relay_req list"
  jobs :: "job list"

text \<open>What the managers of a node are created with and never change.\<close>

record relay_cfg =
  cfg_role :: service_mode
  cfg_hostID :: peer_id
  cfg_privateKey :: p2p_priv
  cfg_account :: public_key
  cfg_accountPriv :: private_key

text \<open>
  What the environment adds: what happens while a reader waits for its buffer to fill, the key
  pair that the random source gives to a handshake, and whether a connection's context ends
  before its handshake.
\<close>

record 's relay_env = "'s env" +
  buf_wait :: "nat \<Rightarrow> ('s, bool) state"
  gen_keypair :: "effect list \<Rightarrow> goerr + dh_key"
  ctx_first :: "effect list \<Rightarrow> goerr option"

definition NewRelayMsgManager :: relay_state where
  "NewRelayMsgManager = \<lparr>tr = [], TaskMap = (\<lambda>_. None), ackMail = [], next_chan = 0,
     circuitConnMap = (\<lambda>_. None), secureConnMap = (\<lambda>_. None), streamMap = (\<lambda>_. None),
     sessionMap = (\<lambda>_. None), probeMap = (\<lambda>_. None), conns = [], relayMail = [], jobs = []\<rparr>"

text \<open>\<open>Store\<close> and \<open>Delete\<close> of the five \<open>sync.Map\<close>s.\<close>

definition store_circuit :: "string \<Rightarrow> nat \<Rightarrow> 'a relay_state_scheme \<Rightarrow> 'a relay_state_scheme" where
  "store_circuit k v s = s\<lparr>circuitConnMap := (circuitConnMap s)(k \<mapsto> v)\<rparr>"

definition delete_circuit :: "string \<Rightarrow> 'a relay_state_scheme \<Rightarrow> 'a relay_state_scheme" where
  "delete_circuit k s = s\<lparr>circuitConnMap := (circuitConnMap s)(k := None)\<rparr>"

definition store_secure :: "string \<Rightarrow> secure_conn \<Rightarrow> 'a relay_state_scheme \<Rightarrow> 'a relay_state_scheme" where
  "store_secure k v s = s\<lparr>secureConnMap := (secureConnMap s)(k \<mapsto> v)\<rparr>"

definition delete_secure :: "string \<Rightarrow> 'a relay_state_scheme \<Rightarrow> 'a relay_state_scheme" where
  "delete_secure k s = s\<lparr>secureConnMap := (secureConnMap s)(k := None)\<rparr>"

definition store_stream :: "string \<Rightarrow> stream_info \<Rightarrow> 'a relay_state_scheme \<Rightarrow> 'a relay_state_scheme" where
  "store_stream k v s = s\<lparr>streamMap := (streamMap s)(k \<mapsto> v)\<rparr>"

definition delete_stream :: "string \<Rightarrow> 'a relay_state_scheme \<Rightarrow> 'a relay_state_scheme" where
  "delete_stream k s = s\<lparr>streamMap := (streamMap s)(k := None)\<rparr>"

definition store_session :: "string \<Rightarrow> session \<Rightarrow> 'a relay_state_scheme \<Rightarrow> 'a relay_state_scheme" where
  "store_session k v s = s\<lparr>sessionMap := (sessionMap s)(k \<mapsto> v)\<rparr>"

definition delete_session :: "string \<Rightarrow> 'a relay_state_scheme \<Rightarrow> 'a relay_state_scheme" where
  "delete_session k s = s\<lparr>sessionMap := (sessionMap s)(k := None)\<rparr>"

definition store_probe :: "string \<Rightarrow> probe \<Rightarrow> 'a relay_state_scheme \<Rightarrow> 'a relay_state_scheme" where
  "store_probe k v s = s\<lparr>probeMap := (probeMap s)(k \<mapsto> v)\<rparr>"

definition delete_probe :: "string \<Rightarrow> 'a relay_state_scheme \<Rightarrow> 'a relay_state_scheme" where
  "delete_probe k s = s\<lparr>probeMap := (probeMap s)(k := None)\<rparr>"

section \<open>Closing and looking up\<close>

definition circuit_Close :: "nat \<Rightarrow> ('a relay_state_scheme, unit) state" where
  "circuit_Close a = do {
     cs \<leftarrow> gets conns;
     emit (ECancelCircuit (conn_sessionId (cs ! a)))
   }"

fun close_streams :: "wn_stream list \<Rightarrow> ('a relay_state_scheme, unit) state" where
  "close_streams [] = ret ()"
| "close_streams (stream # rest) = do { CloseStream stream; close_streams rest }"

definition RemoveSession :: "string \<Rightarrow> ('a relay_state_scheme, unit) state" where
  "RemoveSession sessionId = do {
     v \<leftarrow> gets (\<lambda>s. secureConnMap s sessionId);
     (case v of
        Some sc \<Rightarrow> do { circuit_Close (sc_conn sc); modify (delete_secure sessionId) }
      | None \<Rightarrow> ret ());
     v \<leftarrow> gets (\<lambda>s. circuitConnMap s sessionId);
     (case v of
        Some a \<Rightarrow> do { circuit_Close a; modify (delete_circuit sessionId) }
      | None \<Rightarrow> ret ());
     v \<leftarrow> gets (\<lambda>s. sessionMap s sessionId);
     (case v of
        Some sess \<Rightarrow> do { close_streams (Pair sess); modify (delete_session sessionId) }
      | None \<Rightarrow> ret ());
     modify (delete_probe sessionId)
   }"

definition GetCircuit :: "string \<Rightarrow> ('a relay_state_scheme, nat option) state" where
  "GetCircuit sessionId = gets (\<lambda>s. circuitConnMap s sessionId)"

definition GetSecureConn :: "string \<Rightarrow> ('a relay_state_scheme, secure_conn option) state" where
  "GetSecureConn sessionId = gets (\<lambda>s. secureConnMap s sessionId)"

definition NewCircuitConn ::
  "relay_cfg \<Rightarrow> 'l crypto_lib_scheme \<Rightarrow> string \<Rightarrow> wn_id \<Rightarrow> ('a relay_state_scheme, nat) state" where
  "NewCircuitConn C L sessionID remote = do {
     a \<leftarrow> gets (\<lambda>s. length (conns s));
     modify (\<lambda>s. s\<lparr>conns := conns s @
       [\<lparr>localWhiteNoiseID = GetWhiteNoiseID L (cfg_account C), remoteWhiteNoiseId = remote,
          conn_buffer = [], conn_sessionId = sessionID, conn_state = CircuitConnBuilding\<rparr>]\<rparr>);
     ret a
   }"

definition AddCircuitConnCaller ::
  "relay_cfg \<Rightarrow> 'l crypto_lib_scheme \<Rightarrow> string \<Rightarrow> wn_id \<Rightarrow> ('a relay_state_scheme, unit) state" where
  "AddCircuitConnCaller C L sessionId remote = do {
     v \<leftarrow> gets (\<lambda>s. circuitConnMap s sessionId);
     (case v of
        None \<Rightarrow> do {
          conn \<leftarrow> NewCircuitConn C L sessionId remote;
          modify (store_circuit sessionId conn)
        }
      | Some _ \<Rightarrow> ret ())
   }"

definition AddCircuitConnAnswer ::
  "relay_cfg \<Rightarrow> 'l crypto_lib_scheme \<Rightarrow> string \<Rightarrow> ('a relay_state_scheme, unit) state" where
  "AddCircuitConnAnswer C L sessionId = do {
     v \<leftarrow> gets (\<lambda>s. circuitConnMap s sessionId);
     (case v of
        None \<Rightarrow> do {
          conn \<leftarrow> NewCircuitConn C L sessionId zero_id;
          modify (store_circuit sessionId conn)
        }
      | Some _ \<Rightarrow> ret ())
   }"

definition mgr_AddStream :: "wn_stream \<Rightarrow> ('a relay_state_scheme, unit) state" where
  "mgr_AddStream s = modify (store_stream (StreamId s) \<lparr>si_stream = s, si_sessionID = ''''\<rparr>)"

definition AddStreamSessionID :: "string \<Rightarrow> string \<Rightarrow> ('a relay_state_scheme, unit) state" where
  "AddStreamSessionID streamID sessionID = do {
     v \<leftarrow> gets (\<lambda>s. streamMap s streamID);
     (case v of
        Some streamInfo \<Rightarrow> modify (store_stream streamID (streamInfo\<lparr>si_sessionID := sessionID\<rparr>))
      | None \<Rightarrow> ret ())
   }"

definition GetSession :: "string \<Rightarrow> ('a relay_state_scheme, session \<times> bool) state" where
  "GetSession i = gets (\<lambda>s. case sessionMap s i of
     None \<Rightarrow> (zero_session, False) | Some sess \<Rightarrow> (sess, True))"

definition AddSessionId :: "string \<Rightarrow> session \<Rightarrow> ('a relay_state_scheme, unit) state" where
  "AddSessionId i sess = modify (store_session i sess)"

definition SetRole :: "string \<Rightarrow> session_role \<Rightarrow> ('a relay_state_scheme, unit) state" where
  "SetRole sessionId role = do {
     v \<leftarrow> gets (\<lambda>s. sessionMap s sessionId);
     (case v of
        None \<Rightarrow> ret ()
      | Some sess \<Rightarrow> modify (store_session sessionId (sess\<lparr>Role := role\<rparr>)))
   }"

definition GetStream :: "string \<Rightarrow> ('a relay_state_scheme, stream_info option) state" where
  "GetStream i = gets (\<lambda>s. streamMap s i)"

definition DeleteStream :: "string \<Rightarrow> ('a relay_state_scheme, unit) state" where
  "DeleteStream streamID = modify (delete_stream streamID)"

section \<open>Sending\<close>

text \<open>The three loops over the streams of a session.\<close>

fun send_pair ::
  "('a relay_state_scheme, 'e) env_scheme \<Rightarrow> bytes \<Rightarrow> wn_stream list \<Rightarrow> ('a relay_state_scheme, goerr option) state" where
  "send_pair E data [] = ret None"
| "send_pair E data (stream # rest) = do {
     err \<leftarrow> WriteMsg E stream data;
     (case err of Some e \<Rightarrow> ret (Some e) | None \<Rightarrow> send_pair E data rest)
   }"

fun forward_pair ::
  "('a relay_state_scheme, 'e) env_scheme \<Rightarrow> bytes \<Rightarrow> peer_id \<Rightarrow> wn_stream list \<Rightarrow>
   ('a relay_state_scheme, goerr option) state" where
  "forward_pair E data from [] = ret None"
| "forward_pair E data from (stream # rest) =
     (if RemotePeer stream = from then forward_pair E data from rest
      else do {
        err \<leftarrow> WriteMsg E stream data;
        (case err of Some e \<Rightarrow> ret (Some e) | None \<Rightarrow> forward_pair E data from rest)
      })"

fun disconnect_pair ::
  "('a relay_state_scheme, 'e) env_scheme \<Rightarrow> bytes \<Rightarrow> wn_stream list \<Rightarrow> ('a relay_state_scheme, unit) state" where
  "disconnect_pair E data [] = ret ()"
| "disconnect_pair E data (stream # rest) = do {
     err \<leftarrow> WriteMsg E stream data;
     disconnect_pair E data rest
   }"

definition no_session_err :: goerr where "no_session_err = ''SendRelay no such session''"
definition empty_pair_err :: goerr where "empty_pair_err = ''stream pair in this session is empty''"

definition SendDisconnectRelay ::
  "('a relay_state_scheme, 'e) env_scheme \<Rightarrow> 'l lib_scheme \<Rightarrow> string \<Rightarrow> ('a relay_state_scheme, goerr option) state" where
  "SendDisconnectRelay E L sessionId =
     (case NewDisconnect L sessionId of
        (_, Some err) \<Rightarrow> ret (Some err)
      | (disData, None) \<Rightarrow> do {
          (sess, ok) \<leftarrow> GetSession sessionId;
          (if \<not> ok then ret (Some no_session_err)
           else if length (GetPair sess) = 0 then ret (Some empty_pair_err)
           else do {
             disconnect_pair E disData (GetPair sess);
             ret None
           })
        })"

definition CloseCircuit ::
  "('a relay_state_scheme, 'e) env_scheme \<Rightarrow> 'l lib_scheme \<Rightarrow> string \<Rightarrow> ('a relay_state_scheme, goerr option) state" where
  "CloseCircuit E L sessionId = do {
     v \<leftarrow> gets (\<lambda>s. sessionMap s sessionId);
     err \<leftarrow> (case v of
        None \<Rightarrow> ret (Some ''no such session'')
      | Some _ \<Rightarrow> SendDisconnectRelay E L sessionId);
     RemoveSession sessionId;
     ret err
   }"

text \<open>The deferred function of \<open>SendRelay\<close> and \<open>ForwardRelay\<close>.\<close>

definition close_on_error ::
  "('a relay_state_scheme, 'e) env_scheme \<Rightarrow> 'l lib_scheme \<Rightarrow> string \<Rightarrow> goerr option \<Rightarrow>
   ('a relay_state_scheme, goerr option) state" where
  "close_on_error E L sessionId err = do {
     (case err of Some _ \<Rightarrow> do { CloseCircuit E L sessionId; ret () } | None \<Rightarrow> ret ());
     ret err
   }"

definition SendRelay ::
  "('a relay_state_scheme, 'e) env_scheme \<Rightarrow> 'l lib_scheme \<Rightarrow> string \<Rightarrow> bytes \<Rightarrow>
   ('a relay_state_scheme, goerr option) state" where
  "SendRelay E L sessionid data = do {
     (sess, ok) \<leftarrow> GetSession sessionid;
     err \<leftarrow> (if \<not> ok then ret (Some no_session_err)
             else if length (GetPair sess) = 0 then ret (Some empty_pair_err)
             else send_pair E data (GetPair sess));
     close_on_error E L sessionid err
   }"

definition ForwardRelay ::
  "('a relay_state_scheme, 'e) env_scheme \<Rightarrow> 'l lib_scheme \<Rightarrow> string \<Rightarrow> bytes \<Rightarrow> peer_id \<Rightarrow>
   ('a relay_state_scheme, goerr option) state" where
  "ForwardRelay E L sessionId data from = do {
     (sess, ok) \<leftarrow> GetSession sessionId;
     err \<leftarrow> (if \<not> ok then ret (Some no_session_err)
             else if length (GetPair sess) = 0 then ret (Some empty_pair_err)
             else forward_pair E data from (GetPair sess));
     close_on_error E L sessionId err
   }"

definition handleProbe ::
  "('a relay_state_scheme, 'e) env_scheme \<Rightarrow> 'l lib_scheme \<Rightarrow> probe \<Rightarrow> ('a relay_state_scheme, unit) state" where
  "handleProbe E L sessionProbe = do {
     v \<leftarrow> gets (\<lambda>s. probeMap s (probe_SessionId sessionProbe));
     (case v of
        None \<Rightarrow> modify (store_probe (probe_SessionId sessionProbe) sessionProbe)
      | Some p \<Rightarrow>
          (if probe_Rand p = probe_Rand sessionProbe then do {
             SendRelay E L (probe_SessionId sessionProbe)
               (NewCircuitSuccess L (probe_SessionId sessionProbe));
             ret ()
           }
           else do { CloseCircuit E L (probe_SessionId sessionProbe); ret () }))
   }"

section \<open>Opening sessions to other nodes\<close>

definition RelayProtocol :: string where "RelayProtocol = ''/relay''"

definition spawn :: "job \<Rightarrow> ('a relay_state_scheme, unit) state" where
  "spawn j = modify (\<lambda>s. s\<lparr>jobs := jobs s @ [j]\<rparr>)"

definition NewRelayStream ::
  "('a relay_state_scheme, 'e) env_scheme \<Rightarrow> 'l lib_scheme \<Rightarrow> peer_id \<Rightarrow> ('a relay_state_scheme, goerr + string) state" where
  "NewRelayStream E L peerID = do {
     r \<leftarrow> NewStream E peerID RelayProtocol;
     (case r of
        Inl err \<Rightarrow> ret (Inl err)
      | Inr s \<Rightarrow> do {
          mgr_AddStream s;
          spawn (InboundJob s);
          err \<leftarrow> WriteMsg E s (NewRelayWake L);
          (case err of Some e \<Rightarrow> ret (Inl e) | None \<Rightarrow> ret (Inr (StreamId s)))
        })
   }"

text \<open>
  \<open>SetSessionId\<close> writes its request, then asks for the acknowledgement task to be filed, and
  waits for the answer or for the deadline (\<open>await\<close>, \<^const>\<open>None\<close> at the deadline). The
  deferred request deletes the task on both ways out.
\<close>

definition SetSessionId ::
  "('a relay_state_scheme, 'e) env_scheme \<Rightarrow> 'l lib_scheme \<Rightarrow> string \<Rightarrow> string \<Rightarrow> session_role \<Rightarrow>
   session_role \<Rightarrow> ('a relay_state_scheme, goerr option) state" where
  "SetSessionId E L sessionID streamID myRole otherRole = do {
     v \<leftarrow> GetStream streamID;
     (case v of
        None \<Rightarrow> ret (Some (''no such stream:'' @ streamID))
      | Some streamInfo \<Rightarrow>
          (let stream = si_stream streamInfo;
               (data, i) = NewSetSessionIDCommand L sessionID otherRole
           in do {
             err \<leftarrow> WriteMsg E stream data;
             (case err of
                Some e \<Rightarrow> ret (Some e)
              | None \<Rightarrow> do {
                  c \<leftarrow> make_chan;
                  RequestAck (ReqAddTask \<lparr>task_Id = i, task_Channel = c\<rparr>);
                  result \<leftarrow> await E i;
                  err \<leftarrow> (case result of
                     None \<Rightarrow> ret (Some ''timeout'')
                   | Some result \<Rightarrow>
                       (if res_Ok result then do {
                          (s, ok) \<leftarrow> GetSession sessionID;
                          (let s = (if ok then s else (SetSessionID sessionID NewSession)\<lparr>Role := myRole\<rparr>);
                               s = AddStream stream s
                           in do {
                             AddSessionId sessionID s;
                             AddStreamSessionID streamID sessionID;
                             ret None
                           })
                        }
                        else ret (Some (''cmd rejected: '' @ bytes_str (res_Data result)))));
                  RequestAck (ReqDeleteTask i);
                  ret err
                })
           }))
   }"

definition NewSessionToPeer ::
  "('a relay_state_scheme, 'e) env_scheme \<Rightarrow> 'l lib_scheme \<Rightarrow> peer_id \<Rightarrow> string \<Rightarrow> session_role \<Rightarrow>
   session_role \<Rightarrow> ('a relay_state_scheme, goerr option) state" where
  "NewSessionToPeer E L peerID sessionID myRole otherRole = do {
     r \<leftarrow> NewRelayStream E L peerID;
     (case r of
        Inl err \<Rightarrow> ret (Some err)
      | Inr streamId \<Rightarrow> SetSessionId E L sessionID streamId myRole otherRole)
   }"

section \<open>Connections over a circuit\<close>

definition get_buffer :: "nat \<Rightarrow> 'a relay_state_scheme \<Rightarrow> bytes" where
  "get_buffer a s = (if a < length (conns s) then conn_buffer (conns s ! a) else [])"

definition set_buffer :: "nat \<Rightarrow> bytes \<Rightarrow> 'a relay_state_scheme \<Rightarrow> 'a relay_state_scheme" where
  "set_buffer a b s = s\<lparr>conns := (conns s)[a := (conns s ! a)\<lparr>conn_buffer := b\<rparr>]\<rparr>"

definition conn_exists :: "nat \<Rightarrow> 'a relay_state_scheme \<Rightarrow> bool" where
  "conn_exists a s = (a < length (conns s))"

definition circuit_Read ::
  "('a relay_state_scheme, 'e) relay_env_scheme \<Rightarrow> nat \<Rightarrow> 'a relay_state_scheme reader" where
  "circuit_Read E a = SafeBuffer_Read (get_buffer a) (set_buffer a) (buf_wait E a)"

definition circuit_Write ::
  "('a relay_state_scheme, 'e) env_scheme \<Rightarrow> 'l lib_scheme \<Rightarrow> nat \<Rightarrow> bytes \<Rightarrow>
   ('a relay_state_scheme, nat \<times> goerr option) state" where
  "circuit_Write E L a b = do {
     sessionId \<leftarrow> gets (\<lambda>s. conn_sessionId (conns s ! a));
     err \<leftarrow> SendRelay E L sessionId (NewRelayMsg L b sessionId);
     ret (length b, err)
   }"

text \<open>
  \<open>InboundMsg\<close> appends to the buffer (a \<open>bytes.Buffer\<close> never refuses) and wakes the readers.
\<close>

definition InboundMsg :: "nat \<Rightarrow> bytes \<Rightarrow> ('a relay_state_scheme, unit) state" where
  "InboundMsg a b = do {
     old \<leftarrow> gets (get_buffer a);
     modify (set_buffer a (old @ b));
     sessionId \<leftarrow> gets (\<lambda>s. conn_sessionId (conns s ! a));
     emit (EPublish ''NonEmptyTopic'' sessionId)
   }"

text \<open>
  \<open>io.ReadFull\<close> on a circuit: for \<open>n\<close> bytes at most \<open>n\<close> reads are needed, since each delivers
  something or fails, so \<open>n + 1\<close> iterations are enough.
\<close>

definition circuit_conn_io ::
  "('a relay_state_scheme, 'e) relay_env_scheme \<Rightarrow> 'l lib_scheme \<Rightarrow> nat \<Rightarrow> 'a relay_state_scheme insecure_conn" where
  "circuit_conn_io E L a = \<lparr>
     ic_ReadFull = (\<lambda>n. ReadFull (Suc n) (circuit_Read E a) n []),
     ic_Write = circuit_Write E L a,
     ic_Close = circuit_Close a\<rparr>"

definition NewSecureConnCallerTopic :: string where "NewSecureConnCallerTopic = ''topic:NewCaller''"
definition NewSecureConnAnswerTopic :: string where "NewSecureConnAnswerTopic = ''topic:NewAnswer''"

definition new_secure ::
  "('a relay_state_scheme, 'e) relay_env_scheme \<Rightarrow> relay_cfg \<Rightarrow> 'l crypto_lib_scheme \<Rightarrow> nat \<Rightarrow>
   peer_id \<Rightarrow> bool \<Rightarrow> ('a relay_state_scheme, (secure_session option \<times> goerr option) outcome) state" where
  "new_secure E C L a remote init = do {
     t \<leftarrow> gets tr;
     NewSecureSession L (circuit_conn_io E L a) (gen_keypair E t) (ctx_first E t)
       (cfg_hostID C) (cfg_privateKey C) remote init
   }"

text \<open>
  The end of both functions: the session is filed and announced. \<open>NewSecureSession\<close> never
  returns a nil session without an error; the second case stands for the dereference of one.
\<close>

definition file_secure ::
  "nat \<Rightarrow> string \<Rightarrow> secure_session option \<times> goerr option \<Rightarrow>
   ('a relay_state_scheme, goerr option outcome) state" where
  "file_secure a topic r =
     (case r of
        (_, Some err) \<Rightarrow> ret (Returns (Some err))
      | (None, None) \<Rightarrow> ret Panics
      | (Some secureConn, None) \<Rightarrow> do {
          sessionId \<leftarrow> gets (\<lambda>s. conn_sessionId (conns s ! a));
          modify (store_secure sessionId \<lparr>sc_conn = a, sc_session = secureConn\<rparr>);
          emit (EPublish topic sessionId);
          ret (Returns None)
        })"

definition NewSecureConnCaller ::
  "('a relay_state_scheme, 'e) relay_env_scheme \<Rightarrow> relay_cfg \<Rightarrow> 'l crypto_lib_scheme \<Rightarrow> nat \<Rightarrow>
   ('a relay_state_scheme, goerr option outcome) state" where
  "NewSecureConnCaller E C L a = do {
     conn \<leftarrow> gets (\<lambda>s. conns s ! a);
     v \<leftarrow> gets (\<lambda>s. secureConnMap s (conn_sessionId conn));
     (case v of
        Some _ \<Rightarrow> ret (Returns None)
      | None \<Rightarrow>
          (case GetPeerID L (remoteWhiteNoiseId conn) of
             Inl err \<Rightarrow> ret (Returns (Some err))
           | Inr remotePeerID \<Rightarrow>
               obind (new_secure E C L a remotePeerID True) (file_secure a NewSecureConnCallerTopic)))
   }"

definition NewSecureConnAnswer ::
  "('a relay_state_scheme, 'e) relay_env_scheme \<Rightarrow> relay_cfg \<Rightarrow> 'l crypto_lib_scheme \<Rightarrow> nat \<Rightarrow>
   ('a relay_state_scheme, goerr option outcome) state" where
  "NewSecureConnAnswer E C L a = do {
     conn \<leftarrow> gets (\<lambda>s. conns s ! a);
     v \<leftarrow> gets (\<lambda>s. secureConnMap s (conn_sessionId conn));
     (case v of
        Some _ \<Rightarrow> ret (Returns None)
      | None \<Rightarrow> obind (new_secure E C L a '''' False) (file_secure a NewSecureConnAnswerTopic))
   }"

section \<open>The tables\<close>

interpretation circuit_map: sync_map circuitConnMap store_circuit delete_circuit
  by unfold_locales (auto simp: store_circuit_def delete_circuit_def)

interpretation secure_map: sync_map secureConnMap store_secure delete_secure
  by unfold_locales (auto simp: store_secure_def delete_secure_def)

interpretation stream_map: sync_map streamMap store_stream delete_stream
  by unfold_locales (auto simp: store_stream_def delete_stream_def)

interpretation session_map: sync_map sessionMap store_session delete_session
  by unfold_locales (auto simp: store_session_def delete_session_def)

interpretation probe_map: sync_map probeMap store_probe delete_probe
  by unfold_locales (auto simp: store_probe_def delete_probe_def)

lemmas table_defs = store_circuit_def delete_circuit_def store_secure_def delete_secure_def
  store_stream_def delete_stream_def store_session_def delete_session_def store_probe_def
  delete_probe_def

interpretation conn_cell: buffer_cell "get_buffer a" "set_buffer a" "conn_exists a"
  by unfold_locales (auto simp: get_buffer_def set_buffer_def conn_exists_def)

section \<open>Invariant\<close>

text \<open>
  A session is filed under its own identifier and joins one or two streams; a stream, a probe
  and a circuit are filed under their own identifiers; a secure connection is filed under the
  identifier of the circuit it runs on, has checked the identity of the other end, and on the
  caller's side that identity is the one the circuit was built for.
\<close>

definition session_ok :: "string \<Rightarrow> session \<Rightarrow> bool" where
  "session_ok k sess = (sess_Id sess = k \<and> Pair sess \<noteq> [] \<and> length (Pair sess) \<le> 2)"

definition stream_ok :: "string \<Rightarrow> stream_info \<Rightarrow> bool" where
  "stream_ok k v = (StreamId (si_stream v) = k)"

definition probe_ok :: "string \<Rightarrow> probe \<Rightarrow> bool" where
  "probe_ok k p = (probe_SessionId p = k)"

definition conn_is :: "circuit_conn list \<Rightarrow> nat \<Rightarrow> string \<Rightarrow> bool" where
  "conn_is cs a k = (a < length cs \<and> conn_sessionId (cs ! a) = k)"

definition secure_ok :: "'l crypto_lib_scheme \<Rightarrow> circuit_conn list \<Rightarrow> string \<Rightarrow> secure_conn \<Rightarrow> bool" where
  "secure_ok L cs k sc =
     (conn_is cs (sc_conn sc) k \<and> authentic L (sc_session sc) \<and>
      (initiator (sc_session sc) \<longrightarrow>
         GetPeerID L (remoteWhiteNoiseId (cs ! sc_conn sc)) = Inr (remoteID (sc_session sc))))"

definition req_ok :: "relay_req \<Rightarrow> bool" where
  "req_ok m = (case m of ReqAddSessionID i sess \<Rightarrow> session_ok i sess | _ \<Rightarrow> True)"

definition relay_inv :: "'l crypto_lib_scheme \<Rightarrow> 'a relay_state_scheme \<Rightarrow> bool" where
  "relay_inv L s =
     (session_map.entries_ok session_ok s \<and> stream_map.entries_ok stream_ok s \<and>
      probe_map.entries_ok probe_ok s \<and>
      circuit_map.entries_ok (\<lambda>k a. conn_is (conns s) a k) s \<and>
      secure_map.entries_ok (secure_ok L (conns s)) s \<and>
      list_all req_ok (relayMail s))"

text \<open>
  Connections are never moved or renamed: \<open>K\<close> lists addresses with the session and the remote
  identity of the connection there. The managers above this one extend the state; \<open>P\<close> is an
  invariant of theirs, which depends on their part of the state only (\<open>on_more\<close>). Every operation,
  and everything that may run while one waits, keeps \<open>relay_ok\<close> for every \<open>K\<close>.
\<close>

definition conns_have :: "(nat \<times> string \<times> wn_id) set \<Rightarrow> circuit_conn list \<Rightarrow> bool" where
  "conns_have K cs = (\<forall>(a, sid, rid) \<in> K. conn_is cs a sid \<and> remoteWhiteNoiseId (cs ! a) = rid)"

definition on_more :: "('a relay_state_scheme \<Rightarrow> bool) \<Rightarrow> bool" where
  "on_more P = (\<forall>s t. relay_state.more s = relay_state.more t \<longrightarrow> P s = P t)"

definition holds :: "('s \<Rightarrow> bool) \<Rightarrow> 's \<Rightarrow> bool" where
  "holds P s = P s"

definition relay_ok ::
  "'l crypto_lib_scheme \<Rightarrow> (nat \<times> string \<times> wn_id) set \<Rightarrow> ('a relay_state_scheme \<Rightarrow> bool) \<Rightarrow>
   'a relay_state_scheme \<Rightarrow> bool" where
  "relay_ok L K P s = (relay_inv L s \<and> conns_have K (conns s) \<and> on_more P \<and> holds P s)"

definition await_ok ::
  "'l crypto_lib_scheme \<Rightarrow> ('a relay_state_scheme \<Rightarrow> bool) \<Rightarrow> ('a relay_state_scheme, 'e) env_scheme \<Rightarrow> bool" where
  "await_ok L P E = (\<forall>K i. keeps (relay_ok L K P) (await E i))"

definition wait_ok ::
  "'l crypto_lib_scheme \<Rightarrow> ('a relay_state_scheme \<Rightarrow> bool) \<Rightarrow> ('a relay_state_scheme, 'e) relay_env_scheme \<Rightarrow> bool" where
  "wait_ok L P E = (\<forall>K a. keeps (relay_ok L K P) (buf_wait E a))"

lemma holds_update [simp]:
  assumes "on_more P"
  shows "holds P (s\<lparr>tr := x1\<rparr>) = holds P s" "holds P (s\<lparr>TaskMap := x2\<rparr>) = holds P s"
    "holds P (s\<lparr>ackMail := x3\<rparr>) = holds P s" "holds P (s\<lparr>next_chan := x4\<rparr>) = holds P s"
    "holds P (s\<lparr>circuitConnMap := x5\<rparr>) = holds P s" "holds P (s\<lparr>secureConnMap := x6\<rparr>) = holds P s"
    "holds P (s\<lparr>streamMap := x7\<rparr>) = holds P s" "holds P (s\<lparr>sessionMap := x8\<rparr>) = holds P s"
    "holds P (s\<lparr>probeMap := x9\<rparr>) = holds P s" "holds P (s\<lparr>conns := x10\<rparr>) = holds P s"
    "holds P (s\<lparr>relayMail := x11\<rparr>) = holds P s" "holds P (s\<lparr>jobs := x12\<rparr>) = holds P s"
  unfolding holds_def
  by (rule assms [unfolded on_more_def, rule_format]; cases s; simp)+

lemma on_more_True [simp]: "on_more (\<lambda>_. True)"
  by (simp add: on_more_def)

lemma holds_True [simp]: "holds (\<lambda>_. True) s"
  by (simp add: holds_def)

lemmas entries_defs = session_map.entries_ok_def stream_map.entries_ok_def
  probe_map.entries_ok_def circuit_map.entries_ok_def secure_map.entries_ok_def

lemma relay_inv_init: "relay_inv L NewRelayMsgManager"
  by (simp add: relay_inv_def NewRelayMsgManager_def entries_defs)

lemma relay_ok_frame [simp]:
  "relay_ok L K P (s\<lparr>tr := t\<rparr>) = relay_ok L K P s"
  "relay_ok L K P (s\<lparr>TaskMap := m\<rparr>) = relay_ok L K P s"
  "relay_ok L K P (s\<lparr>ackMail := q\<rparr>) = relay_ok L K P s"
  "relay_ok L K P (s\<lparr>next_chan := n\<rparr>) = relay_ok L K P s"
  "relay_ok L K P (s\<lparr>jobs := j\<rparr>) = relay_ok L K P s"
  by (simp_all add: relay_ok_def relay_inv_def entries_defs cong: conj_cong)

lemma relay_ok_trace [keeps_intros]: "ignores_trace (relay_ok L K P)"
  by (simp add: ignores_trace_def)

lemma relay_ok_session:
  "relay_ok L K P s \<Longrightarrow> sessionMap s k = Some sess \<Longrightarrow> session_ok k sess"
  by (simp add: relay_ok_def relay_inv_def session_map.entries_ok_def)

lemma relay_ok_stream: "relay_ok L K P s \<Longrightarrow> streamMap s k = Some v \<Longrightarrow> StreamId (si_stream v) = k"
  by (simp add: relay_ok_def relay_inv_def stream_map.entries_ok_def stream_ok_def)

lemma relay_ok_circuit: "relay_ok L K P s \<Longrightarrow> circuitConnMap s k = Some a \<Longrightarrow> conn_is (conns s) a k"
  by (simp add: relay_ok_def relay_inv_def circuit_map.entries_ok_def)

lemma relay_ok_secure: "relay_ok L K P s \<Longrightarrow> secureConnMap s k = Some sc \<Longrightarrow> secure_ok L (conns s) k sc"
  by (simp add: relay_ok_def relay_inv_def secure_map.entries_ok_def)

text \<open>Each change of a table keeps the invariant.\<close>

lemma relay_ok_store_session:
  "relay_ok L K P s \<Longrightarrow> session_ok k v \<Longrightarrow> relay_ok L K P (store_session k v s)"
  by (auto simp: relay_ok_def relay_inv_def store_session_def entries_defs)

lemma keeps_store_session [keeps_intros]:
  "session_ok k v \<Longrightarrow> keeps (relay_ok L K P) (modify (store_session k v))"
  by (rule keeps_modify) (rule relay_ok_store_session)

lemma keeps_store_stream [keeps_intros]:
  "StreamId (si_stream v) = k \<Longrightarrow> keeps (relay_ok L K P) (modify (store_stream k v))"
  by (rule keeps_modify)
    (auto simp: relay_ok_def relay_inv_def store_stream_def entries_defs stream_ok_def)

lemma keeps_store_probe [keeps_intros]:
  "probe_SessionId v = k \<Longrightarrow> keeps (relay_ok L K P) (modify (store_probe k v))"
  by (rule keeps_modify)
    (auto simp: relay_ok_def relay_inv_def store_probe_def entries_defs probe_ok_def)

lemma keeps_deletes [keeps_intros]:
  "keeps (relay_ok L K P) (modify (delete_session k))"
  "keeps (relay_ok L K P) (modify (delete_stream k))"
  "keeps (relay_ok L K P) (modify (delete_probe k))"
  "keeps (relay_ok L K P) (modify (delete_circuit k))"
  "keeps (relay_ok L K P) (modify (delete_secure k))"
  by (rule keeps_modify, auto simp: relay_ok_def relay_inv_def table_defs entries_defs)+

text \<open>Connections may be added, and changed except for their session and remote identity.\<close>

definition conns_extend :: "circuit_conn list \<Rightarrow> circuit_conn list \<Rightarrow> bool" where
  "conns_extend cs ds = (\<forall>a < length cs. a < length ds \<and>
     conn_sessionId (ds ! a) = conn_sessionId (cs ! a) \<and>
     remoteWhiteNoiseId (ds ! a) = remoteWhiteNoiseId (cs ! a))"

lemma conns_extend_append [simp]: "conns_extend cs (cs @ ds)"
  by (simp add: conns_extend_def nth_append)

lemma conns_extend_update [simp]:
  "conn_sessionId c = conn_sessionId (cs ! a) \<Longrightarrow> remoteWhiteNoiseId c = remoteWhiteNoiseId (cs ! a) \<Longrightarrow>
   conns_extend cs (cs[a := c])"
  by (cases "a < length cs") (auto simp: conns_extend_def nth_list_update)

lemma conn_is_extend: "conns_extend cs ds \<Longrightarrow> conn_is cs a k \<Longrightarrow> conn_is ds a k"
  by (simp add: conns_extend_def conn_is_def)

lemma secure_ok_extend: "conns_extend cs ds \<Longrightarrow> secure_ok L cs k sc \<Longrightarrow> secure_ok L ds k sc"
  by (simp add: conns_extend_def secure_ok_def conn_is_def)

lemma conns_have_extend: "conns_extend cs ds \<Longrightarrow> conns_have K cs \<Longrightarrow> conns_have K ds"
  by (auto simp: conns_extend_def conns_have_def conn_is_def)

lemma relay_ok_extend:
  "relay_ok L K P s \<Longrightarrow> conns_extend (conns s) ds \<Longrightarrow> relay_ok L K P (s\<lparr>conns := ds\<rparr>)"
  by (auto simp: relay_ok_def relay_inv_def entries_defs
      intro: conn_is_extend secure_ok_extend conns_have_extend)

lemma relay_ok_store_circuit:
  "relay_ok L K P s \<Longrightarrow> conn_is (conns s) a k \<Longrightarrow> relay_ok L K P (store_circuit k a s)"
  by (auto simp: relay_ok_def relay_inv_def store_circuit_def entries_defs)

lemma relay_ok_store_secure:
  "relay_ok L K P s \<Longrightarrow> secure_ok L (conns s) k sc \<Longrightarrow> relay_ok L K P (store_secure k sc s)"
  by (auto simp: relay_ok_def relay_inv_def store_secure_def entries_defs)

lemma relay_ok_set_buffer: "relay_ok L K P s \<Longrightarrow> relay_ok L K P (set_buffer a b s)"
  by (simp add: set_buffer_def relay_ok_extend)

lemma conns_have_insert [simp]:
  "conns_have (insert (a, k, rid) K) cs \<longleftrightarrow>
     conn_is cs a k \<and> remoteWhiteNoiseId (cs ! a) = rid \<and> conns_have K cs"
  by (simp add: conns_have_def)

section \<open>The operations keep the invariant\<close>

lemma keeps_make_chan [keeps_intros]: "keeps (relay_ok L K P) make_chan"
  unfolding make_chan_def by (intro keeps_intros) simp

lemma keeps_RequestAck [keeps_intros]: "keeps (relay_ok L K P) (RequestAck m)"
  unfolding RequestAck_def by (intro keeps_intros) simp

lemma keeps_spawn [keeps_intros]: "keeps (relay_ok L K P) (spawn j)"
  unfolding spawn_def by (intro keeps_intros) simp

lemma keeps_await: "await_ok L P E \<Longrightarrow> keeps (relay_ok L K P) (await E i)"
  by (simp add: await_ok_def)

lemma keeps_buf_wait: "wait_ok L P E \<Longrightarrow> keeps (relay_ok L K P) (buf_wait E a)"
  by (simp add: wait_ok_def)

lemma keeps_circuit_Close [keeps_intros]: "keeps (relay_ok L K P) (circuit_Close a)"
  unfolding circuit_Close_def by (intro keeps_intros)

lemma keeps_close_streams [keeps_intros]: "keeps (relay_ok L K P) (close_streams p)"
  by (induction p) (auto intro!: keeps_intros)

lemma RemoveSession_ok [keeps_intros]: "keeps (relay_ok L K P) (RemoveSession sid)"
  unfolding RemoveSession_def by (intro keeps_intros)

text \<open>A circuit connection is made for a session that has none.\<close>

lemma new_circuit_ok:
  "keeps (relay_ok L K P) (NewCircuitConn C Lc sid remote \<bind> (\<lambda>conn. modify (store_circuit sid conn)))"
proof (rule keepsI)
  fix s
  assume ok: "relay_ok L K P s"
  define c where "c = \<lparr>localWhiteNoiseID = GetWhiteNoiseID Lc (cfg_account C),
    remoteWhiteNoiseId = remote, conn_buffer = [], conn_sessionId = sid,
    conn_state = CircuitConnBuilding\<rparr>"
  have "conn_is (conns s @ [c]) (length (conns s)) sid"
    by (simp add: conn_is_def c_def)
  then show "wp (NewCircuitConn C Lc sid remote \<bind> (\<lambda>conn. modify (store_circuit sid conn)))
    (\<lambda>_. relay_ok L K P) s"
    using relay_ok_store_circuit [OF relay_ok_extend [OF ok conns_extend_append, of "[c]"]]
    by (simp add: NewCircuitConn_def c_def)
qed

lemma AddCircuitConnCaller_ok [keeps_intros]:
  "keeps (relay_ok L K P) (AddCircuitConnCaller C Lc sid remote)"
  unfolding AddCircuitConnCaller_def by (intro new_circuit_ok keeps_intros)

lemma AddCircuitConnAnswer_ok [keeps_intros]:
  "keeps (relay_ok L K P) (AddCircuitConnAnswer C Lc sid)"
  unfolding AddCircuitConnAnswer_def by (intro new_circuit_ok keeps_intros)

text \<open>A lookup hands an entry that satisfies the invariant to what follows.\<close>

lemma keeps_GetSession_bind:
  fixes f :: "_ \<Rightarrow> ('a relay_state_scheme, 'b) state"
  assumes "\<And>sess. session_ok i sess \<Longrightarrow> keeps (relay_ok L K P) (f (sess, True))"
    and "keeps (relay_ok L K P) (f (zero_session, False))"
  shows "keeps (relay_ok L K P) (GetSession i \<bind> f)"
  unfolding GetSession_def
proof (rule keeps_gets_bind)
  fix s :: "'a relay_state_scheme"
  assume ok: "relay_ok L K P s"
  show "wp (f (case sessionMap s i of None \<Rightarrow> (zero_session, False) | Some sess \<Rightarrow> (sess, True)))
    (\<lambda>_. relay_ok L K P) s"
    using assms(2) assms(1) [OF relay_ok_session [OF ok]] ok
    by (cases "sessionMap s i") (auto dest: keepsD)
qed

lemma keeps_GetStream_bind:
  fixes f :: "_ \<Rightarrow> ('a relay_state_scheme, 'b) state"
  assumes "\<And>v. StreamId (si_stream v) = i \<Longrightarrow> keeps (relay_ok L K P) (f (Some v))"
    and "keeps (relay_ok L K P) (f None)"
  shows "keeps (relay_ok L K P) (GetStream i \<bind> f)"
  unfolding GetStream_def
proof (rule keeps_gets_bind)
  fix s :: "'a relay_state_scheme"
  assume ok: "relay_ok L K P s"
  show "wp (f (streamMap s i)) (\<lambda>_. relay_ok L K P) s"
    using assms(2) assms(1) [OF relay_ok_stream [OF ok]] ok
    by (cases "streamMap s i") (auto dest: keepsD)
qed

lemma keeps_GetSession [keeps_intros]: "keeps (relay_ok L K P) (GetSession i)"
  unfolding GetSession_def by (intro keeps_intros)

lemma mgr_AddStream_ok [keeps_intros]: "keeps (relay_ok L K P) (mgr_AddStream st)"
  unfolding mgr_AddStream_def by (intro keeps_intros) simp

lemma AddStreamSessionID_ok [keeps_intros]: "keeps (relay_ok L K P) (AddStreamSessionID i sid)"
  unfolding AddStreamSessionID_def GetStream_def [symmetric]
  by (rule keeps_GetStream_bind) (auto intro!: keeps_intros)

lemma AddSessionId_ok [keeps_intros]: "session_ok i sess \<Longrightarrow> keeps (relay_ok L K P) (AddSessionId i sess)"
  unfolding AddSessionId_def by (intro keeps_intros)

lemma DeleteStream_ok [keeps_intros]: "keeps (relay_ok L K P) (DeleteStream i)"
  unfolding DeleteStream_def by (intro keeps_intros)

lemma session_ok_Role [simp]: "session_ok i (sess\<lparr>Role := r\<rparr>) = session_ok i sess"
  by (simp add: session_ok_def)

lemma SetRole_ok: "keeps (relay_ok L K P) (SetRole sid r)"
  unfolding SetRole_def
  by (auto intro!: keeps_gets_bind relay_ok_store_session split: option.split)
    (erule (1) relay_ok_session)

lemma send_pair_ok [keeps_intros]: "keeps (relay_ok L K P) (send_pair E d p)"
  by (induction p) (auto intro!: keeps_intros)

lemma forward_pair_ok [keeps_intros]: "keeps (relay_ok L K P) (forward_pair E d from p)"
  by (induction p) (auto intro!: keeps_intros)

lemma disconnect_pair_ok [keeps_intros]: "keeps (relay_ok L K P) (disconnect_pair E d p)"
  by (induction p) (auto intro!: keeps_intros)

lemma SendDisconnectRelay_ok [keeps_intros]: "keeps (relay_ok L K P) (SendDisconnectRelay E Lc sid)"
  unfolding SendDisconnectRelay_def by (intro keeps_intros)

lemma CloseCircuit_ok [keeps_intros]: "keeps (relay_ok L K P) (CloseCircuit E Lc sid)"
  unfolding CloseCircuit_def by (intro keeps_intros)

lemma close_on_error_ok [keeps_intros]: "keeps (relay_ok L K P) (close_on_error E Lc sid err)"
  unfolding close_on_error_def by (intro keeps_intros)

lemma SendRelay_ok [keeps_intros]: "keeps (relay_ok L K P) (SendRelay E Lc sid d)"
  unfolding SendRelay_def by (intro keeps_intros)

lemma ForwardRelay_ok [keeps_intros]: "keeps (relay_ok L K P) (ForwardRelay E Lc sid d from)"
  unfolding ForwardRelay_def by (intro keeps_intros)

lemma handleProbe_ok [keeps_intros]: "keeps (relay_ok L K P) (handleProbe E Lc p)"
  unfolding handleProbe_def by (intro keeps_intros refl)

lemma NewRelayStream_ok [keeps_intros]: "keeps (relay_ok L K P) (NewRelayStream E Lc peer)"
  unfolding NewRelayStream_def by (intro keeps_intros)

lemma session_ok_new [simp]: "session_ok i (AddStream st ((SetSessionID i NewSession)\<lparr>Role := r\<rparr>))"
  by (simp add: session_ok_def SetSessionID_def NewSession_def AddStream_nonempty AddStream_bound)

lemma session_ok_AddStream [simp]: "session_ok i sess \<Longrightarrow> session_ok i (AddStream st sess)"
  by (simp add: session_ok_def AddStream_nonempty AddStream_bound)

lemma SetSessionId_ok [keeps_intros]:
  assumes "await_ok L P E"
  shows "keeps (relay_ok L K P) (SetSessionId E Lc sid i r1 r2)"
  unfolding SetSessionId_def Let_def
  by (intro keeps_GetStream_bind keeps_GetSession_bind keeps_await [OF assms] keeps_intros)
    (auto intro!: keeps_intros)

lemma NewSessionToPeer_ok [keeps_intros]:
  "await_ok L P E \<Longrightarrow> keeps (relay_ok L K P) (NewSessionToPeer E Lc peer sid r1 r2)"
  unfolding NewSessionToPeer_def by (intro keeps_intros)

section \<open>Connections keep the invariant\<close>

lemma circuit_Write_ok [keeps_intros]: "keeps (relay_ok L K P) (circuit_Write E Lc a b)"
  unfolding circuit_Write_def by (intro keeps_intros)

lemma InboundMsg_ok [keeps_intros]: "keeps (relay_ok L K P) (InboundMsg a b)"
  unfolding InboundMsg_def by (intro keeps_intros relay_ok_set_buffer)

lemma circuit_Read_ok: "wait_ok L P E \<Longrightarrow> keeps (relay_ok L K P) (circuit_Read E a n)"
  unfolding circuit_Read_def SafeBuffer_Read_def
  by (intro keeps_intros relay_ok_set_buffer keeps_buf_wait)

lemma ReadFull_keeps: "(\<And>n. keeps I (rd n)) \<Longrightarrow> keeps I (ReadFull fuel rd n acc)"
  by (induction fuel arbitrary: acc) (auto intro!: keeps_intros)

lemma circuit_ReadFull_ok: "wait_ok L P E \<Longrightarrow> keeps (relay_ok L K P) (ic_ReadFull (circuit_conn_io E Lc a) n)"
  by (simp add: circuit_conn_io_def del: ReadFull.simps) (intro ReadFull_keeps circuit_Read_ok)

text \<open>A handshake does to its connection what the methods of the connection do.\<close>

definition conn_keeps :: "('s \<Rightarrow> bool) \<Rightarrow> 's insecure_conn \<Rightarrow> bool" where
  "conn_keeps I conn = ((\<forall>n. keeps I (ic_ReadFull conn n)) \<and> (\<forall>b. keeps I (ic_Write conn b)) \<and>
     keeps I (ic_Close conn))"

lemma conn_keepsD:
  assumes "conn_keeps I conn"
  shows "keeps I (ic_ReadFull conn n)" "keeps I (ic_Write conn b)" "keeps I (ic_Close conn)"
  using assms by (simp_all add: conn_keeps_def)

lemma sendHandshakeMessage_keeps:
  "conn_keeps I conn \<Longrightarrow> keeps I (sendHandshakeMessage L conn hs p ss)"
  unfolding sendHandshakeMessage_def by (intro keeps_intros conn_keepsD(2))

lemma readHandshakeMessage_keeps:
  "conn_keeps I conn \<Longrightarrow> keeps I (readHandshakeMessage L conn hs ss)"
  unfolding readHandshakeMessage_def readNextInsecureMsgLen_def readNextMsgInsecure_def
  by (intro keeps_intros conn_keepsD(1))

lemma runHandshake_keeps: "conn_keeps I conn \<Longrightarrow> keeps I (runHandshake L conn kp ss)"
  unfolding runHandshake_def initiatorHandshake_def responderHandshake_def
  by (intro keeps_intros sendHandshakeMessage_keeps readHandshakeMessage_keeps)

lemma NewSecureSession_keeps:
  "conn_keeps I conn \<Longrightarrow> keeps I (NewSecureSession L conn kp ce lid key rem init)"
  unfolding NewSecureSession_def Let_def by (intro keeps_intros runHandshake_keeps conn_keepsD(3))

lemma circuit_conn_keeps: "wait_ok L P E \<Longrightarrow> conn_keeps (relay_ok L K P) (circuit_conn_io E Lc a)"
  unfolding conn_keeps_def
  by (intro conjI allI circuit_ReadFull_ok)
    (simp_all add: circuit_conn_io_def circuit_Write_ok keeps_circuit_Close)

lemma new_secure_ok: "wait_ok L P E \<Longrightarrow> keeps (relay_ok L K P) (new_secure E C Lc a rem init)"
  unfolding new_secure_def by (intro keeps_intros NewSecureSession_keeps circuit_conn_keeps)

text \<open>What a handshake returns without an error, and that it is filed under the invariant.\<close>

definition checked :: "'l crypto_lib_scheme \<Rightarrow> bool \<Rightarrow> peer_id \<Rightarrow> secure_session \<Rightarrow> bool" where
  "checked L init remote ss =
     (authentic L ss \<and> initiator ss = init \<and> (init \<longrightarrow> remoteID ss = remote))"

lemma new_secure_checked:
  "yields (\<lambda>r. \<forall>ss. r = Returns (Some ss, None) \<longrightarrow> checked L init remote ss)
     (new_secure E C L a remote init)"
  unfolding new_secure_def checked_def
  by (intro yields_bind [OF yields_any [where P = "\<lambda>_. True"]] NewSecureSession_authentic TrueI)

lemma file_secure_ok:
  assumes ok: "relay_ok L (insert (a, sid, rid) K) P s"
    and r: "\<And>ss. r = (Some ss, None) \<Longrightarrow> checked L init remote ss"
    and init: "init \<Longrightarrow> GetPeerID L rid = Inr remote"
  shows "wp (file_secure a topic r) (\<lambda>_. relay_ok L K P) s"
proof -
  from ok have K: "relay_ok L K P s" "conn_is (conns s) a sid" "remoteWhiteNoiseId (conns s ! a) = rid"
    by (auto simp: relay_ok_def)
  then have "conn_sessionId (conns s ! a) = sid" by (simp add: conn_is_def)
  moreover have "secure_ok L (conns s) sid \<lparr>sc_conn = a, sc_session = ss\<rparr>" if "r = (Some ss, None)" for ss
    using K r [OF that] init by (auto simp: secure_ok_def checked_def)
  ultimately show ?thesis using K(1)
    by (auto simp: file_secure_def wp_simps relay_ok_store_secure split: prod.split option.split)
qed

lemma open_secure_ok:
  assumes wait: "wait_ok L P E" and ok: "relay_ok L K P s" and a: "conn_is (conns s) a sid"
    and init: "init \<Longrightarrow> GetPeerID L (remoteWhiteNoiseId (conns s ! a)) = Inr remote"
  shows "wp (obind (new_secure E C L a remote init) (file_secure a topic)) (\<lambda>_. relay_ok L K P) s"
proof -
  let ?K = "insert (a, sid, remoteWhiteNoiseId (conns s ! a)) K"
  have "relay_ok L ?K P s" using ok a by (simp add: relay_ok_def)
  note run = wp_yields_keeps [OF new_secure_checked [where init = init] new_secure_ok [OF wait] this]
  show ?thesis
    by (rule wp_obind_step [OF run])
      (auto split: outcome.split simp: relay_ok_def intro!: file_secure_ok init dest: init)
qed

lemma NewSecureConnCaller_ok:
  assumes "wait_ok L P E" and "relay_ok L K P s" and "conn_is (conns s) a sid"
  shows "wp (NewSecureConnCaller E C L a) (\<lambda>_. relay_ok L K P) s"
  using assms
  by (auto simp: NewSecureConnCaller_def split: option.split sum.split intro!: open_secure_ok)

lemma NewSecureConnAnswer_ok:
  assumes "wait_ok L P E" and "relay_ok L K P s" and "conn_is (conns s) a sid"
  shows "wp (NewSecureConnAnswer E C L a) (\<lambda>_. relay_ok L K P) s"
  using assms
  by (auto simp: NewSecureConnAnswer_def split: option.split intro!: open_secure_ok)

section \<open>What closing and sending do\<close>

text \<open>
  The specification of \<open>RemoveSession\<close>: the session leaves the four tables, its connections are
  cancelled and its streams closed, and nothing else changes.
\<close>

definition cancels :: "string \<Rightarrow> 'a relay_state_scheme \<Rightarrow> effect list" where
  "cancels sid s =
     (case secureConnMap s sid of None \<Rightarrow> []
      | Some sc \<Rightarrow> [ECancelCircuit (conn_sessionId (conns s ! sc_conn sc))]) @
     (case circuitConnMap s sid of None \<Rightarrow> []
      | Some a \<Rightarrow> [ECancelCircuit (conn_sessionId (conns s ! a))])"

definition closes :: "string \<Rightarrow> 'a relay_state_scheme \<Rightarrow> effect list" where
  "closes sid s = (case sessionMap s sid of None \<Rightarrow> []
     | Some sess \<Rightarrow> map (\<lambda>st. ECloseStream (StreamId st)) (Pair sess))"

definition removed :: "string \<Rightarrow> 'a relay_state_scheme \<Rightarrow> 'a relay_state_scheme" where
  "removed sid s = s\<lparr>tr := tr s @ cancels sid s @ closes sid s,
     circuitConnMap := (circuitConnMap s)(sid := None),
     secureConnMap := (secureConnMap s)(sid := None),
     sessionMap := (sessionMap s)(sid := None),
     probeMap := (probeMap s)(sid := None)\<rparr>"

definition gone :: "string \<Rightarrow> 'a relay_state_scheme \<Rightarrow> bool" where
  "gone sid s = (circuitConnMap s sid = None \<and> secureConnMap s sid = None \<and>
     sessionMap s sid = None \<and> probeMap s sid = None)"

lemma wp_close_streams [wp_simps]:
  "wp (close_streams p) Q s = Q () (s\<lparr>tr := tr s @ map (\<lambda>st. ECloseStream (StreamId st)) p\<rparr>)"
  by (induction p arbitrary: s) (simp_all add: wp_simps)

lemma fun_upd_absent: "f k = None \<Longrightarrow> f(k := None) = f"
  by auto

lemma wp_RemoveSession [wp_simps]: "wp (RemoveSession sid) Q = (\<lambda>s. Q () (removed sid s))"
  by (rule ext, case_tac s) (simp add: RemoveSession_def wp_simps circuit_Close_def removed_def cancels_def
      closes_def table_defs fun_upd_absent split: option.split)

lemma gone_removed [simp]: "gone sid (removed sid s)"
  by (simp add: gone_def removed_def)

lemma gone_session: "gone sid s \<Longrightarrow> sessionMap s sid = None"
  by (simp add: gone_def)

lemma removed_gone: "gone sid s \<Longrightarrow> removed sid s = s"
  by (simp add: gone_def removed_def cancels_def closes_def fun_upd_absent)

text \<open>Writing to the streams of a session, one after the other.\<close>

fun notices :: "('s, 'e) env_scheme \<Rightarrow> bytes \<Rightarrow> effect list \<Rightarrow> wn_stream list \<Rightarrow> effect list" where
  "notices E d t [] = []"
| "notices E d t (st # rest) =
     (let e = (case write_res E t (StreamId st) d of
                 None \<Rightarrow> EWrite (StreamId st) d | Some _ \<Rightarrow> EWriteErr (StreamId st) d)
      in e # notices E d (t @ [e]) rest)"

lemma wp_disconnect_pair [wp_simps]:
  "wp (disconnect_pair E d p) Q s = Q () (s\<lparr>tr := tr s @ notices E d (tr s) p\<rparr>)"
  by (induction p arbitrary: s) (simp_all add: wp_simps Let_def split: option.split)

lemma notices_length [simp]: "length (notices E d t p) = length p"
  by (induction p arbitrary: t) (simp_all add: Let_def)

lemma notices_nth:
  "k < length p \<Longrightarrow> notices E d t p ! k \<in> {EWrite (StreamId (p ! k)) d, EWriteErr (StreamId (p ! k)) d}"
proof (induction p arbitrary: t k)
  case (Cons st p)
  then show ?case by (cases k) (auto simp: Let_def split: option.split)
qed simp

text \<open>
  \<open>CloseCircuit\<close> tells every stream of the session, in order, and then removes the session; a
  stream that cannot be written to does not stop it.
\<close>

lemma wp_CloseCircuit:
  assumes "sessionMap s sid = Some sess" and "Pair sess \<noteq> []" and "NewDisconnect L sid = (d, None)"
  shows "wp (CloseCircuit E L sid) Q s =
    Q None (removed sid (s\<lparr>tr := tr s @ notices E d (tr s) (Pair sess)\<rparr>))"
  using assms by (simp add: CloseCircuit_def SendDisconnectRelay_def GetSession_def GetPair_def wp_simps)

lemma CloseCircuit_gone: "wp (CloseCircuit E L sid) (\<lambda>_ t. gone sid t) s"
  by (simp add: CloseCircuit_def wp_simps split: option.split)

lemma CloseCircuit_absent:
  "sessionMap s sid = None \<Longrightarrow> wp (CloseCircuit E L sid) Q s = Q (Some ''no such session'') (removed sid s)"
  by (simp add: CloseCircuit_def wp_simps)

lemma send_pair_spec:
  "wp (send_pair E d p) (\<lambda>r t. r = None \<longrightarrow>
     t = s\<lparr>tr := tr s @ map (\<lambda>st. EWrite (StreamId st) d) p\<rparr>) s"
proof (induction p arbitrary: s)
  case (Cons st p)
  then show ?case
    by (auto simp: wp_simps split: option.split intro: wp_mono [OF Cons.IH])
qed simp

lemma SendRelay_spec:
  "wp (SendRelay E L sid d) (\<lambda>r t.
     (r = None \<longrightarrow> (\<exists>sess. sessionMap s sid = Some sess \<and> Pair sess \<noteq> [] \<and>
        t = s\<lparr>tr := tr s @ map (\<lambda>st. EWrite (StreamId st) d) (Pair sess)\<rparr>)) \<and>
     (r \<noteq> None \<longrightarrow> gone sid t)) s"
proof (cases "sessionMap s sid")
  case None
  then show ?thesis
    by (simp add: SendRelay_def GetSession_def close_on_error_def wp_simps CloseCircuit_gone)
next
  case (Some sess)
  have "wp (close_on_error E L sid r) (\<lambda>r' t'. r' = r \<and> (r = None \<longrightarrow> t' = t) \<and> (r \<noteq> None \<longrightarrow> gone sid t')) t"
    for r and t :: "'a relay_state_scheme"
    by (cases r) (simp_all add: close_on_error_def CloseCircuit_gone)
  note close = this
  show ?thesis
    unfolding SendRelay_def GetSession_def
    by (auto simp: Some wp_simps GetPair_def intro!: wp_mono [OF close] wp_mono [OF send_pair_spec])
qed

text \<open>Two calls: the second finds nothing and changes nothing.\<close>

lemma CloseCircuit_twice:
  "wp (CloseCircuit E L sid) (\<lambda>_ t. wp (CloseCircuit E L sid) (\<lambda>r u.
     r = Some ''no such session'' \<and> u = t) t) s"
  by (rule wp_mono [OF CloseCircuit_gone]) (simp add: CloseCircuit_absent gone_session removed_gone)

section \<open>Circuits as byte streams\<close>

text \<open>
  While there are enough bytes in the buffer, reading takes them from it, does not wait and changes
  nothing else.
\<close>

lemma circuit_ReadFull_pending:
  assumes "n \<le> length (get_buffer a s)"
  shows "wp (ic_ReadFull (circuit_conn_io E L a) n) (\<lambda>r t. r = Returns (take n (get_buffer a s), None) \<and>
    get_buffer a t = drop n (get_buffer a s) \<and> t = s\<lparr>conns := conns t\<rparr>) s"
proof (cases "conn_exists a s")
  case True
  then show ?thesis
    using assms conn_cell.ReadFull_present [OF True, of n "[]" "Suc n" "buf_wait E a"]
    unfolding circuit_conn_io_def circuit_Read_def
    by (auto elim!: wp_mono simp: set_buffer_def)
next
  case False
  then show ?thesis
    using assms conn_cell.absent [OF False] by (simp add: circuit_conn_io_def ReadFull_end_def)
qed

interpretation circuit_source:
  byte_source "ic_ReadFull (circuit_conn_io E L a)" "get_buffer a"
  by unfold_locales (auto intro: wp_mono [OF circuit_ReadFull_pending])

definition only_read :: "nat \<Rightarrow> 'a relay_state_scheme \<Rightarrow> 'a relay_state_scheme \<Rightarrow> bytes \<Rightarrow> bool" where
  "only_read a z s p = (get_buffer a s = p \<and> s = z\<lparr>conns := conns s\<rparr>)"

interpretation quiet_circuit:
  byte_stream "ic_ReadFull (circuit_conn_io E L a)" "only_read a z"
proof
  fix s p n
  assume "only_read a z s p" and n: "n \<le> length p"
  then obtain c where "get_buffer a s = p" "s = z\<lparr>conns := c\<rparr>" by (auto simp: only_read_def)
  with n show "wp (ic_ReadFull (circuit_conn_io E L a) n) (\<lambda>r t. r = Returns (take n p, None) \<and>
      only_read a z t (drop n p)) s"
    by (auto simp: only_read_def intro!: wp_mono [OF circuit_ReadFull_pending])
qed

text \<open>A secure session over a circuit is a stream of its own, of the plaintext.\<close>

interpretation secure_source:
  byte_stream "secure_ReadFull L (circuit_conn_io E L a)"
    "\<lambda>(s, ss). byte_stream.secure_seen (only_read a z) L s ss"
  by unfold_locales (auto intro: wp_mono [OF quiet_circuit.secure_ReadFull_view [OF refl]])

text \<open>
  What was written to a stream, in order, and the payload of a relay message for a session.
  \<open>marshals\<close> is the documented behaviour of protobuf for the two message types involved:
  marshalling succeeds and unmarshalling returns the message.
\<close>

definition wire :: "string \<Rightarrow> effect list \<Rightarrow> bytes list" where
  "wire i t = map snd (filter (\<lambda>(j, b). j = i) (writes t))"

definition data_msg :: "'l lib_scheme \<Rightarrow> string \<Rightarrow> bytes \<Rightarrow> bool" where
  "data_msg L sid b =
     (case Unmarshal (pb_Relay L) b of (relay, err) \<Rightarrow> err = None \<and> relay_Type relay = Relaytype_Data \<and>
        (case Unmarshal (pb_RelayMsg L) (relay_Data relay) of (m, err) \<Rightarrow>
           err = None \<and> rm_SessionId m = sid))"

definition payload :: "'l lib_scheme \<Rightarrow> bytes \<Rightarrow> bytes" where
  "payload L b = rm_Data (fst (Unmarshal (pb_RelayMsg L) (relay_Data (fst (Unmarshal (pb_Relay L) b)))))"

definition marshals :: "'m codec \<Rightarrow> bool" where
  "marshals c = (codec_ok c \<and> (\<forall>m. snd (Marshal c m) = None))"

lemma data_msg_NewRelayMsg:
  assumes "marshals (pb_Relay L)" "marshals (pb_RelayMsg L)"
  shows "data_msg L sid (NewRelayMsg L d sid)" and "payload L (NewRelayMsg L d sid) = d"
proof -
  obtain m where m: "Marshal (pb_RelayMsg L) \<lparr>rm_SessionId = sid, rm_Data = d\<rparr> = (m, None)"
    using assms(2) unfolding marshals_def by (metis prod.collapse)
  obtain b where b: "Marshal (pb_Relay L) (sealed_relay L Relaytype_Data m) = (b, None)"
    using assms(1) unfolding marshals_def by (metis prod.collapse)
  show "data_msg L sid (NewRelayMsg L d sid)" "payload L (NewRelayMsg L d sid) = d"
    using NewRelayMsg_unmarshal [OF _ _ m b] assms
    by (simp_all add: marshals_def data_msg_def payload_def)
qed

text \<open>
  The end of a circuit has one stream, to its proxy. \<open>carries L sid i k t\<close>: from its \<open>k\<close>-th message on,
  the stream \<open>i\<close> got data messages of the session and nothing else; \<open>payloads\<close> is what they carry.
\<close>

definition one_stream :: "'l lib_scheme \<Rightarrow> nat \<Rightarrow> string \<Rightarrow> string \<Rightarrow> 'a relay_state_scheme \<Rightarrow> bool" where
  "one_stream L a sid i s =
     (marshals (pb_Relay L) \<and> marshals (pb_RelayMsg L) \<and> conn_is (conns s) a sid \<and>
      (\<exists>sess st. sessionMap s sid = Some sess \<and> Pair sess = [st] \<and> StreamId st = i))"

definition carries :: "'l lib_scheme \<Rightarrow> string \<Rightarrow> string \<Rightarrow> nat \<Rightarrow> effect list \<Rightarrow> bool" where
  "carries L sid i k t = (k \<le> length (wire i t) \<and> list_all (data_msg L sid) (drop k (wire i t)))"

definition payloads :: "'l lib_scheme \<Rightarrow> string \<Rightarrow> nat \<Rightarrow> effect list \<Rightarrow> bytes" where
  "payloads L i k t = concat (map (payload L) (drop k (wire i t)))"

lemma wire_append [simp]:
  "wire i (t @ [EWrite j b]) = wire i t @ (if j = i then [b] else [])"
  by (simp add: wire_def)

lemma wire_writes: "wire i (t @ map (EWrite i) bs) = wire i t @ bs"
  by (induction bs arbitrary: t) (simp_all add: wire_def)

interpretation circuit_sink:
  byte_sink "circuit_Write E L a" "\<lambda>s. payloads L i k (tr s)"
    "\<lambda>s. one_stream L a sid i s \<and> carries L sid i k (tr s)"
proof
  fix s :: "'a relay_state_scheme" and d
  assume s: "one_stream L a sid i s \<and> carries L sid i k (tr s)"
  then have k: "conn_sessionId (conns s ! a) = sid" by (simp add: one_stream_def conn_is_def)
  from s have "data_msg L sid (NewRelayMsg L d sid)" "payload L (NewRelayMsg L d sid) = d"
    by (simp_all add: one_stream_def data_msg_NewRelayMsg)
  with s show "wp (circuit_Write E L a d) (\<lambda>r t. snd r = None \<longrightarrow>
      (one_stream L a sid i t \<and> carries L sid i k (tr t)) \<and>
      payloads L i k (tr t) = payloads L i k (tr s) @ d) s"
    unfolding circuit_Write_def
    by (auto simp: k one_stream_def carries_def payloads_def intro!: wp_mono [OF SendRelay_spec])
qed

text \<open>When no write fails, neither does a write to the circuit.\<close>

lemma circuit_Write_run:
  assumes "one_stream L a sid i s" and "\<And>t j b. write_res E t j b = None"
  shows "run_state (circuit_Write E L a d) s =
    ((length d, None), s\<lparr>tr := tr s @ [EWrite i (NewRelayMsg L d sid)]\<rparr>)"
proof -
  from assms(1) obtain sess st where e: "sessionMap s sid = Some sess" "Pair sess = [st]" "StreamId st = i"
      "conn_sessionId (conns s ! a) = sid"
    by (auto simp: one_stream_def conn_is_def)
  have "wp (circuit_Write E L a d) (\<lambda>r t. (r, t) = ((length d, None), s\<lparr>tr := tr s @ [EWrite i (NewRelayMsg L d sid)]\<rparr>)) s"
    by (simp add: circuit_Write_def SendRelay_def GetSession_def GetPair_def close_on_error_def wp_simps e assms(2))
  then show ?thesis by (simp add: wp_run prod_eq_iff)
qed

definition only_wrote ::
  "('a relay_state_scheme, 'e) env_scheme \<Rightarrow> 'l lib_scheme \<Rightarrow> nat \<Rightarrow> string \<Rightarrow> string \<Rightarrow> nat \<Rightarrow>
   'a relay_state_scheme \<Rightarrow> 'a relay_state_scheme \<Rightarrow> bool" where
  "only_wrote E L a sid i k z s = (one_stream L a sid i s \<and> carries L sid i k (tr s) \<and>
     (\<forall>t j b. write_res E t j b = None) \<and> s = z\<lparr>tr := tr s\<rparr>)"

interpretation circuit_open:
  open_sink "circuit_Write E L a" "\<lambda>s. payloads L i k (tr s)" "only_wrote E L a sid i k z"
proof
  fix s :: "'a relay_state_scheme" and d
  assume s: "only_wrote E L a sid i k z s"
  then have run: "run_state (circuit_Write E L a d) s =
      ((length d, None), s\<lparr>tr := tr s @ [EWrite i (NewRelayMsg L d sid)]\<rparr>)"
    by (intro circuit_Write_run) (auto simp: only_wrote_def)
  then show "wp (circuit_Write E L a d) (\<lambda>r t. snd r = None) s" by (simp add: wp_def)
  have "only_wrote E L a sid i k z (s\<lparr>tr := tr s @ x\<rparr>)"
    if "one_stream L a sid i (s\<lparr>tr := tr s @ x\<rparr>)" "carries L sid i k (tr s @ x)" for x
    using s that unfolding only_wrote_def by (cases s; cases z) simp
  with run s circuit_sink.write_sent [of L a sid i s k E d]
  show "wp (circuit_Write E L a d) (\<lambda>r t. snd r = None \<longrightarrow>
      only_wrote E L a sid i k z t \<and> payloads L i k (tr t) = payloads L i k (tr s) @ d) s"
    by (simp add: wp_def only_wrote_def [of E L a sid i k z s])
qed

section \<open>Properties\<close>



text \<open>
  C12: closing a circuit writes the disconnect message to every stream of the session, in order and
  whether or not earlier writes failed, then cancels its connections, closes its streams and takes
  the session out of the four tables; all else stays. A second call finds nothing and changes
  nothing.
\<close>

theorem close_circuit_complete:
  assumes "sessionMap s sid = Some sess" and "Pair sess \<noteq> []" and "NewDisconnect L sid = (d, None)"
  shows "run_state (CloseCircuit E L sid) s =
      (None, removed sid (s\<lparr>tr := tr s @ notices E d (tr s) (Pair sess)\<rparr>)) \<and>
    length (notices E d (tr s) (Pair sess)) = length (Pair sess) \<and>
    (\<forall>k < length (Pair sess). notices E d (tr s) (Pair sess) ! k \<in>
       {EWrite (StreamId (Pair sess ! k)) d, EWriteErr (StreamId (Pair sess ! k)) d}) \<and>
    wp (CloseCircuit E L sid) (\<lambda>_ t. run_state (CloseCircuit E L sid) t = (Some ''no such session'', t)) s"
proof -
  have "run_state (CloseCircuit E L sid) s =
      (None, removed sid (s\<lparr>tr := tr s @ notices E d (tr s) (Pair sess)\<rparr>))"
    using wp_CloseCircuit [OF assms, of E "\<lambda>r t. (r, t) = run_state (CloseCircuit E L sid) s"]
    by (simp add: wp_run)
  moreover have "wp (CloseCircuit E L sid) (\<lambda>_ t. run_state (CloseCircuit E L sid) t =
      (Some ''no such session'', t)) s"
    by (rule wp_mono [OF CloseCircuit_twice]) (auto simp: wp_run prod_eq_iff)
  ultimately show ?thesis
    using notices_nth [where p = "Pair sess" and E = E and d = d and t = "tr s"] by simp
qed


end
