(* ===== verification/WN_Relay.thy ===== *)
theory WN_Relay
  imports WN_Manager
begin

text \<open>
  \<^verbatim>\<open>protocol/relay/relay.go\<close> and \<^verbatim>\<open>actor.go\<close>: what a node does with the relay messages it reads
  from its streams and with the requests other managers send to its relay actor.

  A handler of \<^verbatim>\<open>relay.go\<close> is one computation; \<open>inbound_iter\<close> is one iteration of the loop of
  \<open>RelayInboundHandler\<close> with the result of its \<open>ReadMsg\<close> as an argument. \<open>relay_step\<close> interleaves
  the iterations of all running handlers with the actors and with the calls of the node's own
  client code.
\<close>

section \<open>Handlers\<close>

definition handleSetSession ::
  "('a relay_state_scheme, 'e) env_scheme \<Rightarrow> relay_cfg \<Rightarrow> 'l crypto_lib_scheme \<Rightarrow> relay \<Rightarrow> wn_stream \<Rightarrow>
   ('a relay_state_scheme, goerr option) state" where
  "handleSetSession E C L relay s =
     (let ackMsg = \<lparr>ack_CommandId = relay_Id relay, ack_Result = False, ack_Data = []\<rparr>;
          sendAck = (\<lambda>a. RequestAck (ReqAck a (RemotePeer s)))
      in case Unmarshal (pb_SetSessionIdMsg L) (relay_Data relay) of
           (_, Some err) \<Rightarrow> do {
             sendAck (ackMsg\<lparr>ack_Data := str_bytes (''setSessionIdMsg unmarshall err '' @ err)\<rparr>);
             ret (Some (''setSessionIdMsg unmarshall err '' @ err))
           }
         | (setSession, None) \<Rightarrow>
             (let sid = ssm_SessionId setSession; role = sint (ssm_Role setSession)
              in if cfg_role C = ClientMode \<and> role \<noteq> AnswerRole then do {
                   sendAck (ackMsg\<lparr>ack_Data := str_bytes ''reject''\<rparr>);
                   ret (Some ''reject'')
                 }
                 else do {
                   (if cfg_role C = ClientMode \<and> role = AnswerRole
                    then AddCircuitConnAnswer C L sid else ret ());
                   (sess, ok) \<leftarrow> GetSession sid;
                   (if ok \<and> Role sess = EntryRole \<and> role = RelayRole then
                      (if IsReady sess then
                         (let streamJoin = Pair sess ! 1;
                              disData = fst (NewDisconnect L sid)
                          in do {
                            WriteMsg E streamJoin disData;
                            DeleteStream (StreamId streamJoin);
                            AddSessionId sid (sess\<lparr>Pair := (Pair sess)[1 := s]\<rparr>);
                            mgr_AddStream s;
                            AddStreamSessionID (StreamId s) sid;
                            sendAck (ackMsg\<lparr>ack_Result := True\<rparr>);
                            ret None
                          })
                       else do {
                         CloseCircuit E L sid;
                         ret (Some ''create circuit as entry node failed'')
                       })
                    else
                      (let sess = (if ok then sess else (SetSessionID sid NewSession)\<lparr>Role := role\<rparr>);
                           sess = AddStream s sess
                       in do {
                         AddSessionId sid sess;
                         mgr_AddStream s;
                         AddStreamSessionID (StreamId s) sid;
                         sendAck (ackMsg\<lparr>ack_Result := True\<rparr>);
                         ret None
                       }))
                 }))"

definition handleRelayMsg ::
  "('a relay_state_scheme, 'e) env_scheme \<Rightarrow> 'l lib_scheme \<Rightarrow> relay \<Rightarrow> wn_stream \<Rightarrow> bytes \<Rightarrow>
   ('a relay_state_scheme, goerr option) state" where
  "handleRelayMsg E L relay s data =
     (case Unmarshal (pb_RelayMsg L) (relay_Data relay) of
        (_, Some err) \<Rightarrow> ret (Some err)
      | (relayMsg, None) \<Rightarrow> do {
          (sess, ok) \<leftarrow> GetSession (rm_SessionId relayMsg);
          (if \<not> ok then ret None
           else if Role sess = CallerRole \<or> Role sess = AnswerRole then do {
             c \<leftarrow> GetCircuit (rm_SessionId relayMsg);
             (case c of
                Some c \<Rightarrow> do { InboundMsg c (rm_Data relayMsg); ret None }
              | None \<Rightarrow> ret None)
           }
           else if IsReady sess then
             (case GetPattern sess (StreamId s) of
                Inl err \<Rightarrow> do { CloseCircuit E L (rm_SessionId relayMsg); ret (Some err) }
              | Inr part \<Rightarrow> do {
                  err \<leftarrow> WriteMsg E part data;
                  (case err of
                     Some e \<Rightarrow> do { CloseCircuit E L (rm_SessionId relayMsg); ret (Some e) }
                   | None \<Rightarrow> ret None)
                })
           else ret None)
        })"

definition forward_to_partner ::
  "('a relay_state_scheme, 'e) env_scheme \<Rightarrow> session \<Rightarrow> wn_stream \<Rightarrow> bytes \<Rightarrow>
   ('a relay_state_scheme, goerr option) state" where
  "forward_to_partner E sess s data =
     (case GetPattern sess (StreamId s) of
        Inl err \<Rightarrow> ret (Some err)
      | Inr part \<Rightarrow> WriteMsg E part data)"

definition handleRelayProbe ::
  "('a relay_state_scheme, 'e) env_scheme \<Rightarrow> 'l lib_scheme \<Rightarrow> relay \<Rightarrow> wn_stream \<Rightarrow> bytes \<Rightarrow>
   ('a relay_state_scheme, goerr option) state" where
  "handleRelayProbe E L relay s data =
     (case Unmarshal (pb_ProbeSignal L) (relay_Data relay) of
        (_, Some err) \<Rightarrow> ret (Some err)
      | (probe, None) \<Rightarrow> do {
          (sess, ok) \<leftarrow> GetSession (ps_SessionId probe);
          (if ok \<and> Role sess = JointRole then
             (let sessionProbe = \<lparr>probe_SessionId = ps_SessionId probe, probe_Rand = ps_Data probe\<rparr>
              in do {
                v \<leftarrow> gets (\<lambda>s. probeMap s (probe_SessionId sessionProbe));
                (case v of
                   None \<Rightarrow> do {
                     modify (store_probe (probe_SessionId sessionProbe) sessionProbe);
                     ret None
                   }
                 | Some p \<Rightarrow>
                     (if probe_Rand p = probe_Rand sessionProbe then do {
                        SendRelay E L (probe_SessionId sessionProbe)
                          (NewCircuitSuccess L (probe_SessionId sessionProbe));
                        ret None
                      }
                      else do { CloseCircuit E L (probe_SessionId sessionProbe); ret None }))
              })
           else if IsReady sess then forward_to_partner E sess s data
           else ret None)
        })"

definition handleDisconnect ::
  "('a relay_state_scheme, 'e) env_scheme \<Rightarrow> 'l lib_scheme \<Rightarrow> relay \<Rightarrow> wn_stream \<Rightarrow> bytes \<Rightarrow>
   ('a relay_state_scheme, goerr option) state" where
  "handleDisconnect E L relay s data =
     (case Unmarshal (pb_Disconnect L) (relay_Data relay) of
        (_, Some err) \<Rightarrow> ret (Some err)
      | (dis, None) \<Rightarrow> do {
          v \<leftarrow> gets (\<lambda>s. sessionMap s (dis_SessionId dis));
          err \<leftarrow> (case v of
             None \<Rightarrow> ret (Some ''no such session'')
           | Some _ \<Rightarrow> ForwardRelay E L (dis_SessionId dis) data (RemotePeer s));
          RemoveSession (dis_SessionId dis);
          ret err
        })"

text \<open>\<open>conn.state = CircuitConnReady\<close> through the pointer, and the pointer stored again.\<close>

definition make_ready :: "string \<Rightarrow> nat \<Rightarrow> ('a relay_state_scheme, unit) state" where
  "make_ready sid a = do {
     modify (\<lambda>s. s\<lparr>conns := (conns s)[a := (conns s ! a)\<lparr>conn_state := CircuitConnReady\<rparr>]\<rparr>);
     modify (store_circuit sid a)
   }"

definition handleCircuitSuccess ::
  "('a relay_state_scheme, 'e) relay_env_scheme \<Rightarrow> relay_cfg \<Rightarrow> 'l crypto_lib_scheme \<Rightarrow> relay \<Rightarrow>
   wn_stream \<Rightarrow> bytes \<Rightarrow> ('a relay_state_scheme, goerr option outcome) state" where
  "handleCircuitSuccess E C L relay s data =
     (case Unmarshal (pb_CircuitSuccess L) (relay_Data relay) of
        (_, Some err) \<Rightarrow> ret (Returns (Some err))
      | (succ, None) \<Rightarrow> do {
          (sess, ok) \<leftarrow> GetSession (cs_SessionId succ);
          (if \<not> ok then ret (Returns (Some (''no such session '' @ cs_SessionId succ)))
           else if Role sess = CallerRole then do {
             v \<leftarrow> gets (\<lambda>s. circuitConnMap s (cs_SessionId succ));
             (case v of
                None \<Rightarrow> ret (Returns (Some ''circuitConn not exist''))
              | Some conn \<Rightarrow> do {
                  make_ready (cs_SessionId succ) conn;
                  obind (NewSecureConnCaller E C L conn) (\<lambda>_. ret (Returns None))
                })
           }
           else if Role sess = AnswerRole then do {
             v \<leftarrow> gets (\<lambda>s. circuitConnMap s (cs_SessionId succ));
             (case v of
                None \<Rightarrow> ret (Returns (Some ''circuitConn not exist''))
              | Some conn \<Rightarrow> do {
                  make_ready (cs_SessionId succ) conn;
                  obind (NewSecureConnAnswer E C L conn) (\<lambda>_. ret (Returns None))
                })
           }
           else if \<not> IsReady sess then
             ret (Returns (Some (''Received success signal,but session not ready: '' @ cs_SessionId succ)))
           else do {
             err \<leftarrow> forward_to_partner E sess s data;
             ret (Returns err)
           })
        })"

section \<open>The inbound loop\<close>

definition inbound_msg ::
  "('a relay_state_scheme, 'e) env_scheme \<Rightarrow> relay_cfg \<Rightarrow> 'l crypto_lib_scheme \<Rightarrow> wn_stream \<Rightarrow> bytes \<Rightarrow>
   ('a relay_state_scheme, unit) state" where
  "inbound_msg E C L s msgBytes =
     (case Unmarshal (pb_Relay L) msgBytes of
        (_, Some err) \<Rightarrow> ret ()
      | (relay, None) \<Rightarrow>
          (case relay_Type relay of
             Relaytype_SetSessionId \<Rightarrow> do { handleSetSession E C L relay s; ret () }
           | Relaytype_Data \<Rightarrow> do { handleRelayMsg E L relay s msgBytes; ret () }
           | Relaytype_Probe \<Rightarrow> do { handleRelayProbe E L relay s msgBytes; ret () }
           | Relaytype_Disconnect \<Rightarrow> do { handleDisconnect E L relay s msgBytes; ret () }
           | Relaytype_Ack \<Rightarrow> ret ()
           | Relaytype_Wake \<Rightarrow> ret ()
           | Relaytype_Success \<Rightarrow> spawn (SuccessJob relay s msgBytes)
           | Relaytype_other _ \<Rightarrow> ret ()))"

text \<open>
  One iteration: \<open>s.Ctx.Done()\<close> is closed once the stream was closed on this side. The result
  says whether the loop goes on.
\<close>

definition inbound_iter ::
  "('a relay_state_scheme, 'e) env_scheme \<Rightarrow> relay_cfg \<Rightarrow> 'l crypto_lib_scheme \<Rightarrow> wn_stream \<Rightarrow>
   goerr + bytes \<Rightarrow> ('a relay_state_scheme, bool) state" where
  "inbound_iter E C L s rd = do {
     t \<leftarrow> gets tr;
     (if closed t (StreamId s) then ret False
      else
        (case rd of
           Inl err \<Rightarrow> do { CloseStream s; ret False }
         | Inr msgBytes \<Rightarrow> do { inbound_msg E C L s msgBytes; ret True }))
   }"

fun RelayInboundHandler ::
  "('a relay_state_scheme, 'e) env_scheme \<Rightarrow> relay_cfg \<Rightarrow> 'l crypto_lib_scheme \<Rightarrow> wn_stream \<Rightarrow>
   (goerr + bytes) list \<Rightarrow> ('a relay_state_scheme, unit) state" where
  "RelayInboundHandler E C L s [] = ret ()"
| "RelayInboundHandler E C L s (rd # rds) = do {
     more \<leftarrow> inbound_iter E C L s rd;
     (if more then RelayInboundHandler E C L s rds else ret ())
   }"

definition RelayStreamHandler :: "wn_stream \<Rightarrow> ('a relay_state_scheme, unit) state" where
  "RelayStreamHandler str = do {
     mgr_AddStream str;
     spawn (InboundJob str)
   }"

section \<open>The actor\<close>

datatype relay_res = ResGetSession session bool | ResError "goerr option" | NoResponse

definition relay_Receive ::
  "('a relay_state_scheme, 'e) env_scheme \<Rightarrow> 'l lib_scheme \<Rightarrow> relay_req \<Rightarrow>
   ('a relay_state_scheme, relay_res) state" where
  "relay_Receive E L msg =
     (case msg of
        ReqGetSession i \<Rightarrow> do {
          (sess, ok) \<leftarrow> GetSession i;
          ret (ResGetSession sess ok)
        }
      | ReqNewSessiontoPeer peerID sessionID myRole otherRole \<Rightarrow> do {
          err \<leftarrow> NewSessionToPeer E L peerID sessionID myRole otherRole;
          ret (ResError err)
        }
      | ReqSendRelay sessionId data \<Rightarrow> do {
          err \<leftarrow> SendRelay E L sessionId data;
          ret (ResError err)
        }
      | ReqAddSessionID i sess \<Rightarrow> do { AddSessionId i sess; ret NoResponse }
      | ReqCloseCircuit sessionId \<Rightarrow> do { CloseCircuit E L sessionId; ret NoResponse }
      | ReqHandleStreamClosed streamId \<Rightarrow> do {
          v \<leftarrow> GetStream streamId;
          (case v of
             Some info \<Rightarrow> do {
               (if si_sessionID info \<noteq> '''' then do { CloseCircuit E L (si_sessionID info); ret () }
                else ret ());
               DeleteStream streamId
             }
           | None \<Rightarrow> ret ());
          ret NoResponse
        })"

text \<open>
  \<open>Request\<close> leaves a message in the mailbox. \<open>RequestFuture\<close> does the same and waits for the
  answer: either the actor works through the older messages and then answers this one, or the
  deadline passes first and the message stays in the mailbox.
\<close>

definition RequestRelay :: "relay_req \<Rightarrow> ('a relay_state_scheme, unit) state" where
  "RequestRelay m = modify (\<lambda>s. s\<lparr>relayMail := relayMail s @ [m]\<rparr>)"

fun receive_all ::
  "('a relay_state_scheme, 'e) env_scheme \<Rightarrow> 'l lib_scheme \<Rightarrow> relay_req list \<Rightarrow> ('a relay_state_scheme, unit) state" where
  "receive_all E L [] = ret ()"
| "receive_all E L (m # ms) = do { relay_Receive E L m; receive_all E L ms }"

definition future_timeout :: goerr where "future_timeout = ''future: timeout''"

definition RequestFutureRelay ::
  "('a relay_state_scheme, 'e) env_scheme \<Rightarrow> 'l lib_scheme \<Rightarrow> relay_req \<Rightarrow>
   ('a relay_state_scheme, goerr + relay_res) state" where
  "RequestFutureRelay E L m = do {
     t \<leftarrow> gets tr;
     emit EFuture;
     (if fut_late E t then do { RequestRelay m; ret (Inl future_timeout) }
      else do {
        older \<leftarrow> gets relayMail;
        modify (\<lambda>s. s\<lparr>relayMail := []\<rparr>);
        receive_all E L older;
        res \<leftarrow> relay_Receive E L m;
        ret (Inr res)
      })
   }"

section \<open>The handlers keep the invariant\<close>

lemma session_ok_replace [simp]: "session_ok i (sess\<lparr>Pair := (Pair sess)[k := st]\<rparr>) = session_ok i sess"
  by (auto simp: session_ok_def)

lemma handleSetSession_ok [keeps_intros]: "keeps (relay_ok L K P) (handleSetSession E C Lc r st)"
  unfolding handleSetSession_def Let_def
  by (intro keeps_GetSession_bind keeps_intros) (auto intro!: keeps_intros)

lemma handleRelayMsg_ok [keeps_intros]: "keeps (relay_ok L K P) (handleRelayMsg E Lc r st d)"
  unfolding handleRelayMsg_def GetCircuit_def by (intro keeps_intros)

lemma forward_to_partner_ok [keeps_intros]: "keeps (relay_ok L K P) (forward_to_partner E sess st d)"
  unfolding forward_to_partner_def by (intro keeps_intros)

lemma handleRelayProbe_ok [keeps_intros]: "keeps (relay_ok L K P) (handleRelayProbe E Lc r st d)"
  unfolding handleRelayProbe_def Let_def by (intro keeps_intros refl)

lemma handleDisconnect_ok [keeps_intros]: "keeps (relay_ok L K P) (handleDisconnect E Lc r st d)"
  unfolding handleDisconnect_def by (intro keeps_intros)

lemma inbound_msg_ok [keeps_intros]: "keeps (relay_ok L K P) (inbound_msg E C Lc st b)"
  unfolding inbound_msg_def
  by (intro keeps_intros) (auto intro!: keeps_intros split: relaytype.split)

lemma inbound_iter_ok [keeps_intros]: "keeps (relay_ok L K P) (inbound_iter E C Lc st rd)"
  unfolding inbound_iter_def by (intro keeps_intros)

lemma RelayInboundHandler_ok: "keeps (relay_ok L K P) (RelayInboundHandler E C Lc st rds)"
  by (induction rds) (auto intro!: keeps_intros)

lemma RelayStreamHandler_ok [keeps_intros]: "keeps (relay_ok L K P) (RelayStreamHandler st)"
  unfolding RelayStreamHandler_def by (intro keeps_intros)

text \<open>A secure connection is opened on the circuit that the success signal names.\<close>

lemma make_ready_state:
  assumes "relay_ok L K P s" and "conn_is (conns s) a sid"
  shows "wp (make_ready sid a) (\<lambda>_ t. relay_ok L K P t \<and> conn_is (conns t) a sid) s"
proof -
  let ?s = "s\<lparr>conns := (conns s)[a := (conns s ! a)\<lparr>conn_state := CircuitConnReady\<rparr>]\<rparr>"
  have "relay_ok L K P ?s" using assms(1) by (simp add: relay_ok_extend)
  moreover have c: "conn_is (conns ?s) a sid" using assms(2) by (simp add: conn_is_def)
  ultimately show ?thesis
    using relay_ok_store_circuit [of L K P ?s a sid]
    by (simp add: make_ready_def) (simp add: store_circuit_def)
qed

lemma open_after_ready:
  assumes "relay_ok L K P s" and "circuitConnMap s sid = Some a"
    and m: "\<And>t. relay_ok L K P t \<Longrightarrow> conn_is (conns t) a sid \<Longrightarrow> wp m (\<lambda>_. relay_ok L K P) t"
  shows "wp (make_ready sid a \<bind> (\<lambda>_. obind m (\<lambda>_. ret (Returns None)))) (\<lambda>_. relay_ok L K P) s"
  by (rule wp_bind_step [OF make_ready_state [OF assms(1) relay_ok_circuit [OF assms(1,2)]]])
    (auto intro!: wp_obind_step [OF m] split: outcome.split)

lemma keeps_open:
  fixes m :: "nat \<Rightarrow> ('a relay_state_scheme, 'b outcome) state"
  assumes "\<And>a t. relay_ok L K P t \<Longrightarrow> conn_is (conns t) a sid \<Longrightarrow> wp (m a) (\<lambda>_. relay_ok L K P) t"
  shows "keeps (relay_ok L K P) (gets (\<lambda>s. circuitConnMap s sid) \<bind> (\<lambda>v. case v of
     None \<Rightarrow> ret (Returns (Some e))
   | Some a \<Rightarrow> make_ready sid a \<bind> (\<lambda>_. obind (m a) (\<lambda>_. ret (Returns None)))))"
proof (rule keeps_gets_bind)
  fix s :: "'a relay_state_scheme"
  assume "relay_ok L K P s"
  then show "wp (case circuitConnMap s sid of None \<Rightarrow> ret (Returns (Some e))
     | Some a \<Rightarrow> make_ready sid a \<bind> (\<lambda>_. obind (m a) (\<lambda>_. ret (Returns None)))) (\<lambda>_. relay_ok L K P) s"
    by (cases "circuitConnMap s sid") (simp_all add: open_after_ready assms del: wp_bind)
qed

lemma handleCircuitSuccess_ok:
  "wait_ok L P E \<Longrightarrow> keeps (relay_ok L K P) (handleCircuitSuccess E C L r st d)"
  unfolding handleCircuitSuccess_def
  by (intro keeps_open NewSecureConnCaller_ok NewSecureConnAnswer_ok keeps_intros)

lemma GetStream_keeps [keeps_intros]: "keeps (relay_ok L K P) (GetStream i)"
  unfolding GetStream_def by (intro keeps_intros)

lemma relay_Receive_ok:
  "await_ok L P E \<Longrightarrow> req_ok m \<Longrightarrow> keeps (relay_ok L K P) (relay_Receive E Lc m)"
  unfolding relay_Receive_def req_ok_def by (cases m) (auto intro!: keeps_intros)

lemma RequestRelay_ok [keeps_intros]: "req_ok m \<Longrightarrow> keeps (relay_ok L K P) (RequestRelay m)"
  unfolding RequestRelay_def
  by (rule keeps_modify) (auto simp: relay_ok_def relay_inv_def entries_defs)

lemma receive_all_ok:
  "await_ok L P E \<Longrightarrow> list_all req_ok ms \<Longrightarrow> keeps (relay_ok L K P) (receive_all E Lc ms)"
  by (induction ms) (auto intro!: keeps_intros relay_Receive_ok)

lemma relay_ok_empty_mail:
  "relay_ok L K P s \<Longrightarrow> relay_ok L K P (s\<lparr>relayMail := []\<rparr>) \<and> list_all req_ok (relayMail s)"
  by (simp add: relay_ok_def relay_inv_def entries_defs)

lemma RequestFutureRelay_ok:
  fixes E :: "('a relay_state_scheme, 'e) env_scheme"
  assumes "await_ok L P E" and "req_ok m"
  shows "keeps (relay_ok L K P) (RequestFutureRelay E Lc m)"
proof (rule keepsI)
  fix s :: "'a relay_state_scheme"
  assume ok: "relay_ok L K P s"
  have "keeps (relay_ok L K P) (receive_all E Lc (relayMail s) \<bind> (\<lambda>_. relay_Receive E Lc m \<bind> (\<lambda>r. ret (Inr r))))"
    using relay_ok_empty_mail [OF ok] assms by (intro keeps_intros receive_all_ok relay_Receive_ok) auto
  from keepsD [OF this] relay_ok_empty_mail [of L K P "s\<lparr>tr := tr s @ [EFuture]\<rparr>"] ok
    keepsD [OF RequestRelay_ok [OF assms(2)], of L K P "s\<lparr>tr := tr s @ [EFuture]\<rparr>"]
  show "wp (RequestFutureRelay E Lc m) (\<lambda>_. relay_ok L K P) s"
    by (simp add: RequestFutureRelay_def wp_simps)
qed

section \<open>Everything a node may do, interleaved\<close>

inductive relay_step ::
  "('a relay_state_scheme, 'e) relay_env_scheme \<Rightarrow> relay_cfg \<Rightarrow> 'l crypto_lib_scheme \<Rightarrow>
   'a relay_state_scheme \<Rightarrow> 'a relay_state_scheme \<Rightarrow> bool" for E C L where
  accept: "run_state (RelayStreamHandler st) s = (u, t) \<Longrightarrow> relay_step E C L s t"
| inbound: "InboundJob st \<in> set (jobs s) \<Longrightarrow> run_state (inbound_iter E C L st rd) s = (True, t) \<Longrightarrow>
    relay_step E C L s t"
| inbound_end: "InboundJob st \<in> set (jobs s) \<Longrightarrow>
    run_state (inbound_iter E C L st rd) s = (False, t) \<Longrightarrow>
    relay_step E C L s (t\<lparr>jobs := remove1 (InboundJob st) (jobs t)\<rparr>)"
| success: "SuccessJob r st d \<in> set (jobs s) \<Longrightarrow>
    run_state (handleCircuitSuccess E C L r st d)
      (s\<lparr>jobs := remove1 (SuccessJob r st d) (jobs s)\<rparr>) = (res, t) \<Longrightarrow> relay_step E C L s t"
| actor: "relayMail s = m # ms \<Longrightarrow> run_state (relay_Receive E L m) (s\<lparr>relayMail := ms\<rparr>) = (rr, t) \<Longrightarrow>
    relay_step E C L s t"
| request: "req_ok m \<Longrightarrow> run_state (RequestRelay m) s = (u, t) \<Longrightarrow> relay_step E C L s t"
| ack_actor: "run_state (ack_deliver E L) s = (v, t) \<Longrightarrow> relay_step E C L s t"
| ack_stream: "run_state (AckStreamHandler L st rd) s = (v, t) \<Longrightarrow> relay_step E C L s t"
| dial: "run_state (AddCircuitConnCaller C L sid remote) s = (u, t) \<Longrightarrow> relay_step E C L s t"
| hang_up: "run_state (CloseCircuit E L sid) s = (e, t) \<Longrightarrow> relay_step E C L s t"
| circuit_read: "run_state (circuit_Read E a n) s = (rb, t) \<Longrightarrow> relay_step E C L s t"
| circuit_write: "run_state (circuit_Write E L a b) s = (w, t) \<Longrightarrow> relay_step E C L s t"

definition relay_reachable ::
  "(relay_state, 'e) relay_env_scheme \<Rightarrow> relay_cfg \<Rightarrow> 'l crypto_lib_scheme \<Rightarrow> relay_state \<Rightarrow> bool" where
  "relay_reachable E C L = (relay_step E C L)\<^sup>*\<^sup>* NewRelayMsgManager"

lemma SendAck_ok [keeps_intros]: "keeps (relay_ok L K P) (SendAck E Lc a p)"
  unfolding SendAck_def by (intro keeps_intros)

lemma AddTask_ok [keeps_intros]: "keeps (relay_ok L K P) (AddTask t)"
  unfolding AddTask_def by (intro keeps_intros) (simp add: store_task_def)

lemma DeletTask_ok [keeps_intros]: "keeps (relay_ok L K P) (DeletTask i)"
  unfolding DeletTask_def by (intro keeps_intros) (simp_all add: delete_task_def)

lemma ack_Receive_ok [keeps_intros]: "keeps (relay_ok L K P) (ack_Receive E Lc m)"
  unfolding ack_Receive_def by (cases m) (auto intro!: keeps_intros)

lemma ack_deliver_ok: "keeps (relay_ok L K P) (ack_deliver E Lc)"
  unfolding ack_deliver_def
  by (intro keeps_intros) (auto split: list.split intro!: keeps_intros)

lemma AckStreamHandler_ok: "keeps (relay_ok L K P) (AckStreamHandler Lc st rd)"
  unfolding AckStreamHandler_def by (intro keeps_intros)

lemma relay_ok_mail_tail:
  "relay_ok L K P s \<Longrightarrow> relayMail s = m # ms \<Longrightarrow> relay_ok L K P (s\<lparr>relayMail := ms\<rparr>) \<and> req_ok m"
  by (simp add: relay_ok_def relay_inv_def entries_defs)

lemmas step_keeps = keeps_run [OF RelayStreamHandler_ok] keeps_run [OF inbound_iter_ok]
  keeps_run [OF RequestRelay_ok] keeps_run [OF ack_deliver_ok] keeps_run [OF AckStreamHandler_ok]
  keeps_run [OF AddCircuitConnCaller_ok] keeps_run [OF CloseCircuit_ok] keeps_run [OF circuit_Write_ok]

lemma relay_step_ok:
  assumes "relay_step E C L s t" and "relay_ok L K P s" and rely: "await_ok L P E" "wait_ok L P E"
  shows "relay_ok L K P t"
  using assms(1,2)
proof (cases rule: relay_step.cases)
  case (inbound_end st rd t')
  then show ?thesis using assms(2) keeps_run [OF inbound_iter_ok] by auto
next
  case (success r st d res)
  then show ?thesis
    using assms(2) keeps_run [OF handleCircuitSuccess_ok [OF rely(2)] _ success(2)] by simp
next
  case (actor m ms rr)
  then show ?thesis
    using relay_ok_mail_tail [OF assms(2) actor(1)] keeps_run [OF relay_Receive_ok [OF rely(1)] _ actor(2)]
    by blast
next
  case (circuit_read a n rb)
  then show ?thesis using assms(2) keeps_run [OF circuit_Read_ok [OF rely(2)]] by blast
qed (blast intro: step_keeps)+

lemma relay_reachable_inv:
  assumes "relay_reachable E C L s" and "await_ok L (\<lambda>_. True) E" and "wait_ok L (\<lambda>_. True) E"
  shows "relay_inv L s"
proof -
  have "relay_ok L {} (\<lambda>_. True) NewRelayMsgManager"
    by (simp add: relay_ok_def conns_have_def relay_inv_init)
  moreover have "relay_ok L {} (\<lambda>_. True) t"
    if "(relay_step E C L)\<^sup>*\<^sup>* u t" "relay_ok L {} (\<lambda>_. True) u" for t u
    using that by (induction rule: rtranclp_induct) (blast intro: relay_step_ok assms(2,3))+
  ultimately show ?thesis
    using assms(1) by (auto simp: relay_reachable_def relay_ok_def)
qed

section \<open>What the handlers do\<close>

text \<open>A node in the middle of a circuit copies a data message, unchanged, to the other stream.\<close>

lemma handleRelayMsg_forward:
  assumes "Unmarshal (pb_RelayMsg L) (relay_Data r) = (m, None)"
    and "sessionMap s (rm_SessionId m) = Some sess" and "Role sess \<notin> {CallerRole, AnswerRole}"
    and "GetPattern sess (StreamId st) = Inr p" and "write_res E (tr s) (StreamId p) d = None"
  shows "run_state (handleRelayMsg E L r st d) s =
    (None, s\<lparr>tr := tr s @ [EWrite (StreamId p) d]\<rparr>)"
  using assms GetPattern_member [OF assms(4)]
  by (simp add: handleRelayMsg_def GetSession_def WriteMsg_def emit_def)

lemma handleRelayMsg_fail:
  assumes "Unmarshal (pb_RelayMsg L) (relay_Data r) = (m, None)"
    and "sessionMap s (rm_SessionId m) = Some sess" and "Role sess \<notin> {CallerRole, AnswerRole}"
    and "IsReady sess"
    and "\<And>p. GetPattern sess (StreamId st) = Inr p \<Longrightarrow> write_res E (tr s) (StreamId p) d \<noteq> None"
  shows "wp (handleRelayMsg E L r st d) (\<lambda>e t. e \<noteq> None \<and> gone (rm_SessionId m) t) s"
  using assms
  by (auto simp: handleRelayMsg_def GetSession_def wp_simps split: sum.split option.split
      intro!: wp_mono [OF CloseCircuit_gone])

lemma inbound_forward:
  assumes "data_msg L sid b" and "sessionMap s sid = Some sess"
    and "Role sess \<notin> {CallerRole, AnswerRole}" and "GetPattern sess (StreamId st) = Inr p"
    and "write_res E (tr s) (StreamId p) b = None" and "\<not> closed (tr s) (StreamId st)"
  shows "run_state (inbound_iter E C L st (Inr b)) s = (True, s\<lparr>tr := tr s @ [EWrite (StreamId p) b]\<rparr>)"
proof -
  obtain r m where r: "Unmarshal (pb_Relay L) b = (r, None)" "relay_Type r = Relaytype_Data"
      "Unmarshal (pb_RelayMsg L) (relay_Data r) = (m, None)" "rm_SessionId m = sid"
    using assms(1) by (auto simp: data_msg_def split: prod.splits)
  then show ?thesis
    using assms(2-) handleRelayMsg_forward [OF r(3), of s sess st p E b]
    by (simp add: inbound_iter_def inbound_msg_def)
qed

lemma RelayInboundHandler_forward:
  assumes "list_all (data_msg L sid) bs" and "sessionMap s sid = Some sess"
    and "Role sess \<notin> {CallerRole, AnswerRole}" and "GetPattern sess (StreamId st) = Inr p"
    and "\<And>t i b. write_res E t i b = None" and "\<not> closed (tr s) (StreamId st)"
  shows "run_state (RelayInboundHandler E C L st (map Inr bs)) s =
    ((), s\<lparr>tr := tr s @ map (EWrite (StreamId p)) bs\<rparr>)"
  using assms
proof (induction bs arbitrary: s)
  case (Cons b bs)
  let ?s = "s\<lparr>tr := tr s @ [EWrite (StreamId p) b]\<rparr>"
  have "run_state (inbound_iter E C L st (Inr b)) s = (True, ?s)"
    using Cons.prems by (intro inbound_forward) simp_all
  moreover have "\<not> closed (tr ?s) (StreamId st)" using Cons.prems(6) by (simp add: closed_def)
  then have "run_state (RelayInboundHandler E C L st (map Inr bs)) ?s =
      ((), ?s\<lparr>tr := tr ?s @ map (EWrite (StreamId p)) bs\<rparr>)"
    using Cons.prems by (intro Cons.IH) simp_all
  ultimately show ?case by simp
qed simp

text \<open>At the ends of a circuit the payload joins the buffer of the connection.\<close>

definition same_client :: "'a relay_state_scheme \<Rightarrow> 'a relay_state_scheme \<Rightarrow> bool" where
  "same_client s t = (secureConnMap t = secureConnMap s \<and> relay_state.more t = relay_state.more s)"

lemma same_client_trans: "same_client s t \<Longrightarrow> same_client t u \<Longrightarrow> same_client s u"
  by (simp add: same_client_def)

lemma handleRelayMsg_deliver:
  assumes "Unmarshal (pb_RelayMsg L) (relay_Data r) = (m, None)"
    and "sessionMap s (rm_SessionId m) = Some sess" and "Role sess \<in> {CallerRole, AnswerRole}"
    and "circuitConnMap s (rm_SessionId m) = Some a" and "conn_exists a s"
  shows "wp (handleRelayMsg E L r st d) (\<lambda>e t. e = None \<and>
     get_buffer a t = get_buffer a s @ rm_Data m \<and> writes (tr t) = writes (tr s) \<and>
     (\<forall>j. closed (tr t) j = closed (tr s) j) \<and>
     sessionMap t = sessionMap s \<and> circuitConnMap t = circuitConnMap s \<and> conn_exists a t \<and> same_client s t) s"
  using assms
  by (auto simp: handleRelayMsg_def GetSession_def GetCircuit_def InboundMsg_def wp_simps
      get_buffer_def set_buffer_def conn_exists_def closed_def same_client_def)

text \<open>
  The inbound loop of an end of a circuit appends the payloads of the data messages it reads to
  the buffer of the connection, in order.
\<close>

lemma inbound_deliver:
  assumes "data_msg L sid b" and "sessionMap s sid = Some sess" and "Role sess \<in> {CallerRole, AnswerRole}"
    and "circuitConnMap s sid = Some a" and "conn_exists a s" and "\<not> closed (tr s) (StreamId st)"
  shows "wp (inbound_iter E C L st (Inr b)) (\<lambda>more t. more \<and>
     get_buffer a t = get_buffer a s @ payload L b \<and> \<not> closed (tr t) (StreamId st) \<and>
     sessionMap t = sessionMap s \<and> circuitConnMap t = circuitConnMap s \<and> conn_exists a t \<and> same_client s t) s"
proof -
  obtain r m where r: "Unmarshal (pb_Relay L) b = (r, None)" "relay_Type r = Relaytype_Data"
      "Unmarshal (pb_RelayMsg L) (relay_Data r) = (m, None)" "rm_SessionId m = sid"
    using assms(1) by (auto simp: data_msg_def split: prod.splits)
  have p: "payload L b = rm_Data m" using r by (simp add: payload_def)
  show ?thesis
    using assms(2-) r p
    by (auto simp: inbound_iter_def inbound_msg_def intro!: wp_mono [OF handleRelayMsg_deliver [OF r(3)]])
qed

lemma RelayInboundHandler_deliver:
  assumes "list_all (data_msg L sid) bs" and "sessionMap s sid = Some sess"
    and "Role sess \<in> {CallerRole, AnswerRole}" and "circuitConnMap s sid = Some a" and "conn_exists a s"
    and "\<not> closed (tr s) (StreamId st)"
  shows "wp (RelayInboundHandler E C L st (map Inr bs)) (\<lambda>_ t.
     get_buffer a t = get_buffer a s @ concat (map (payload L) bs) \<and> conn_exists a t \<and> same_client s t) s"
  using assms
proof (induction bs arbitrary: s)
  case (Cons b bs)
  have "wp (RelayInboundHandler E C L st (map Inr bs)) (\<lambda>_ u.
      get_buffer a u = get_buffer a s @ concat (map (payload L) (b # bs)) \<and> conn_exists a u \<and> same_client s u) t"
    if "get_buffer a t = get_buffer a s @ payload L b" "\<not> closed (tr t) (StreamId st)"
      "sessionMap t = sessionMap s" "circuitConnMap t = circuitConnMap s" "conn_exists a t" "same_client s t" for t
    using Cons.IH [of t] Cons.prems that by (auto elim!: wp_mono intro: same_client_trans)
  then show ?case
    using Cons.prems by (auto intro!: wp_mono [OF inbound_deliver])
qed (simp add: same_client_def)

text \<open>
  The joint node answers the second probe of a session: if the two carry the same signal it
  sends the success message to every stream of the session, otherwise it closes the circuit.
\<close>

lemma handleRelayProbe_first:
  assumes "Unmarshal (pb_ProbeSignal L) (relay_Data r) = (p, None)"
    and "sessionMap s (ps_SessionId p) = Some sess" and "Role sess = JointRole"
    and "probeMap s (ps_SessionId p) = None"
  shows "run_state (handleRelayProbe E L r st d) s =
    (None, s\<lparr>probeMap := (probeMap s)(ps_SessionId p \<mapsto>
       \<lparr>probe_SessionId = ps_SessionId p, probe_Rand = ps_Data p\<rparr>)\<rparr>)"
  using assms by (simp add: handleRelayProbe_def GetSession_def Let_def store_probe_def)

lemma handleRelayProbe_second:
  assumes "Unmarshal (pb_ProbeSignal L) (relay_Data r) = (p, None)"
    and "sessionMap s (ps_SessionId p) = Some sess" and "Role sess = JointRole"
    and "probeMap s (ps_SessionId p) = Some q"
  shows "wp (handleRelayProbe E L r st d) Q s =
    (if probe_Rand q = ps_Data p
     then wp (SendRelay E L (ps_SessionId p) (NewCircuitSuccess L (ps_SessionId p))) (\<lambda>_. Q None) s
     else wp (CloseCircuit E L (ps_SessionId p)) (\<lambda>_. Q None) s)"
  using assms by (simp add: handleRelayProbe_def GetSession_def Let_def)

text \<open>A disconnect is passed on to the streams of other peers, and the session is gone.\<close>

lemma forward_pair_spec:
  "wp (forward_pair E d from p) (\<lambda>r t. r = None \<longrightarrow> t = s\<lparr>tr := tr s @
     map (\<lambda>st. EWrite (StreamId st) d) (filter (\<lambda>st. RemotePeer st \<noteq> from) p)\<rparr>) s"
proof (induction p arbitrary: s)
  case (Cons st p)
  then show ?case
    by (auto simp: wp_simps split: option.split intro: wp_mono [OF Cons.IH])
qed simp

lemma handleDisconnect_gone:
  assumes "Unmarshal (pb_Disconnect L) (relay_Data r) = (m, None)"
  shows "wp (handleDisconnect E L r st d) (\<lambda>_ t. gone (dis_SessionId m) t) s"
  using assms by (simp add: handleDisconnect_def wp_simps split: option.split)

lemma handleDisconnect_forward:
  assumes "Unmarshal (pb_Disconnect L) (relay_Data r) = (m, None)"
    and "sessionMap s (dis_SessionId m) = Some sess" and "Pair sess \<noteq> []"
  shows "wp (handleDisconnect E L r st d) (\<lambda>e t. e = None \<longrightarrow>
     t = removed (dis_SessionId m) (s\<lparr>tr := tr s @ map (\<lambda>st. EWrite (StreamId st) d)
           (filter (\<lambda>p. RemotePeer p \<noteq> RemotePeer st) (Pair sess))\<rparr>)) s"
proof -
  have "wp (ForwardRelay E L (dis_SessionId m) d (RemotePeer st)) (\<lambda>r t. r = None \<longrightarrow>
     t = s\<lparr>tr := tr s @ map (\<lambda>st. EWrite (StreamId st) d)
           (filter (\<lambda>p. RemotePeer p \<noteq> RemotePeer st) (Pair sess))\<rparr>) s"
    using assms(2,3)
    by (auto simp: ForwardRelay_def GetSession_def GetPair_def close_on_error_def wp_simps
        split: option.split intro!: wp_mono [OF forward_pair_spec] wp_mono [OF CloseCircuit_gone])
  then show ?thesis
    using assms by (auto simp: handleDisconnect_def wp_simps intro: wp_mono)
qed

lemma writes_sent: "writes (map (\<lambda>p. EWrite (StreamId p) d) ps) = map (\<lambda>p. (StreamId p, d)) ps"
  by (induction ps) simp_all

lemma writes_closed: "writes (map (\<lambda>p. ECloseStream (StreamId p)) ps) = []"
  by (induction ps) simp_all

lemma writes_removed: "writes (tr (removed i u)) = writes (tr u)"
  by (simp add: removed_def cancels_def closes_def writes_closed split: option.split)

text \<open>The answers to \<open>SetSessionId\<close>.\<close>

definition set_session_ack :: "relay \<Rightarrow> bool \<Rightarrow> bytes \<Rightarrow> pb_ack" where
  "set_session_ack r ok d = \<lparr>ack_CommandId = relay_Id r, ack_Result = ok, ack_Data = d\<rparr>"

lemma handleSetSession_join:
  assumes "Unmarshal (pb_SetSessionIdMsg L) (relay_Data r) = (m, None)"
    and "cfg_role C \<noteq> ClientMode"
    and "\<And>sess. sessionMap s (ssm_SessionId m) = Some sess \<Longrightarrow>
      Role sess \<noteq> EntryRole \<or> sint (ssm_Role m) \<noteq> RelayRole"
  shows "run_state (handleSetSession E C L r st) s = (None,
    s\<lparr>sessionMap := (sessionMap s)(ssm_SessionId m \<mapsto> AddStream st
         (case sessionMap s (ssm_SessionId m) of Some sess \<Rightarrow> sess
          | None \<Rightarrow> \<lparr>sess_Id = ssm_SessionId m, Pair = [], Role = sint (ssm_Role m)\<rparr>)),
       streamMap := (streamMap s)(StreamId st \<mapsto>
         \<lparr>si_stream = st, si_sessionID = ssm_SessionId m\<rparr>),
       ackMail := ackMail s @ [ReqAck (set_session_ack r True []) (RemotePeer st)]\<rparr>)"
proof (cases "sessionMap s (ssm_SessionId m)")
  case None
  then show ?thesis using assms(1,2)
    by (cases s) (simp add: handleSetSession_def Let_def RequestAck_def GetSession_def
      AddSessionId_def mgr_AddStream_def AddStreamSessionID_def table_defs set_session_ack_def
      SetSessionID_def NewSession_def)
next
  case (Some sess)
  with assms show ?thesis
    by (cases s) (auto simp: handleSetSession_def Let_def RequestAck_def GetSession_def
      AddSessionId_def mgr_AddStream_def AddStreamSessionID_def table_defs set_session_ack_def)
qed

text \<open>
  A node that is the entry of a session and is asked to be its relay replaces the stream to the
  joint node by the new one, after telling the joint node.
\<close>

lemma handleSetSession_entry:
  assumes "Unmarshal (pb_SetSessionIdMsg L) (relay_Data r) = (m, None)"
    and "cfg_role C \<noteq> ClientMode" and "sint (ssm_Role m) = RelayRole"
    and "sessionMap s (ssm_SessionId m) = Some sess" and "Role sess = EntryRole"
    and "Pair sess = [cl, jn]" and "write_res E (tr s) (StreamId jn) (fst (NewDisconnect L (ssm_SessionId m))) = None"
  shows "run_state (handleSetSession E C L r st) s = (None,
    s\<lparr>tr := tr s @ [EWrite (StreamId jn) (fst (NewDisconnect L (ssm_SessionId m)))],
       sessionMap := (sessionMap s)(ssm_SessionId m \<mapsto> sess\<lparr>Pair := [cl, st]\<rparr>),
       streamMap := (streamMap s)(StreamId jn := None,
         StreamId st \<mapsto> \<lparr>si_stream = st, si_sessionID = ssm_SessionId m\<rparr>),
       ackMail := ackMail s @ [ReqAck (set_session_ack r True []) (RemotePeer st)]\<rparr>)"
  using assms
  by (cases s) (simp add: handleSetSession_def Let_def RequestAck_def GetSession_def IsReady_def
      AddSessionId_def mgr_AddStream_def AddStreamSessionID_def DeleteStream_def table_defs
      set_session_ack_def WriteMsg_def emit_def)

section \<open>The contract of the relay actor\<close>

text \<open>
  What the other managers rely on when they ask the relay actor for something: every request
  keeps the invariant, asking for a session returns the session of the table or a deadline, and
  asking for a circuit to be closed is remembered. \<open>ok\<close> is the invariant, \<open>valid\<close> what a request
  has to satisfy.
\<close>

locale relay_actor =
  fixes request :: "relay_req \<Rightarrow> ('s, unit) state"
    and requestFuture :: "relay_req \<Rightarrow> ('s, goerr + relay_res) state"
    and ok :: "'s \<Rightarrow> bool" and mail :: "'s \<Rightarrow> relay_req list" and valid :: "relay_req \<Rightarrow> bool"
    and rely :: bool
  assumes request_ok: "valid m \<Longrightarrow> keeps ok (request m)"
    and requestFuture_ok: "rely \<Longrightarrow> valid m \<Longrightarrow> keeps ok (requestFuture m)"
    and request_mail: "wp (request m) (\<lambda>_ t. mail t = mail s @ [m]) s"
    and valid_requests: "valid (ReqGetSession i)" "valid (ReqNewSessiontoPeer p i r q)"
      "valid (ReqSendRelay i d)" "valid (ReqCloseCircuit i)"
    and error_answers: "yields (\<lambda>r. \<forall>x. r = Inr x \<longrightarrow> (\<exists>e. x = ResError e))
        (requestFuture (ReqNewSessiontoPeer p i r' q))"
      "yields (\<lambda>r. \<forall>x. r = Inr x \<longrightarrow> (\<exists>e. x = ResError e)) (requestFuture (ReqSendRelay i d))"
      "yields (\<lambda>r. \<forall>x. r = Inr x \<longrightarrow> (\<exists>sess b. x = ResGetSession sess b)) (requestFuture (ReqGetSession i))"
begin

lemmas requests_ok = request_ok [OF valid_requests(4)] requestFuture_ok [OF _ valid_requests(1)]
  requestFuture_ok [OF _ valid_requests(2)] requestFuture_ok [OF _ valid_requests(3)]

end

lemma yields_RequestFutureRelay:
  "yields P (relay_Receive E L m) \<Longrightarrow> yields (\<lambda>r. \<forall>x. r = Inr x \<longrightarrow> P x) (RequestFutureRelay E L m)"
  unfolding RequestFutureRelay_def
  by (auto intro!: yields_return yields_bind [where m = "gets tr", OF yields_any [where P = "\<lambda>_. True"]]
      yields_bind [where m = "emit _", OF yields_any [where P = "\<lambda>_. True"]]
      yields_bind [where m = "RequestRelay _", OF yields_any [where P = "\<lambda>_. True"]]
      yields_bind [where m = "gets relayMail", OF yields_any [where P = "\<lambda>_. True"]]
      yields_bind [where m = "modify _", OF yields_any [where P = "\<lambda>_. True"]]
      yields_bind [where m = "receive_all _ _ _", OF yields_any [where P = "\<lambda>_. True"]]
      elim!: yields_bind)

interpretation relay: relay_actor RequestRelay "RequestFutureRelay E Lc" "relay_ok L K P" relayMail req_ok
    "await_ok L P E"
proof unfold_locales
  show "req_ok m \<Longrightarrow> keeps (relay_ok L K P) (RequestRelay m)" for m by (rule RequestRelay_ok)
  show "await_ok L P E \<Longrightarrow> req_ok m \<Longrightarrow> keeps (relay_ok L K P) (RequestFutureRelay E Lc m)" for m
    by (rule RequestFutureRelay_ok)
  show "wp (RequestRelay m) (\<lambda>_ t. relayMail t = relayMail s @ [m]) s" for m s
    by (simp add: RequestRelay_def)
qed (auto simp: req_ok_def relay_Receive_def GetSession_def intro!: yields_RequestFutureRelay
    yields_bind [OF yields_any [where P = "\<lambda>_. True"]] yields_return split: option.split)

section \<open>Properties\<close>

text \<open>
  C1: the invariant of the relay manager in every state a node can reach, over all interleavings of
  incoming streams and messages, success handlers, actor requests, acknowledgements and the calls of
  the client code: sessions are filed under their identifiers and join one or two streams, streams,
  probes and circuits are filed under their own identifiers, and every secure connection belongs to
  its circuit and has checked the identity of the other end. What runs while a goroutine waits is
  assumed to keep the invariant, as everything that can run is shown to do.
\<close>

theorem relay_node_invariant:
  assumes "relay_reachable E C L s" and "await_ok L (\<lambda>_. True) E" and "wait_ok L (\<lambda>_. True) E"
  shows "(\<forall>k sess. sessionMap s k = Some sess \<longrightarrow>
        sess_Id sess = k \<and> Pair sess \<noteq> [] \<and> length (Pair sess) \<le> 2) \<and>
    (\<forall>k v. streamMap s k = Some v \<longrightarrow> StreamId (si_stream v) = k) \<and>
    (\<forall>k p. probeMap s k = Some p \<longrightarrow> probe_SessionId p = k) \<and>
    (\<forall>k a. circuitConnMap s k = Some a \<longrightarrow> a < length (conns s) \<and> conn_sessionId (conns s ! a) = k) \<and>
    (\<forall>k sc. secureConnMap s k = Some sc \<longrightarrow> conn_sessionId (conns s ! sc_conn sc) = k \<and>
        authentic L (sc_session sc) \<and>
        (initiator (sc_session sc) \<longrightarrow>
           GetPeerID L (remoteWhiteNoiseId (conns s ! sc_conn sc)) = Inr (remoteID (sc_session sc))))"
  using relay_reachable_inv [OF assms]
  by (auto simp: relay_inv_def entries_defs session_ok_def stream_ok_def probe_ok_def conn_is_def
      secure_ok_def)

text \<open>
  C6: a node in the middle of a circuit forwards data unchanged and in order: when it reads data
  messages of a session from one of the session's two streams, it writes exactly the bytes it read,
  one message for each message, to the other stream, and changes nothing else.
\<close>

theorem relay_forwards_unchanged:
  assumes "list_all (data_msg L sid) bs" and "sessionMap s sid = Some sess"
    and "Role sess \<notin> {CallerRole, AnswerRole}" and "GetPattern sess (StreamId st) = Inr p"
    and "\<And>t i b. write_res E t i b = None" and "\<not> closed (tr s) (StreamId st)"
  shows "run_state (RelayInboundHandler E C L st (map Inr bs)) s =
      ((), s\<lparr>tr := tr s @ map (EWrite (StreamId p)) bs\<rparr>) \<and>
    wire (StreamId p) (tr s @ map (EWrite (StreamId p)) bs) = wire (StreamId p) (tr s) @ bs"
  using RelayInboundHandler_forward [OF assms] wire_writes by blast



text \<open>
  One stream that sets the same session twice is paired with itself: the session counts as ready
  and the node sends the stream's own data back to it.
\<close>

theorem same_stream_twice_echoes:
  assumes "sessionMap s sid = Some sess" and "Pair sess = [st]" and "sess_Id sess = sid"
    and "Role sess \<notin> {CallerRole, AnswerRole, EntryRole}" and "cfg_role C = ServerMode"
    and "Unmarshal (pb_SetSessionIdMsg L) (relay_Data r) = (m, None)" and "ssm_SessionId m = sid"
    and "data_msg L sid b" and "\<And>t i c. write_res E t i c = None" and "\<not> closed (tr s) (StreamId st)"
  shows "wp (do { handleSetSession E C L r st; inbound_iter E C L st (Inr b) })
    (\<lambda>_ t. tr t = tr s @ [EWrite (StreamId st) b]) s"
proof -
  obtain q n where q: "Unmarshal (pb_Relay L) b = (q, None)" "relay_Type q = Relaytype_Data"
      "Unmarshal (pb_RelayMsg L) (relay_Data q) = (n, None)" "rm_SessionId n = sid"
    using assms(8) by (auto simp: data_msg_def split: prod.splits)
  let ?t = "snd (run_state (handleSetSession E C L r st) s)"
  have t: "sessionMap ?t sid = Some (sess\<lparr>Pair := [st, st]\<rparr>)" "tr ?t = tr s"
    using handleSetSession_join [OF assms(6), of C s E st] assms(1-5,7)
    by (simp_all add: AddStream_def IsReady_def)
  have "run_state (handleRelayMsg E L q st b) ?t = (None, ?t\<lparr>tr := tr ?t @ [EWrite (StreamId st) b]\<rparr>)"
    using assms(4,9) t q(4)
    by (intro handleRelayMsg_forward [OF q(3), where sess = "sess\<lparr>Pair := [st, st]\<rparr>"])
      (simp_all add: GetPattern_pair)
  then show ?thesis
    using assms(10) q t by (simp add: wp_run inbound_iter_def inbound_msg_def)
qed

text \<open>
  C13: a disconnect that is passed on without an error reaches exactly the streams of the session
  whose remote peer is not the sender, and in every case the session is gone afterwards.
\<close>

theorem disconnect_propagates:
  assumes "Unmarshal (pb_Disconnect L) (relay_Data r) = (m, None)"
    and "sessionMap s (dis_SessionId m) = Some sess" and "Pair sess \<noteq> []"
  shows "wp (handleDisconnect E L r st d) (\<lambda>e t. gone (dis_SessionId m) t \<and>
    (e = None \<longrightarrow> writes (tr t) = writes (tr s) @
       map (\<lambda>p. (StreamId p, d)) (filter (\<lambda>p. RemotePeer p \<noteq> RemotePeer st) (Pair sess)))) s"
  using handleDisconnect_forward [OF assms, where E = E and st = st and d = d]
    handleDisconnect_gone [OF assms(1), where E = E and st = st and d = d and s = s]
  by (simp add: wp_run writes_sent writes_removed)


text \<open>
  A client takes part in circuits as their answering end only: it rejects every request to set
  a session in another role, and its sessions, streams and circuits stay as they are.
\<close>

theorem client_rejects_relay_roles:
  assumes "Unmarshal (pb_SetSessionIdMsg L) (relay_Data r) = (m, None)"
    and "cfg_role C = ClientMode" and "sint (ssm_Role m) \<noteq> AnswerRole"
  shows "run_state (handleSetSession E C L r st) s = (Some ''reject'',
    s\<lparr>ackMail := ackMail s @ [ReqAck (set_session_ack r False (str_bytes ''reject'')) (RemotePeer st)]\<rparr>)"
  using assms by (simp add: handleSetSession_def Let_def RequestAck_def set_session_ack_def)

text \<open>
  C27: a node that is both the entry and the relay of a circuit leaves the joint node out: it tells
  the joint node to disconnect, puts the stream of the exit node in its place, and from then on
  forwards between the caller and the exit node.
\<close>

theorem entry_replaces_joint:
  assumes "Unmarshal (pb_SetSessionIdMsg L) (relay_Data r) = (m, None)"
    and "cfg_role C \<noteq> ClientMode" and "sint (ssm_Role m) = RelayRole"
    and "sessionMap s (ssm_SessionId m) = Some sess" and "Role sess = EntryRole"
    and "Pair sess = [cl, jn]" and "\<And>t i c. write_res E t i c = None"
    and "distinct [StreamId cl, StreamId jn, StreamId st]"
  shows "wp (handleSetSession E C L r st) (\<lambda>e t. e = None \<and>
     writes (tr t) = writes (tr s) @ [(StreamId jn, fst (NewDisconnect L (ssm_SessionId m)))] \<and>
     streamMap t (StreamId jn) = None \<and>
     (\<exists>sess'. sessionMap t (ssm_SessionId m) = Some sess' \<and>
        GetPattern sess' (StreamId cl) = Inr st \<and> GetPattern sess' (StreamId st) = Inr cl \<and>
        (\<exists>err. GetPattern sess' (StreamId jn) = Inl err))) s"
  using handleSetSession_entry [OF assms(1-6), of E st] assms(7,8)
  by (auto simp: wp_run GetPattern_pair)

end
