(* ===== verification/WN_Dht.thy ===== *)
theory WN_Dht
  imports WN_Relay "HOL-Library.Signed_Division"
begin

text \<open>
  The part of \<^verbatim>\<open>network/gossip\<close> that other managers ask for: the peers of the routing table and
  the publication of a negotiation (\<^verbatim>\<open>pubsub.go\<close>, \<^verbatim>\<open>gossip.go\<close>, \<^verbatim>\<open>actor.go\<close>), and the choice of a
  peer from that list, which \<^verbatim>\<open>protocol/proxy/proxy.go\<close> and \<^verbatim>\<open>pubsub.go\<close> both make with the same
  loop. The routing table and the gossip topic belong to libp2p; the environment answers for
  them.
\<close>

record peer_info =
  ai_ID :: peer_id
  ai_Addrs :: "string list"

datatype gossip_req = ReqGossipJoint string bytes | ReqDHTPeers int

datatype gossip_res = ResGossip "goerr option" | ResDHTPeers "peer_info list"

record dht_state = relay_state +
  gossipMail :: "gossip_req list"

record 's node_env = "'s relay_env" +
  ListPeers :: "effect list \<Rightarrow> peer_id list"
  FindLocal :: "effect list \<Rightarrow> peer_id \<Rightarrow> peer_info"
  publish_res :: "effect list \<Rightarrow> bytes \<Rightarrow> goerr option"
  rand_Int :: "effect list \<Rightarrow> 64 word"
  rand_Reader :: "effect list \<Rightarrow> bytes"

section \<open>The gossip actor\<close>

definition NoisePublish ::
  "('a dht_state_scheme, 'e) node_env_scheme \<Rightarrow> bytes \<Rightarrow> ('a dht_state_scheme, goerr option) state" where
  "NoisePublish E data = do {
     t \<leftarrow> gets tr;
     (case publish_res E t data of
        None \<Rightarrow> do { emit (EGossip data); ret None }
      | Some err \<Rightarrow> ret (Some err))
   }"

text \<open>\<open>peerIDs[:max]\<close> panics for a negative \<open>max\<close>.\<close>

definition GetDHTPeers ::
  "('a dht_state_scheme, 'e) node_env_scheme \<Rightarrow> int \<Rightarrow> ('a dht_state_scheme, peer_info list outcome) state" where
  "GetDHTPeers E limit = do {
     t \<leftarrow> gets tr;
     (let peerIDs = ListPeers E t
      in if int (length peerIDs) > limit
         then (if limit < 0 then ret Panics
               else ret (Returns (map (FindLocal E t) (take (nat limit) peerIDs))))
         else ret (Returns (map (FindLocal E t) peerIDs)))
   }"

definition GossipJoint ::
  "('a dht_state_scheme, 'e) node_env_scheme \<Rightarrow> 'l lib_scheme \<Rightarrow> string \<Rightarrow> bytes \<Rightarrow>
   ('a dht_state_scheme, goerr option) state" where
  "GossipJoint E L desHash negCypher =
     (case Marshal (pb_EncryptedNeg L) \<lparr>en_Des = desHash, en_Cypher = negCypher\<rparr> of
        (_, Some err) \<Rightarrow> ret (Some err)
      | (data, None) \<Rightarrow> NoisePublish E data)"

definition gossip_Receive ::
  "('a dht_state_scheme, 'e) node_env_scheme \<Rightarrow> 'l lib_scheme \<Rightarrow> gossip_req \<Rightarrow>
   ('a dht_state_scheme, gossip_res outcome) state" where
  "gossip_Receive E L msg =
     (case msg of
        ReqGossipJoint desHash negCypher \<Rightarrow> do {
          err \<leftarrow> GossipJoint E L desHash negCypher;
          ret (Returns (ResGossip err))
        }
      | ReqDHTPeers limit \<Rightarrow> obind (GetDHTPeers E limit) (\<lambda>peerInfos. ret (Returns (ResDHTPeers peerInfos))))"

fun gossip_receive_all ::
  "('a dht_state_scheme, 'e) node_env_scheme \<Rightarrow> 'l lib_scheme \<Rightarrow> gossip_req list \<Rightarrow>
   ('a dht_state_scheme, unit) state" where
  "gossip_receive_all E L [] = ret ()"
| "gossip_receive_all E L (m # ms) = do { gossip_Receive E L m; gossip_receive_all E L ms }"

text \<open>
  An actor that panics is restarted by its supervisor and goes on with the next message; nobody
  answers the message it was working on, so its future runs into the deadline.
\<close>

definition RequestFutureGossip ::
  "('a dht_state_scheme, 'e) node_env_scheme \<Rightarrow> 'l lib_scheme \<Rightarrow> gossip_req \<Rightarrow>
   ('a dht_state_scheme, goerr + gossip_res) state" where
  "RequestFutureGossip E L m = do {
     t \<leftarrow> gets tr;
     emit EFuture;
     (if fut_late E t then do {
        modify (\<lambda>s. s\<lparr>gossipMail := gossipMail s @ [m]\<rparr>);
        ret (Inl future_timeout)
      }
      else do {
        older \<leftarrow> gets gossipMail;
        modify (\<lambda>s. s\<lparr>gossipMail := []\<rparr>);
        gossip_receive_all E L older;
        res \<leftarrow> gossip_Receive E L m;
        ret (case res of Returns x \<Rightarrow> Inr x | _ \<Rightarrow> Inl future_timeout)
      })
   }"

section \<open>Choosing a peer\<close>

text \<open>
  The inner loop of both retry loops. \<open>startIndex\<close> is a Go \<open>int\<close>: incrementing it wraps around,
  the remainder of a negative number is negative, and indexing with it panics.
\<close>

fun pick_peer ::
  "(peer_id \<Rightarrow> bool) \<Rightarrow> peer_info list \<Rightarrow> nat \<Rightarrow> 64 word \<Rightarrow> peer_id option outcome" where
  "pick_peer eligible peers 0 startIndex = Returns None"
| "pick_peer eligible peers (Suc j) startIndex =
     (let startIndex = startIndex + 1;
          index = sint startIndex smod int (length peers)
      in if index < 0 then Panics
         else
           (let i = ai_ID (peers ! nat index)
            in if eligible i then Returns (Some i) else pick_peer eligible peers j startIndex))"

definition choose_peer :: "(peer_id \<Rightarrow> bool) \<Rightarrow> peer_info list \<Rightarrow> 64 word \<Rightarrow> peer_id option outcome" where
  "choose_peer eligible peers startIndex = pick_peer eligible peers (length peers) startIndex"

text \<open>Without a wrap-around the indices are consecutive residues.\<close>

lemma sint_plus_one: "sint w < 2 ^ 63 - 1 \<Longrightarrow> sint (w + 1 :: 64 word) = sint w + 1"
proof -
  assume a: "sint w < 2 ^ 63 - 1"
  have "sint w \<ge> - (2 ^ 63)" using sint_ge [of w] by simp
  with a have "signed_take_bit 63 (sint w + 1) = sint w + 1"
    by (intro signed_take_bit_int_eq_self) auto
  moreover have "sint (w + 1) = signed_take_bit 63 (sint w + 1)"
    by (simp add: sint_word_ariths(1))
  ultimately show ?thesis by simp
qed

lemma smod_index:
  assumes "0 \<le> x" and "0 < n"
  shows "x smod int n = x mod int n" and "nat (x mod int n) = nat x mod n"
  using assms by (cases "x = 0"; auto simp: signed_modulo_int_def signed_divide_int_def
      minus_mult_div_eq_mod nat_mod_distrib)+

lemma pick_peer_indices:
  assumes "peers \<noteq> []" and "0 \<le> sint w" and "sint w + int j < 2 ^ 63"
  shows "pick_peer eligible peers j w =
    Returns (find eligible (map (\<lambda>k. ai_ID (peers ! ((nat (sint w) + 1 + k) mod length peers))) [0..<j]))"
  using assms(2,3)
proof (induction j arbitrary: w)
  case (Suc j)
  let ?f = "\<lambda>w k. ai_ID (peers ! ((nat (sint w) + 1 + k) mod length peers))"
  have w1: "sint (w + 1) = sint w + 1" using Suc.prems by (intro sint_plus_one) simp
  have n: "nat (sint w + 1) = nat (sint w) + 1" using Suc.prems by simp
  have IH: "pick_peer eligible peers j (w + 1) = Returns (find eligible (map (?f (w + 1)) [0..<j]))"
    using Suc.prems w1 by (intro Suc.IH) simp_all
  have shift: "map (?f (w + 1)) [0..<j] = map (?f w) [Suc 0..<Suc j]"
    using w1 n by (simp add: map_Suc_upt [symmetric] comp_def del: upt_Suc)
  have up: "[0..<Suc j] = 0 # [Suc 0..<Suc j]" by (simp add: upt_conv_Cons del: upt_Suc)
  have "sint (w + 1) smod int (length peers) = (sint w + 1) mod int (length peers)"
    using smod_index(1) [of "sint w + 1" "length peers"] Suc.prems assms(1) w1 by simp
  moreover have "nat ((sint w + 1) mod int (length peers)) = (nat (sint w) + 1) mod length peers"
    using smod_index(2) [of "sint w + 1" "length peers"] Suc.prems assms(1) n by simp
  moreover have "\<not> (sint w + 1) mod int (length peers) < 0"
    using assms(1) by (simp add: not_less)
  ultimately show ?case
    unfolding up list.map find.simps using IH shift by (simp add: Let_def)
qed simp

lemma find_None: "find P xs = None \<longleftrightarrow> (\<forall>x \<in> set xs. \<not> P x)"
  by (induction xs) auto

text \<open>The loop looks at the peers in the order of a rotated list and takes the first eligible one.\<close>

lemma choose_peer_rotate:
  assumes "0 \<le> sint w" and "sint w + int (length peers) < 2 ^ 63"
  shows "choose_peer eligible peers w =
    Returns (find eligible (rotate (nat (sint w) + 1) (map ai_ID peers)))"
proof (cases "peers = []")
  case False
  let ?n = "length peers"
  have "map (\<lambda>k. ai_ID (peers ! ((nat (sint w) + 1 + k) mod ?n))) [0..<?n] =
      rotate (nat (sint w) + 1) (map ai_ID peers)"
    using False by (intro nth_equalityI) (simp_all add: nth_rotate del: rotate_Suc)
  then show ?thesis
    unfolding choose_peer_def using assms False pick_peer_indices [of peers w ?n eligible]
    by (simp del: rotate_Suc)
qed (simp add: choose_peer_def)

text \<open>Whatever the start, a peer that is returned is eligible and from the list.\<close>

lemma pick_peer_sound:
  "peers \<noteq> [] \<Longrightarrow> pick_peer eligible peers j w = Returns (Some i) \<Longrightarrow> eligible i \<and> i \<in> ai_ID ` set peers"
proof (induction j arbitrary: w)
  case (Suc j)
  have "sint (w + 1) smod int (length peers) < int (length peers)"
    using Suc.prems(1) smod_int_range [of "int (length peers)" "sint (w + 1)"] by simp
  with Suc show ?case
    by (auto simp: Let_def nat_less_iff split: if_splits)
qed simp

lemma choose_peer_sound:
  "choose_peer eligible peers w = Returns (Some i) \<Longrightarrow> eligible i \<and> i \<in> ai_ID ` set peers"
  unfolding choose_peer_def by (cases "peers = []") (simp_all add: pick_peer_sound)

section \<open>Properties\<close>

text \<open>
  C20: the search for a next hop is complete and fair to its start: from a random start that is not
  within the length of the list of the largest Go \<open>int\<close>, the loop returns, and what it returns is
  the first eligible peer of the list rotated by the start, so it finds none only if the list has no
  eligible peer.
\<close>

theorem choose_peer_complete:
  assumes "0 \<le> sint w" and "sint w + int (length peers) < 2 ^ 63"
  shows "choose_peer eligible peers w =
      Returns (find eligible (rotate (nat (sint w) + 1) (map ai_ID peers))) \<and>
    (choose_peer eligible peers w = Returns None \<longleftrightarrow> (\<forall>p \<in> set peers. \<not> eligible (ai_ID p)))"
  unfolding choose_peer_rotate [OF assms] by (simp add: find_None del: rotate_Suc)

text \<open>
  C38: near the largest start the index overflows: with the largest Go \<open>int\<close> as start the loop
  panics with a negative index, unless the number of peers is a power of two.
\<close>

theorem peer_index_overflow:
  assumes "peers \<noteq> []" and "\<not> int (length peers) dvd 2 ^ 63"
  shows "choose_peer eligible peers (2 ^ 63 - 1) = Panics"
proof -
  obtain n where n: "length peers = Suc n" using assms(1) by (cases peers) auto
  have "sint ((2 ^ 63 - 1 :: 64 word) + 1) = - (2 ^ 63)" by (simp add: sint_uint)
  moreover have "0 < (2 ^ 63 :: int) mod int (Suc n)"
    using assms(2) n by (simp add: dvd_eq_mod_eq_0 order_less_le del: of_nat_Suc)
  then have "- (2 ^ 63) smod int (Suc n) < 0"
    by (simp add: signed_modulo_int_def signed_divide_int_def minus_mult_div_eq_mod)
  ultimately show ?thesis by (simp add: choose_peer_def n Let_def)
qed

end
