(* ===== verification/WN_Proxy.thy ===== *)
theory WN_Proxy
  imports WN_Dht
begin

text \<open>
  \<^verbatim>\<open>protocol/proxy\<close>: a proxy keeps the clients that registered with it, opens circuits on their
  behalf, and asks them to encrypt and decrypt negotiations; a client answers those requests.

  \<open>ProxyStreamHandler\<close> gets the result of its one \<open>ReadMsg\<close> as an argument. A type assertion on
  the answer of an actor that has another type is \<^const>\<open>Panics\<close>; the contract of the relay
  actor rules it out.
\<close>

section \<open>State\<close>

record client_info =
  ci_WhiteNoiseID :: wn_id
  ci_PeerID :: peer_id
  ci_state :: int
  ci_time :: int

datatype proxy_req = ReqGetClient string | ReqDecrypt bytes peer_id | ReqUnregister peer_id

datatype proxy_res = ResGetClient client_info bool | ResDecrypt string string "goerr option" | NoProxyResponse

record proxy_state = dht_state +
  clientWNMap :: "string \<rightharpoonup> client_info"
  clientPeerMap :: "string \<rightharpoonup> wn_id"
  circuitTask :: "string \<rightharpoonup> wn_id"
  proxyMail :: "proxy_req list"

definition PROXY_PROTOCOL :: string where "PROXY_PROTOCOL = ''/proxy''"
definition ProxySerivceTime :: int where "ProxySerivceTime = 3600 * 10 ^ 9"
definition RetryTimes :: nat where "RetryTimes = 3"
definition ReqDHTPeersMaxAmount :: int where "ReqDHTPeersMaxAmount = 100"

definition zero_client :: client_info where
  "zero_client = \<lparr>ci_WhiteNoiseID = zero_id, ci_PeerID = '''', ci_state = 0, ci_time = 0\<rparr>"

definition store_client :: "string \<Rightarrow> client_info \<Rightarrow> 'a proxy_state_scheme \<Rightarrow> 'a proxy_state_scheme" where
  "store_client k v s = s\<lparr>clientWNMap := (clientWNMap s)(k \<mapsto> v)\<rparr>"

definition delete_client :: "string \<Rightarrow> 'a proxy_state_scheme \<Rightarrow> 'a proxy_state_scheme" where
  "delete_client k s = s\<lparr>clientWNMap := (clientWNMap s)(k := None)\<rparr>"

definition store_peer :: "string \<Rightarrow> wn_id \<Rightarrow> 'a proxy_state_scheme \<Rightarrow> 'a proxy_state_scheme" where
  "store_peer k v s = s\<lparr>clientPeerMap := (clientPeerMap s)(k \<mapsto> v)\<rparr>"

definition delete_peer :: "string \<Rightarrow> 'a proxy_state_scheme \<Rightarrow> 'a proxy_state_scheme" where
  "delete_peer k s = s\<lparr>clientPeerMap := (clientPeerMap s)(k := None)\<rparr>"

section \<open>Clients\<close>

definition AddClient ::
  "'l lib_scheme \<Rightarrow> string \<Rightarrow> client_info \<Rightarrow> ('a proxy_state_scheme, unit) state" where
  "AddClient L wnIdHash info = do {
     modify (store_client wnIdHash info);
     modify (store_peer (peer_String L (ci_PeerID info)) (ci_WhiteNoiseID info))
   }"

definition RemoveClient :: "'l lib_scheme \<Rightarrow> string \<Rightarrow> ('a proxy_state_scheme, unit) state" where
  "RemoveClient L peerIdString = do {
     v \<leftarrow> gets (\<lambda>s. clientPeerMap s peerIdString);
     (case v of
        None \<Rightarrow> modify (delete_peer peerIdString)
      | Some whiteNoiseID \<Rightarrow> do {
          modify (delete_client (id_Hash L whiteNoiseID));
          modify (delete_peer peerIdString)
        })
   }"

definition UnRegisterClient :: "'l lib_scheme \<Rightarrow> peer_id \<Rightarrow> ('a proxy_state_scheme, unit) state" where
  "UnRegisterClient L i = RemoveClient L (peer_String L i)"

definition GetClient :: "string \<Rightarrow> ('a proxy_state_scheme, client_info \<times> bool) state" where
  "GetClient wnIdHash = gets (\<lambda>s. case clientWNMap s wnIdHash of
     None \<Rightarrow> (zero_client, False) | Some info \<Rightarrow> (info, True))"

definition AddNewCircuitTask :: "string \<Rightarrow> wn_id \<Rightarrow> ('a proxy_state_scheme, unit) state" where
  "AddNewCircuitTask sessionId whitenoiseId =
     modify (\<lambda>s. s\<lparr>circuitTask := (circuitTask s)(sessionId \<mapsto> whitenoiseId)\<rparr>)"

definition GetCircuitTask :: "string \<Rightarrow> ('a proxy_state_scheme, wn_id \<times> bool) state" where
  "GetCircuitTask sessionId = gets (\<lambda>s. case circuitTask s sessionId of
     None \<Rightarrow> (zero_id, False) | Some i \<Rightarrow> (i, True))"

section \<open>Asking clients to encrypt and decrypt\<close>

definition sealed_request :: "'l lib_scheme \<Rightarrow> string \<Rightarrow> reqtype \<Rightarrow> bytes \<Rightarrow> request" where
  "sealed_request L from ty data =
     (let req = \<lparr>req_ReqId = '''', req_From = from, req_Reqtype = ty, req_Data = data\<rparr>;
          reqNoIDBytes = fst (Marshal (pb_Request L) req);
          hash = Sum256 L reqNoIDBytes
      in req\<lparr>req_ReqId := EncodeMSGIDHash L hash\<rparr>)"

definition NewProxyStream ::
  "('a net_state_scheme, 'e) env_scheme \<Rightarrow> peer_id \<Rightarrow> ('a net_state_scheme, goerr + wn_stream) state" where
  "NewProxyStream E i = NewStream E i PROXY_PROTOCOL"

text \<open>The task of a request that was written: filed, waited for, and deleted on the way out.\<close>

definition await_reply ::
  "('a ack_state_scheme, 'e) env_scheme \<Rightarrow> string \<Rightarrow> ('a ack_state_scheme, ack_result option) state" where
  "await_reply E i = do {
     c \<leftarrow> make_chan;
     RequestAck (ReqAddTask \<lparr>task_Id = i, task_Channel = c\<rparr>);
     result \<leftarrow> await E i;
     RequestAck (ReqDeleteTask i);
     ret result
   }"

text \<open>\<open>DecryptGossip\<close> returns the session, the joint node and an error.\<close>

definition DecryptGossip ::
  "('a relay_state_scheme, 'e) env_scheme \<Rightarrow> relay_cfg \<Rightarrow> 'l lib_scheme \<Rightarrow> peer_id \<Rightarrow> bytes \<Rightarrow>
   ('a relay_state_scheme, string \<times> string \<times> goerr option) state" where
  "DecryptGossip E C L des cypher = do {
     r \<leftarrow> NewProxyStream E des;
     (case r of
        Inl err \<Rightarrow> ret ('''', '''', Some err)
      | Inr s \<Rightarrow>
          (let data = fst (Marshal (pb_Decrypt L) \<lparr>dec_Destination = peer_String L des, dec_Cypher = cypher\<rparr>);
               req = sealed_request L (peer_String L (cfg_hostID C)) Reqtype_DecryptGossip data
           in do {
             err \<leftarrow> WriteMsg E s (fst (Marshal (pb_Request L) req));
             (case err of
                Some e \<Rightarrow> ret ('''', '''', Some e)
              | None \<Rightarrow> do {
                  result \<leftarrow> await_reply E (req_ReqId req);
                  ret (case result of
                    None \<Rightarrow> ('''', '''', Some ''timeout'')
                  | Some res \<Rightarrow>
                      (if \<not> res_Ok res then ('''', '''', Some ''client decrypt err'')
                       else (case Unmarshal (pb_Negotiate L) (res_Data res) of
                               (_, Some e) \<Rightarrow> ('''', '''', Some e)
                             | (neg, None) \<Rightarrow> (neg_SessionId neg, neg_Join neg, None))))
                })
           }))
   }"

definition EncryptGossip ::
  "('a relay_state_scheme, 'e) env_scheme \<Rightarrow> relay_cfg \<Rightarrow> 'l lib_scheme \<Rightarrow> bytes \<Rightarrow> peer_id \<Rightarrow> string \<Rightarrow>
   ('a relay_state_scheme, goerr + bytes) state" where
  "EncryptGossip E C L plaintext caller sessionID = do {
     r \<leftarrow> NewProxyStream E caller;
     (case r of
        Inl err \<Rightarrow> ret (Inl err)
      | Inr s \<Rightarrow>
          (let data = fst (Marshal (pb_NegPlaintext L) \<lparr>npl_SessionId = sessionID, npl_Neg = plaintext\<rparr>);
               req = sealed_request L (peer_String L (cfg_hostID C)) Reqtype_NegPlainText data
           in do {
             err \<leftarrow> WriteMsg E s (fst (Marshal (pb_Request L) req));
             (case err of
                Some e \<Rightarrow> ret (Inl e)
              | None \<Rightarrow> do {
                  result \<leftarrow> await_reply E (req_ReqId req);
                  ret (case result of
                    None \<Rightarrow> Inl ''timeout''
                  | Some res \<Rightarrow>
                      (if \<not> res_Ok res then Inl ''caller encrypt gossip msg err'' else Inr (res_Data res)))
                })
           }))
   }"

section \<open>Opening a circuit\<close>

definition joint_eligible ::
  "relay_cfg \<Rightarrow> 'l lib_scheme \<Rightarrow> peer_id \<Rightarrow> string \<Rightarrow> string set \<Rightarrow> peer_id \<Rightarrow> bool" where
  "joint_eligible C L remote to invalid i =
     (i \<noteq> cfg_hostID C \<and> i \<noteq> remote \<and> peer_String L i \<notin> invalid \<and>
      EncodeMSGIDHash L (Sum256 L (str_bytes (peer_String L i))) \<noteq> to)"

text \<open>
  The retry loop: the result is an error of the future, or whether a joint node was found and
  the last one tried. When no peer is eligible \<open>join\<close> keeps its value.
\<close>

fun try_joint ::
  "('a dht_state_scheme, 'e) node_env_scheme \<Rightarrow> relay_cfg \<Rightarrow> 'l lib_scheme \<Rightarrow> peer_info list \<Rightarrow> peer_id \<Rightarrow>
   new_circuit \<Rightarrow> nat \<Rightarrow> peer_id \<Rightarrow> string set \<Rightarrow>
   ('a dht_state_scheme, (goerr + bool \<times> peer_id) outcome) state" where
  "try_joint E C L peers remote nc 0 join invalid = ret (Returns (Inr (False, join)))"
| "try_joint E C L peers remote nc (Suc i) join invalid = do {
     t \<leftarrow> gets tr;
     (case choose_peer (joint_eligible C L remote (nc_To nc) invalid) peers (rand_Int E t) of
        Panics \<Rightarrow> ret Panics
      | Hangs \<Rightarrow> ret Hangs
      | Returns pick \<Rightarrow>
          (let join = (case pick of Some p \<Rightarrow> p | None \<Rightarrow> join)
           in do {
             fut \<leftarrow> RequestFutureRelay E L
               (ReqNewSessiontoPeer join (nc_SessionId nc) EntryRole JointRole);
             (case fut of
                Inl err \<Rightarrow> ret (Returns (Inl err))
              | Inr (ResError (Some resErr)) \<Rightarrow>
                  try_joint E C L peers remote nc i join (insert (peer_String L join) invalid)
              | Inr (ResError None) \<Rightarrow> ret (Returns (Inr (True, join)))
              | Inr _ \<Rightarrow> ret Panics)
           }))
   }"

text \<open>The client of the same proxy: the proxy acts like a joint node.\<close>

definition same_proxy_circuit ::
  "('a relay_state_scheme, 'e) env_scheme \<Rightarrow> 'l lib_scheme \<Rightarrow> peer_id \<Rightarrow> string \<Rightarrow>
   ('a relay_state_scheme, (bytes \<times> goerr option) outcome) state" where
  "same_proxy_circuit E L peer sid = do {
     fut \<leftarrow> RequestFutureRelay E L (ReqNewSessiontoPeer peer sid ExitRole AnswerRole);
     (case fut of
        Inl err \<Rightarrow> ret (Returns ([], Some err))
      | Inr (ResError (Some resErr)) \<Rightarrow> do {
          RequestRelay (ReqCloseCircuit sid);
          ret (Returns ([], Some resErr))
        }
      | Inr (ResError None) \<Rightarrow> do {
          fut \<leftarrow> RequestFutureRelay E L (ReqSendRelay sid (NewCircuitSuccess L sid));
          (case fut of
             Inl err \<Rightarrow> ret (Returns ([], Some err))
           | Inr (ResError resErr) \<Rightarrow> ret (Returns ([], resErr))
           | Inr _ \<Rightarrow> ret Panics)
        }
      | Inr _ \<Rightarrow> ret Panics)
   }"

text \<open>
  What follows once a joint node has accepted: the caller encrypts the negotiation, it is
  published, and a probe goes to the joint node. When the gossip actor reports an error the
  error that is returned is the one of the future, which is nil.
\<close>

definition announce_circuit ::
  "('a dht_state_scheme, 'e) node_env_scheme \<Rightarrow> relay_cfg \<Rightarrow> 'l lib_scheme \<Rightarrow> peer_id \<Rightarrow> new_circuit \<Rightarrow>
   peer_id \<Rightarrow> ('a dht_state_scheme, (bytes \<times> goerr option) outcome) state" where
  "announce_circuit E C L remote nc join =
     (let neg = \<lparr>neg_Join = peer_String L join, neg_SessionId = nc_SessionId nc,
                 neg_Destination = nc_To nc, neg_Sig = []\<rparr>;
          negData = fst (Marshal (pb_Negotiate L) neg)
      in do {
        r \<leftarrow> EncryptGossip E C L negData remote (nc_SessionId nc);
        (case r of
           Inl err \<Rightarrow> ret (Returns ([], Some err))
         | Inr negCypher \<Rightarrow> do {
             fut \<leftarrow> RequestFutureGossip E L (ReqGossipJoint (nc_To nc) negCypher);
             (case fut of
                Inl err \<Rightarrow> ret (Returns ([], Some err))
              | Inr (ResGossip (Some resErr)) \<Rightarrow> do {
                  RequestRelay (ReqCloseCircuit (nc_SessionId nc));
                  ret (Returns (str_bytes (''GossipJoint err'' @ resErr), None))
                }
              | Inr (ResGossip None) \<Rightarrow> do {
                  fut \<leftarrow> RequestFutureRelay E L
                    (ReqSendRelay (nc_SessionId nc) (fst (NewProbeSignal L (nc_SessionId nc))));
                  (case fut of
                     Inl err \<Rightarrow> ret (Returns ([], Some err))
                   | Inr (ResError resErr) \<Rightarrow> ret (Returns ([], resErr))
                   | Inr _ \<Rightarrow> ret Panics)
                }
              | Inr _ \<Rightarrow> ret Panics)
           })
      })"

text \<open>
  When no joint node was found the message of the error to return is built with \<open>err.Error()\<close>,
  where \<open>err\<close> is the error of the last successful call outside the loop: nil, so this panics.
\<close>

definition HandleNewCircuit ::
  "('a proxy_state_scheme, 'e) node_env_scheme \<Rightarrow> relay_cfg \<Rightarrow> 'l lib_scheme \<Rightarrow> request \<Rightarrow> wn_stream \<Rightarrow>
   ('a proxy_state_scheme, (bytes \<times> goerr option) outcome) state" where
  "HandleNewCircuit E C L request str =
     (let fail = (\<lambda>m. ret (Returns (str_bytes m, Some m)))
      in case Unmarshal (pb_NewCircuit L) (req_Data request) of
           (_, Some err) \<Rightarrow> fail ''Unmarshal newCircuit err''
         | (nc, None) \<Rightarrow> do {
             (clientInfo, ok) \<leftarrow> GetClient (nc_From nc);
             (if \<not> ok \<or> ci_PeerID clientInfo \<noteq> RemotePeer str then fail ''Unmarshal newCircuit err''
              else do {
                fut \<leftarrow> RequestFutureRelay E L (ReqGetSession (nc_SessionId nc));
                (case fut of
                   Inl err \<Rightarrow> ret (Returns ([], Some err))
                 | Inr (ResGetSession sess ok) \<Rightarrow>
                     (if \<not> ok then fail ''No stream for this session yet''
                      else if IsReady sess then fail ''Session is full''
                      else do {
                        (clientInfo, ok) \<leftarrow> GetClient (nc_To nc);
                        (if ok then same_proxy_circuit E L (ci_PeerID clientInfo) (nc_SessionId nc)
                         else do {
                           fut \<leftarrow> RequestFutureGossip E L (ReqDHTPeers ReqDHTPeersMaxAmount);
                           (case fut of
                              Inl err \<Rightarrow> ret (Returns ([], Some err))
                            | Inr (ResDHTPeers peers) \<Rightarrow>
                                obind (try_joint E C L peers (RemotePeer str) nc RetryTimes '''' {}) (\<lambda>r.
                                  case r of
                                    Inl err \<Rightarrow> ret (Returns ([], Some err))
                                  | Inr (False, join) \<Rightarrow> do {
                                      RequestRelay (ReqCloseCircuit (nc_SessionId nc));
                                      ret Panics
                                    }
                                  | Inr (True, join) \<Rightarrow> announce_circuit E C L (RemotePeer str) nc join)
                            | Inr _ \<Rightarrow> ret Panics)
                         })
                      })
                 | Inr _ \<Rightarrow> ret Panics)
              })
           })"

section \<open>The stream handler\<close>

definition HandleDecrypt ::
  "relay_cfg \<Rightarrow> 'l crypto_lib_scheme \<Rightarrow> request \<Rightarrow> (goerr + bytes) outcome" where
  "HandleDecrypt C L request =
     (case Unmarshal (pb_Decrypt L) (req_Data request) of
        (_, Some err) \<Rightarrow> Returns (Inl err)
      | (reqDecrypt, None) \<Rightarrow>
          (case private_ECIESDecrypt L (cfg_accountPriv C) (dec_Cypher reqDecrypt) of
             Panics \<Rightarrow> Panics
           | Hangs \<Rightarrow> Hangs
           | Returns (Inl err) \<Rightarrow> Returns (Inl err)
           | Returns (Inr plain) \<Rightarrow>
               (case Unmarshal (pb_Negotiate L) plain of
                  (_, Some err) \<Rightarrow> Returns (Inl err)
                | (_, None) \<Rightarrow> Returns (Inr plain))))"

definition HandleEncrypt ::
  "('a proxy_state_scheme, 'e) node_env_scheme \<Rightarrow> 'l crypto_lib_scheme \<Rightarrow> request \<Rightarrow>
   ('a proxy_state_scheme, goerr + bytes) state" where
  "HandleEncrypt E L request =
     (case Unmarshal (pb_NegPlaintext L) (req_Data request) of
        (_, Some err) \<Rightarrow> ret (Inl err)
      | (negPlaintext, None) \<Rightarrow> do {
          (whitenoise, ok) \<leftarrow> GetCircuitTask (npl_SessionId negPlaintext);
          t \<leftarrow> gets tr;
          (if \<not> ok then ret (Inl ''session not exist'')
           else (case id_PublicKey L whitenoise of
                   Inl err \<Rightarrow> ret (Inl err)
                 | Inr pk \<Rightarrow>
                     ret (public_ECIESEncrypt L pk (npl_Neg negPlaintext) (rand_Reader E t))))
        })"

definition node_infos :: "'l lib_scheme \<Rightarrow> peer_info list \<Rightarrow> node_info list" where
  "node_infos L ps = map (\<lambda>p. \<lparr>ni_Id = peer_String L (ai_ID p), ni_Addr = ai_Addrs p\<rparr>) ps"

text \<open>
  The branches that answer with an acknowledgement return it; \<open>handle_request\<close> is the body of the
  switch, \<^const>\<open>None\<close> when nothing is sent back.
\<close>

definition handle_main_net_peers ::
  "('a dht_state_scheme, 'e) node_env_scheme \<Rightarrow> 'l lib_scheme \<Rightarrow> request \<Rightarrow> pb_ack \<Rightarrow>
   ('a dht_state_scheme, pb_ack option outcome) state" where
  "handle_main_net_peers E L request ackMsg =
     (case Unmarshal (pb_MainNetPeers L) (req_Data request) of
        (_, Some err) \<Rightarrow> ret (Returns (Some (ackMsg\<lparr>ack_Data := str_bytes ''Unmarshal getMainMetPeers err''\<rparr>)))
      | (getMainMetPeers, None) \<Rightarrow> do {
          fut \<leftarrow> RequestFutureGossip E L (ReqDHTPeers (sint (mnp_Max getMainMetPeers)));
          (case fut of
             Inl err \<Rightarrow> ret (Returns (Some (ackMsg\<lparr>ack_Data := str_bytes ''get dht peers err''\<rparr>)))
           | Inr (ResDHTPeers peerInfos) \<Rightarrow>
               (case Marshal (pb_PeersList L) \<lparr>pl_Peers = node_infos L peerInfos\<rparr> of
                  (_, Some err) \<Rightarrow> ret (Returns (Some (ackMsg\<lparr>ack_Data := str_bytes ''marshall peersList err''\<rparr>)))
                | (data, None) \<Rightarrow> ret (Returns (Some (ackMsg\<lparr>ack_Data := data, ack_Result := True\<rparr>))))
           | Inr _ \<Rightarrow> ret Panics)
        })"

definition handle_new_proxy ::
  "'l lib_scheme \<Rightarrow> request \<Rightarrow> wn_stream \<Rightarrow> pb_ack \<Rightarrow> ('a proxy_state_scheme, pb_ack option outcome) state" where
  "handle_new_proxy L request str ackMsg =
     (case Unmarshal (pb_NewProxy L) (req_Data request) of
        (_, Some err) \<Rightarrow> ret (Returns (Some (ackMsg\<lparr>ack_Data := str_bytes ''Unmarshal newProxy err''\<rparr>)))
      | (newProxyReq, None) \<Rightarrow>
          (case WhiteNoiseIDfromString L (np_WhiteNoiseID newProxyReq) of
             Panics \<Rightarrow> ret Panics
           | Hangs \<Rightarrow> ret Hangs
           | Returns (Inl err) \<Rightarrow> ret (Returns (Some (ackMsg\<lparr>ack_Result := False, ack_Data := str_bytes err\<rparr>)))
           | Returns (Inr whiteNoiseID) \<Rightarrow> do {
               (_, ok) \<leftarrow> GetClient (id_Hash L whiteNoiseID);
               (if ok then ret (Returns (Some (ackMsg\<lparr>ack_Data := str_bytes ''Proxy already''\<rparr>)))
                else
                  (let duration = (case ParseDuration L (np_Time newProxyReq) of
                         (_, Some err) \<Rightarrow> ProxySerivceTime | (d, None) \<Rightarrow> d)
                   in do {
                     AddClient L (id_Hash L whiteNoiseID) \<lparr>ci_WhiteNoiseID = whiteNoiseID,
                       ci_PeerID = RemotePeer str, ci_state = 1, ci_time = duration\<rparr>;
                     ret (Returns (Some (ackMsg\<lparr>ack_Result := True\<rparr>)))
                   }))
             }))"

definition handle_request ::
  "('a proxy_state_scheme, 'e) node_env_scheme \<Rightarrow> relay_cfg \<Rightarrow> 'l crypto_lib_scheme \<Rightarrow> request \<Rightarrow>
   wn_stream \<Rightarrow> ('a proxy_state_scheme, pb_ack option outcome) state" where
  "handle_request E C L request str =
     (let ackMsg = \<lparr>ack_CommandId = req_ReqId request, ack_Result = False, ack_Data = []\<rparr>
      in case req_Reqtype request of
           Reqtype_MainNetPeers \<Rightarrow> handle_main_net_peers E L request ackMsg
         | Reqtype_NewProxy \<Rightarrow> handle_new_proxy L request str ackMsg
         | Reqtype_NewCircuit \<Rightarrow>
             obind (HandleNewCircuit E C L request str) (\<lambda>(errMsg, err).
               ret (Returns (Some (case err of
                 Some _ \<Rightarrow> ackMsg\<lparr>ack_Data := errMsg, ack_Result := False\<rparr>
               | None \<Rightarrow> ackMsg\<lparr>ack_Result := True\<rparr>))))
         | Reqtype_DecryptGossip \<Rightarrow>
             ret (case HandleDecrypt C L request of
               Panics \<Rightarrow> Panics
             | Hangs \<Rightarrow> Hangs
             | Returns (Inl err) \<Rightarrow> Returns (Some (ackMsg\<lparr>ack_Result := False\<rparr>))
             | Returns (Inr plaintext) \<Rightarrow> Returns (Some (ackMsg\<lparr>ack_Result := True, ack_Data := plaintext\<rparr>)))
         | Reqtype_NegPlainText \<Rightarrow> do {
             r \<leftarrow> HandleEncrypt E L request;
             ret (case r of
               Inl err \<Rightarrow> Returns (Some (ackMsg\<lparr>ack_Result := False\<rparr>))
             | Inr cypher \<Rightarrow> Returns (Some (ackMsg\<lparr>ack_Result := True, ack_Data := cypher\<rparr>)))
           }
         | Reqtype_UnRegisterType \<Rightarrow> do {
             UnRegisterClient L (RemotePeer str);
             ret (Returns None)
           }
         | _ \<Rightarrow> ret (Returns None))"

definition ProxyStreamHandler ::
  "('a proxy_state_scheme, 'e) node_env_scheme \<Rightarrow> relay_cfg \<Rightarrow> 'l crypto_lib_scheme \<Rightarrow> wn_stream \<Rightarrow>
   goerr + bytes \<Rightarrow> ('a proxy_state_scheme, unit outcome) state" where
  "ProxyStreamHandler E C L str rd = do {
     r \<leftarrow> (case rd of
        Inl err \<Rightarrow> ret (Returns ())
      | Inr payloadBytes \<Rightarrow>
          (case Unmarshal (pb_Request L) payloadBytes of
             (_, Some err) \<Rightarrow> ret (Returns ())
           | (request, None) \<Rightarrow>
               obind (handle_request E C L request str) (\<lambda>a. do {
                 (case a of Some ackMsg \<Rightarrow> RequestAck (ReqAck ackMsg (RemotePeer str)) | None \<Rightarrow> ret ());
                 ret (Returns ())
               })));
     CloseStream str;
     ret r
   }"

section \<open>The actor\<close>

definition proxy_Receive ::
  "('a proxy_state_scheme, 'e) env_scheme \<Rightarrow> relay_cfg \<Rightarrow> 'l lib_scheme \<Rightarrow> proxy_req \<Rightarrow>
   ('a proxy_state_scheme, proxy_res) state" where
  "proxy_Receive E C L msg =
     (case msg of
        ReqGetClient destination \<Rightarrow> do {
          (info, ok) \<leftarrow> GetClient destination;
          ret (ResGetClient info ok)
        }
      | ReqDecrypt cipherText des \<Rightarrow> do {
          (sessionId, join, err) \<leftarrow> DecryptGossip E C L des cipherText;
          ret (ResDecrypt join sessionId err)
        }
      | ReqUnregister peerId \<Rightarrow> do { UnRegisterClient L peerId; ret NoProxyResponse })"

definition RequestProxy :: "proxy_req \<Rightarrow> ('a proxy_state_scheme, unit) state" where
  "RequestProxy m = modify (\<lambda>s. s\<lparr>proxyMail := proxyMail s @ [m]\<rparr>)"

fun proxy_receive_all ::
  "('a proxy_state_scheme, 'e) env_scheme \<Rightarrow> relay_cfg \<Rightarrow> 'l lib_scheme \<Rightarrow> proxy_req list \<Rightarrow>
   ('a proxy_state_scheme, unit) state" where
  "proxy_receive_all E C L [] = ret ()"
| "proxy_receive_all E C L (m # ms) = do { proxy_Receive E C L m; proxy_receive_all E C L ms }"

definition RequestFutureProxy ::
  "('a proxy_state_scheme, 'e) env_scheme \<Rightarrow> relay_cfg \<Rightarrow> 'l lib_scheme \<Rightarrow> proxy_req \<Rightarrow>
   ('a proxy_state_scheme, goerr + proxy_res) state" where
  "RequestFutureProxy E C L m = do {
     t \<leftarrow> gets tr;
     emit EFuture;
     (if fut_late E t then do { RequestProxy m; ret (Inl future_timeout) }
      else do {
        older \<leftarrow> gets proxyMail;
        modify (\<lambda>s. s\<lparr>proxyMail := []\<rparr>);
        proxy_receive_all E C L older;
        res \<leftarrow> proxy_Receive E C L m;
        ret (Inr res)
      })
   }"

section \<open>Invariant\<close>

interpretation client_map: sync_map clientWNMap store_client delete_client
  by unfold_locales (auto simp: store_client_def delete_client_def)

interpretation client_peer_map: sync_map clientPeerMap store_peer delete_peer
  by unfold_locales (auto simp: store_peer_def delete_peer_def)

text \<open>
  A client is filed under the hash of its identifier, and a peer is filed with an identifier
  whose entry is that peer's.
\<close>

definition clients_ok :: "'l lib_scheme \<Rightarrow> (string \<rightharpoonup> client_info) \<Rightarrow> (string \<rightharpoonup> wn_id) \<Rightarrow> bool" where
  "clients_ok L wn pe =
     ((\<forall>h info. wn h = Some info \<longrightarrow> id_Hash L (ci_WhiteNoiseID info) = h) \<and>
      (\<forall>p i. pe p = Some i \<longrightarrow> (\<exists>info. wn (id_Hash L i) = Some info \<and>
         peer_String L (ci_PeerID info) = p \<and> ci_WhiteNoiseID info = i)))"

definition clients_inv :: "'l lib_scheme \<Rightarrow> 'a proxy_state_scheme \<Rightarrow> bool" where
  "clients_inv L s = clients_ok L (clientWNMap s) (clientPeerMap s)"

definition proxy_ok ::
  "'l crypto_lib_scheme \<Rightarrow> (nat \<times> string \<times> wn_id) set \<Rightarrow> 'a proxy_state_scheme \<Rightarrow> bool" where
  "proxy_ok L K = relay_ok L K (clients_inv L)"

text \<open>What the proxy relies on while it waits for an acknowledgement.\<close>

abbreviation proxy_await_ok ::
  "'l crypto_lib_scheme \<Rightarrow> ('a proxy_state_scheme, 'e) env_scheme \<Rightarrow> bool" where
  "proxy_await_ok L E \<equiv> await_ok L (clients_inv L) E"

lemma clients_on_more:
  fixes s t :: "'a proxy_state_scheme"
  assumes "relay_state.more s = relay_state.more t"
  shows "clientWNMap s = clientWNMap t" and "clientPeerMap s = clientPeerMap t"
  using assms by (cases s, cases t, simp)+

lemma clients_inv_on_more [simp]: "on_more (clients_inv L)"
  unfolding on_more_def clients_inv_def
  by (intro allI impI arg_cong2 [where f = "clients_ok L"] clients_on_more)

lemma clients_ok_add:
  assumes "clients_ok L wn pe" and "wn h = None" and "id_Hash L (ci_WhiteNoiseID info) = h"
    and "peer_String L (ci_PeerID info) = p"
  shows "clients_ok L (wn(h \<mapsto> info)) (pe(p \<mapsto> ci_WhiteNoiseID info))"
  using assms unfolding clients_ok_def by (auto simp: fun_upd_def) (metis option.distinct(1))

lemma clients_ok_remove:
  assumes "clients_ok L wn pe" and "pe p = Some i"
  shows "clients_ok L (wn(id_Hash L i := None)) (pe(p := None))"
proof -
  obtain info where "wn (id_Hash L i) = Some info" "peer_String L (ci_PeerID info) = p"
    using assms unfolding clients_ok_def by blast
  then have "id_Hash L j \<noteq> id_Hash L i" if "pe q = Some j" "q \<noteq> p" for q j
    using assms(1) that unfolding clients_ok_def by (metis option.inject)
  then show ?thesis using assms(1) unfolding clients_ok_def by auto
qed

lemma proxy_ok_frame [simp]:
  "proxy_ok L K (s\<lparr>gossipMail := q\<rparr>) = proxy_ok L K s"
  "proxy_ok L K (s\<lparr>proxyMail := r\<rparr>) = proxy_ok L K s"
  "proxy_ok L K (s\<lparr>circuitTask := m\<rparr>) = proxy_ok L K s"
  by (simp_all add: proxy_ok_def relay_ok_def relay_inv_def entries_defs holds_def clients_inv_def)

lemma proxy_ok_clients:
  "proxy_ok L K s \<Longrightarrow> clients_ok L wn pe \<Longrightarrow>
   proxy_ok L K (s\<lparr>clientWNMap := wn, clientPeerMap := pe\<rparr>)"
  by (simp add: proxy_ok_def relay_ok_def relay_inv_def entries_defs holds_def clients_inv_def)

lemma proxy_okD: "proxy_ok L K s \<Longrightarrow> clients_ok L (clientWNMap s) (clientPeerMap s)"
  by (simp add: proxy_ok_def relay_ok_def holds_def clients_inv_def)

lemma AddClient_ok:
  assumes "proxy_ok L K s" and "clientWNMap s (id_Hash L (ci_WhiteNoiseID info)) = None"
  shows "wp (AddClient L (id_Hash L (ci_WhiteNoiseID info)) info) (\<lambda>_. proxy_ok L K) s"
  using proxy_ok_clients [OF assms(1) clients_ok_add [OF proxy_okD [OF assms(1)] assms(2) refl refl]]
  by (simp add: AddClient_def store_client_def store_peer_def)

lemma RemoveClient_state:
  assumes ok: "proxy_ok L K s"
  shows "wp (RemoveClient L p) (\<lambda>_. proxy_ok L K) s"
proof (cases "clientPeerMap s p")
  case None
  then show ?thesis
    using proxy_ok_clients [OF ok proxy_okD [OF ok]]
    by (simp add: RemoveClient_def delete_peer_def fun_upd_absent ok)
next
  case (Some i)
  then show ?thesis
    using proxy_ok_clients [OF ok clients_ok_remove [OF proxy_okD [OF ok] Some]]
    by (simp add: RemoveClient_def delete_peer_def delete_client_def)
qed

lemma RemoveClient_ok [keeps_intros]: "keeps (proxy_ok L K) (RemoveClient L p)"
  by (rule keepsI) (rule RemoveClient_state)

lemma UnRegisterClient_ok [keeps_intros]: "keeps (proxy_ok L K) (UnRegisterClient L i)"
  unfolding UnRegisterClient_def by (rule RemoveClient_ok)

lemma GetClient_ok [keeps_intros]: "keeps I (GetClient h)"
  unfolding GetClient_def by (intro keeps_intros)

lemma GetCircuitTask_ok [keeps_intros]: "keeps I (GetCircuitTask h)"
  unfolding GetCircuitTask_def by (intro keeps_intros)

lemma AddNewCircuitTask_ok: "keeps (proxy_ok L K) (AddNewCircuitTask sid i)"
  unfolding AddNewCircuitTask_def by (intro keeps_intros) simp

lemma keeps_await_reply: "await_ok L P E \<Longrightarrow> keeps (relay_ok L K P) (await_reply E i)"
  unfolding await_reply_def by (intro keeps_intros keeps_await)

lemma DecryptGossip_ok: "await_ok L P E \<Longrightarrow> keeps (relay_ok L K P) (DecryptGossip E C Lc des c)"
  unfolding DecryptGossip_def NewProxyStream_def Let_def by (intro keeps_intros keeps_await_reply)

lemma EncryptGossip_ok: "await_ok L P E \<Longrightarrow> keeps (relay_ok L K P) (EncryptGossip E C Lc p c sid)"
  unfolding EncryptGossip_def NewProxyStream_def Let_def by (intro keeps_intros keeps_await_reply)

lemma ignores_trace_proxy [keeps_intros]: "ignores_trace (proxy_ok L K)"
  unfolding proxy_ok_def by (rule relay_ok_trace)

lemma gossip_Receive_ok: "keeps (proxy_ok L K) (gossip_Receive E Lc m)"
  unfolding gossip_Receive_def GossipJoint_def NoisePublish_def GetDHTPeers_def Let_def
  by (cases m) (auto intro!: keeps_intros)

lemma RequestFutureGossip_ok [keeps_intros]: "keeps (proxy_ok L K) (RequestFutureGossip E Lc m)"
proof -
  have "keeps (proxy_ok L K) (gossip_receive_all E Lc ms)" for ms
    by (induction ms) (auto intro!: keeps_intros gossip_Receive_ok)
  then show ?thesis
    unfolding RequestFutureGossip_def by (intro keeps_intros gossip_Receive_ok) simp_all
qed

text \<open>The requests to the relay actor and the computations built on them.\<close>

lemma proxy_future:
  "proxy_await_ok L E \<Longrightarrow> req_ok m \<Longrightarrow> keeps (proxy_ok L K) (RequestFutureRelay E Lc m)"
  unfolding proxy_ok_def by (rule RequestFutureRelay_ok)

lemma proxy_request: "req_ok m \<Longrightarrow> keeps (proxy_ok L K) (RequestRelay m)"
  unfolding proxy_ok_def by (rule RequestRelay_ok)

lemma proxy_encrypt: "proxy_await_ok L E \<Longrightarrow> keeps (proxy_ok L K) (EncryptGossip E C Lc p c sid)"
  unfolding proxy_ok_def by (rule EncryptGossip_ok)

lemma proxy_decrypt: "proxy_await_ok L E \<Longrightarrow> keeps (proxy_ok L K) (DecryptGossip E C Lc des c)"
  unfolding proxy_ok_def by (rule DecryptGossip_ok)

lemmas proxy_relay = proxy_future proxy_request proxy_encrypt

lemma req_ok_simps [simp]:
  "req_ok (ReqGetSession i)" "req_ok (ReqNewSessiontoPeer p i r q)" "req_ok (ReqSendRelay i d)"
  "req_ok (ReqCloseCircuit i)" "req_ok (ReqHandleStreamClosed i)"
  by (simp_all add: req_ok_def)

lemma keeps_case_relay_fut:
  "(\<And>e. keeps I (f e)) \<Longrightarrow> (\<And>sess b. keeps I (g sess b)) \<Longrightarrow> (\<And>e. keeps I (h e)) \<Longrightarrow> keeps I k \<Longrightarrow>
   keeps I (case r of Inl e \<Rightarrow> f e | Inr x \<Rightarrow> (case x of ResGetSession sess b \<Rightarrow> g sess b
     | ResError e \<Rightarrow> h e | NoResponse \<Rightarrow> k))"
  by (auto split: sum.split relay_res.split)

lemma keeps_case_gossip_fut:
  "(\<And>e. keeps I (f e)) \<Longrightarrow> (\<And>e. keeps I (g e)) \<Longrightarrow> (\<And>ps. keeps I (h ps)) \<Longrightarrow>
   keeps I (case r of Inl e \<Rightarrow> f e | Inr x \<Rightarrow> (case x of ResGossip e \<Rightarrow> g e | ResDHTPeers ps \<Rightarrow> h ps))"
  by (auto split: sum.split gossip_res.split)

lemma try_joint_ok:
  assumes "proxy_await_ok L E"
  shows "keeps (proxy_ok L K) (try_joint E C Lc peers remote nc i join invalid)"
proof (induction i arbitrary: join invalid)
  case (Suc i)
  show ?case
    unfolding try_joint.simps Let_def
    by (intro keeps_intros keeps_case_relay_fut proxy_relay assms Suc.IH req_ok_simps)
qed (simp add: keeps_return)

lemma same_proxy_circuit_ok:
  "proxy_await_ok L E \<Longrightarrow> keeps (proxy_ok L K) (same_proxy_circuit E Lc peer sid)"
  unfolding same_proxy_circuit_def
  by (intro keeps_intros keeps_case_relay_fut proxy_relay req_ok_simps)

lemma announce_circuit_ok:
  "proxy_await_ok L E \<Longrightarrow> keeps (proxy_ok L K) (announce_circuit E C Lc remote nc join)"
  unfolding announce_circuit_def Let_def
  by (intro keeps_intros keeps_case_relay_fut keeps_case_gossip_fut proxy_relay req_ok_simps)

lemma keeps_case_bool: "keeps I f \<Longrightarrow> keeps I g \<Longrightarrow> keeps I (case b of True \<Rightarrow> f | False \<Rightarrow> g)"
  by (cases b) simp_all

lemma HandleNewCircuit_ok:
  "proxy_await_ok L E \<Longrightarrow> keeps (proxy_ok L K) (HandleNewCircuit E C Lc request str)"
  unfolding HandleNewCircuit_def Let_def
  by (intro keeps_intros keeps_case_relay_fut keeps_case_gossip_fut keeps_case_bool proxy_relay
      same_proxy_circuit_ok announce_circuit_ok try_joint_ok req_ok_simps)

lemma handle_new_proxy_ok: "keeps (proxy_ok L K) (handle_new_proxy L request str ackMsg)"
proof (rule keepsI)
  fix s
  assume ok: "proxy_ok L K s"
  then show "wp (handle_new_proxy L request str ackMsg) (\<lambda>_. proxy_ok L K) s"
    by (auto simp: handle_new_proxy_def Let_def wp_simps GetClient_def split: prod.split option.split
        outcome.split sum.split intro!: AddClient_ok [OF ok, where info = "\<lparr>ci_WhiteNoiseID = i,
          ci_PeerID = RemotePeer str, ci_state = 1, ci_time = d\<rparr>" for i d, simplified])
qed

lemma handle_main_net_peers_ok [keeps_intros]:
  "keeps (proxy_ok L K) (handle_main_net_peers E Lc request ackMsg)"
  unfolding handle_main_net_peers_def by (intro keeps_intros keeps_case_gossip_fut)

lemma handle_request_ok:
  assumes "proxy_await_ok L E"
  shows "keeps (proxy_ok L K) (handle_request E C L request str)"
proof -
  have "keeps (proxy_ok L K) (HandleEncrypt E L request)"
    unfolding HandleEncrypt_def by (intro keeps_intros)
  then show ?thesis
    unfolding handle_request_def Let_def
    by (auto split: reqtype.split intro!: keeps_intros handle_new_proxy_ok HandleNewCircuit_ok assms)
qed

lemma RequestAck_proxy [keeps_intros]: "keeps (proxy_ok L K) (RequestAck m)"
  unfolding proxy_ok_def by (rule keeps_RequestAck)

lemma ProxyStreamHandler_ok:
  "proxy_await_ok L E \<Longrightarrow> keeps (proxy_ok L K) (ProxyStreamHandler E C L str rd)"
  unfolding ProxyStreamHandler_def by (intro keeps_intros handle_request_ok)

lemma proxy_Receive_ok: "proxy_await_ok L E \<Longrightarrow> keeps (proxy_ok L K) (proxy_Receive E C L m)"
  unfolding proxy_Receive_def by (cases m) (auto intro!: keeps_intros proxy_decrypt)

lemma RequestFutureProxy_ok:
  assumes "proxy_await_ok L E"
  shows "keeps (proxy_ok L K) (RequestFutureProxy E C L m)"
proof -
  have "keeps (proxy_ok L K) (proxy_receive_all E C L ms)" for ms
    by (induction ms) (auto intro!: keeps_intros proxy_Receive_ok assms)
  then show ?thesis
    unfolding RequestFutureProxy_def RequestProxy_def
    by (intro keeps_intros proxy_Receive_ok assms) simp_all
qed

section \<open>What the handlers do\<close>

lemma handle_new_proxy_fresh:
  assumes "Unmarshal (pb_NewProxy L) (req_Data r) = (np, None)"
    and "WhiteNoiseIDfromString L (np_WhiteNoiseID np) = Returns (Inr i)"
    and "clientWNMap s (id_Hash L i) = None" and "ParseDuration L (np_Time np) = (d, None)"
  shows "run_state (handle_new_proxy L r str a) s = (Returns (Some (a\<lparr>ack_Result := True\<rparr>)),
    s\<lparr>clientWNMap := (clientWNMap s)(id_Hash L i \<mapsto> \<lparr>ci_WhiteNoiseID = i, ci_PeerID = RemotePeer str,
         ci_state = 1, ci_time = d\<rparr>),
       clientPeerMap := (clientPeerMap s)(peer_String L (RemotePeer str) \<mapsto> i)\<rparr>)"
  using assms
  by (simp add: handle_new_proxy_def GetClient_def AddClient_def store_client_def store_peer_def)

lemma handle_new_proxy_known:
  assumes "Unmarshal (pb_NewProxy L) (req_Data r) = (np, None)"
    and "WhiteNoiseIDfromString L (np_WhiteNoiseID np) = Returns (Inr i)"
    and "clientWNMap s (id_Hash L i) = Some info"
  shows "run_state (handle_new_proxy L r str a) s =
    (Returns (Some (a\<lparr>ack_Data := str_bytes ''Proxy already''\<rparr>)), s)"
  using assms by (simp add: handle_new_proxy_def GetClient_def)

text \<open>When no relay stream can be opened every attempt fails.\<close>

definition unreachable :: "('s, 'e) node_env_scheme \<Rightarrow> bool" where
  "unreachable E = (\<forall>t p. (\<exists>e. open_res E t p RelayProtocol = Inl e) \<and> \<not> fut_late E t \<and>
     0 \<le> sint (rand_Int E t) \<and> sint (rand_Int E t) < 2 ^ 62)"

lemma unreachable_relay:
  assumes "unreachable E" and "relayMail s = []"
  shows "wp (RequestFutureRelay E L (ReqNewSessiontoPeer p sid r q)) (\<lambda>x t.
     (\<exists>e. x = Inr (ResError (Some e))) \<and> t = s\<lparr>tr := tr s @ [EFuture, EOpenErr p RelayProtocol]\<rparr>) s"
proof -
  have "s\<lparr>relayMail := [], tr := x\<rparr> = s\<lparr>tr := x\<rparr>" for x using assms(2) by (cases s) simp
  moreover obtain e where "open_res E (tr s @ [EFuture]) p RelayProtocol = Inl e"
    using assms(1) unfolding unreachable_def by blast
  ultimately show ?thesis
    using assms by (auto simp: unreachable_def RequestFutureRelay_def relay_Receive_def
        NewSessionToPeer_def NewRelayStream_def wp_simps)
qed

lemma try_joint_unreachable:
  assumes "unreachable E" and "length peers < 2 ^ 62"
  shows "relayMail s = [] \<Longrightarrow> wp (try_joint E C L peers remote nc n join invalid) (\<lambda>r t.
     (\<exists>j. r = Returns (Inr (False, j))) \<and> (\<exists>u. t = s\<lparr>tr := u\<rparr>)) s"
proof (induction n arbitrary: s join invalid)
  case (Suc n)
  let ?el = "joint_eligible C L remote (nc_To nc) invalid"
  have b: "0 \<le> sint (rand_Int E (tr s))" "sint (rand_Int E (tr s)) < 2 ^ 62"
    using assms(1) by (auto simp: unreachable_def)
  have "int (length peers) < 2 ^ 62" using assms(2) by simp
  with b obtain c where c: "choose_peer ?el peers (rand_Int E (tr s)) = Returns c"
    using choose_peer_rotate [of "rand_Int E (tr s)" peers ?el] by auto
  have IH: "wp (try_joint E C L peers remote nc n j inv) (\<lambda>r t.
     (\<exists>j. r = Returns (Inr (False, j))) \<and> (\<exists>u. t = s\<lparr>tr := u\<rparr>)) (s\<lparr>tr := v\<rparr>)" for j inv v
    using Suc.IH [of "s\<lparr>tr := v\<rparr>" j inv] Suc.prems by simp
  show ?case
    using Suc.prems
    by (auto simp: c Let_def intro!: wp_mono [OF unreachable_relay [OF assms(1)]] IH)
next
  case 0
  then show ?case by (auto intro: exI [of _ "tr s"])
qed

text \<open>
  The joint node that accepts is a peer of the list that the retry loop may choose, or the one it
  started with.
\<close>

lemma try_joint_hop:
  "wp (try_joint E C L peers remote nc n join invalid) (\<lambda>r t. \<forall>j. r = Returns (Inr (True, j)) \<longrightarrow>
     j = join \<or> j \<in> ai_ID ` set peers \<and> joint_eligible C L remote (nc_To nc) {} j) s"
proof (induction n arbitrary: s join invalid)
  case (Suc n)
  have el: "joint_eligible C L remote (nc_To nc) inv j \<Longrightarrow> joint_eligible C L remote (nc_To nc) {} j" for inv j
    by (simp add: joint_eligible_def)
  show ?case
  proof (cases "choose_peer (joint_eligible C L remote (nc_To nc) invalid) peers (rand_Int E (tr s))")
    case (Returns pick)
    let ?join = "case pick of Some p \<Rightarrow> p | None \<Rightarrow> join"
    have "?join = join \<or> ?join \<in> ai_ID ` set peers \<and> joint_eligible C L remote (nc_To nc) {} ?join"
      using choose_peer_sound [of "joint_eligible C L remote (nc_To nc) invalid" peers "rand_Int E (tr s)"]
        Returns el by (auto split: option.split)
    then have "wp (try_joint E C L peers remote nc n ?join inv) (\<lambda>r t. \<forall>j. r = Returns (Inr (True, j)) \<longrightarrow>
        j = join \<or> j \<in> ai_ID ` set peers \<and> joint_eligible C L remote (nc_To nc) {} j) u" for inv u
      by (intro wp_mono [OF Suc.IH [where join = "?join" and invalid = inv]]) auto
    with \<open>?join = join \<or> _\<close> Returns show ?thesis
      by (auto simp: Let_def wp_run split: sum.split relay_res.split option.split prod.split)
  qed simp_all
qed simp

section \<open>Properties\<close>

text \<open>
  C29: registering and unregistering are inverse: a client that registers from a peer with no other
  registration is acknowledged and found under the hash of its identifier with that peer, and when
  the peer unregisters both tables are what they were.
\<close>

theorem register_then_unregister:
  assumes "Unmarshal (pb_NewProxy L) (req_Data r) = (np, None)"
    and "WhiteNoiseIDfromString L (np_WhiteNoiseID np) = Returns (Inr i)"
    and "clientWNMap s (id_Hash L i) = None" and "clientPeerMap s (peer_String L (RemotePeer str)) = None"
    and "ParseDuration L (np_Time np) = (d, None)"
  shows "wp (handle_new_proxy L r str a) (\<lambda>res t.
     res = Returns (Some (a\<lparr>ack_Result := True\<rparr>)) \<and>
     run_state (GetClient (id_Hash L i)) t = ((\<lparr>ci_WhiteNoiseID = i, ci_PeerID = RemotePeer str,
         ci_state = 1, ci_time = d\<rparr>, True), t) \<and>
     run_state (UnRegisterClient L (RemotePeer str)) t = ((), s)) s"
  using assms handle_new_proxy_fresh [OF assms(1-3,5), of str a]
  by (cases s) (simp add: wp_run GetClient_def UnRegisterClient_def RemoveClient_def
      delete_client_def delete_peer_def fun_upd_idem)

text \<open>
  A proxy opens circuits for its own clients only: a request whose caller is not registered, or is
  registered from another peer, is answered with an error and changes nothing: no session, no
  stream, no message.
\<close>

theorem unregistered_client_refused:
  assumes "Unmarshal (pb_NewCircuit L) (req_Data r) = (nc, None)"
    and "\<And>info. clientWNMap s (nc_From nc) = Some info \<Longrightarrow> ci_PeerID info \<noteq> RemotePeer str"
  shows "run_state (HandleNewCircuit E C L r str) s =
    (Returns (str_bytes ''Unmarshal newCircuit err'', Some ''Unmarshal newCircuit err''), s)"
  using assms by (auto simp: HandleNewCircuit_def GetClient_def Let_def split: option.split)

text \<open>
  C37: a proxy that finds no joint node crashes: when no relay stream can be opened, a well-formed
  circuit request of a registered client for a remote client panics after the retries, because the
  error whose text it wants to report is nil.
\<close>

theorem no_joint_panics:
  assumes "Unmarshal (pb_NewCircuit L) (req_Data r) = (nc, None)"
    and "clientWNMap s (nc_From nc) = Some info" and "ci_PeerID info = RemotePeer str"
    and "clientWNMap s (nc_To nc) = None"
    and "sessionMap s (nc_SessionId nc) = Some sess" and "\<not> IsReady sess"
    and "relayMail s = []" and "gossipMail s = []"
    and "unreachable E" and "\<And>t. length (ListPeers E t) \<le> 100"
  shows "wp (HandleNewCircuit E C L r str) (\<lambda>res t. res = Panics) s"
proof -
  have late: "\<not> fut_late E t" for t using assms(9) by (simp add: unreachable_def)
  have g: "wp (RequestFutureRelay E L (ReqGetSession (nc_SessionId nc))) Q s =
      Q (Inr (ResGetSession sess True)) (s\<lparr>tr := tr s @ [EFuture]\<rparr>)" for Q
    using assms(5,7) late
    by (cases s) (simp add: RequestFutureRelay_def relay_Receive_def GetSession_def wp_simps)
  let ?t = "s\<lparr>tr := tr s @ [EFuture]\<rparr>"
  have p: "wp (RequestFutureGossip E L (ReqDHTPeers ReqDHTPeersMaxAmount)) Q ?t =
      Q (Inr (ResDHTPeers (map (FindLocal E (tr s @ [EFuture, EFuture])) (ListPeers E (tr s @ [EFuture, EFuture])))))
        (s\<lparr>tr := tr s @ [EFuture, EFuture]\<rparr>)" for Q
    using assms(8) late assms(10) [of "tr s @ [EFuture, EFuture]"]
    by (cases s) (simp add: RequestFutureGossip_def gossip_Receive_def GetDHTPeers_def
        ReqDHTPeersMaxAmount_def Let_def wp_simps)
  have "length (map (FindLocal E u) (ListPeers E u)) < 2 ^ 62" for u
    using assms(10) [of u] by simp
  note j = try_joint_unreachable [OF assms(9) this, where s = "s\<lparr>tr := tr s @ [EFuture, EFuture]\<rparr>"]
  show ?thesis
    using assms(1-6)
    by (simp add: HandleNewCircuit_def Let_def GetClient_def g p)
      (rule wp_obind_step [OF j], simp add: assms(7), auto simp: RequestRelay_def)
qed

text \<open>
  One request crashes a proxy: a registration whose WhiteNoise identifier is the empty string
  panics.
\<close>

theorem empty_id_crash:
  assumes "Unmarshal (pb_NewProxy L) (req_Data r) = (np, None)" and "np_WhiteNoiseID np = []"
    and "req_Reqtype r = Reqtype_NewProxy" and "Unmarshal (pb_Request L) b = (r, None)"
  shows "wp (ProxyStreamHandler E C L str (Inr b)) (\<lambda>res t. res = Panics) s"
  using assms
  by (simp add: ProxyStreamHandler_def handle_request_def Let_def handle_new_proxy_def
      WhiteNoiseIDfromString_def wp_simps)

text \<open>
  A peer that registers two identifiers and unregisters leaves its first client behind: the
  table of peers remembers the second one only, and no later unregistration of the peer removes the
  first.
\<close>

theorem stale_client:
  assumes "clientWNMap s (id_Hash L (ci_WhiteNoiseID c1)) = None"
    and "id_Hash L (ci_WhiteNoiseID c1) \<noteq> id_Hash L (ci_WhiteNoiseID c2)"
    and "ci_PeerID c1 = p" and "ci_PeerID c2 = p"
  shows "wp (do {
       AddClient L (id_Hash L (ci_WhiteNoiseID c1)) c1;
       AddClient L (id_Hash L (ci_WhiteNoiseID c2)) c2;
       UnRegisterClient L p
     }) (\<lambda>_ t. clientWNMap t (id_Hash L (ci_WhiteNoiseID c1)) = Some c1 \<and>
       clientWNMap t (id_Hash L (ci_WhiteNoiseID c2)) = None \<and>
       run_state (UnRegisterClient L p) t = ((), t)) s"
  using assms
  by (cases s) (simp add: AddClient_def store_client_def store_peer_def UnRegisterClient_def RemoveClient_def
      delete_client_def delete_peer_def wp_run fun_upd_idem)

text \<open>
  A circuit whose negotiation could not be published is acknowledged as a success: the error that
  is returned is the nil error of the future, the text of the gossip error is its data, and the
  request to close the circuit is queued.
\<close>

theorem gossip_error_acknowledged:
  assumes "run_state (EncryptGossip E C L (fst (Marshal (pb_Negotiate L) \<lparr>neg_Join = peer_String L join,
        neg_SessionId = nc_SessionId nc, neg_Destination = nc_To nc, neg_Sig = []\<rparr>))
        remote (nc_SessionId nc)) s = (Inr cypher, t)"
    and "gossipMail t = []" and "\<not> fut_late E (tr t)"
    and "Marshal (pb_EncryptedNeg L) \<lparr>en_Des = nc_To nc, en_Cypher = cypher\<rparr> = (b, None)"
    and "publish_res E (tr t @ [EFuture]) b = Some e"
  shows "run_state (announce_circuit E C L remote nc join) s =
    (Returns (str_bytes (''GossipJoint err'' @ e), None),
     t\<lparr>tr := tr t @ [EFuture], relayMail := relayMail t @ [ReqCloseCircuit (nc_SessionId nc)]\<rparr>)"
  using assms
  by (cases t) (simp add: announce_circuit_def Let_def RequestFutureGossip_def gossip_Receive_def
      GossipJoint_def NoisePublish_def RequestRelay_def emit_def)

end
