(* ===== verification/WN_Command.thy ===== *)
theory WN_Command
  imports WN_Proxy
begin

text \<open>
  \<^verbatim>\<open>protocol/command\<close>: the exit node of a circuit commands its relay node to extend the circuit to
  the joint node (\<open>ExpendSession\<close>), and the relay node carries it out (\<open>CmdStreamHandler\<close>).
\<close>

datatype cmd_req = ReqExpendSession peer_id peer_id string

record cmd_state = proxy_state +
  cmdMail :: "cmd_req list"

definition CMD_PROTOCOL :: string where "CMD_PROTOCOL = ''/cmd''"

section \<open>Carrying out a command\<close>

text \<open>
  The answer to a \<open>SessionExpend\<close> command. An answer of the relay actor that is missing is a nil
  interface: \<open>res.(relay.ResError)\<close> panics on it.
\<close>

definition handle_expend ::
  "('a relay_state_scheme, 'e) env_scheme \<Rightarrow> 'l lib_scheme \<Rightarrow> command \<Rightarrow> wn_stream \<Rightarrow>
   ('a relay_state_scheme, unit outcome) state" where
  "handle_expend E L command str =
     (let ackMsg = \<lparr>ack_CommandId = cmd_CommandId command, ack_Result = False, ack_Data = []\<rparr>;
          sendAck = (\<lambda>a. RequestAck (ReqAck a (RemotePeer str)))
      in case Unmarshal (pb_SessionExpend L) (cmd_Data command) of
           (_, Some err) \<Rightarrow> ret (Returns ())
         | (cmd, None) \<Rightarrow> do {
             fut \<leftarrow> RequestFutureRelay E L (ReqGetSession (se_SessionId cmd));
             (case fut of
                Inl err \<Rightarrow> ret (Returns ())
              | Inr (ResGetSession sess ok) \<Rightarrow>
                  (if \<not> ok then do {
                     RequestRelay (ReqCloseCircuit (se_SessionId cmd));
                     sendAck (ackMsg\<lparr>ack_Data := str_bytes ''No such session''\<rparr>);
                     ret (Returns ())
                   }
                   else if IsReady sess then do {
                     sendAck (ackMsg\<lparr>ack_Result := True\<rparr>);
                     fut \<leftarrow> RequestFutureRelay E L
                       (ReqSendRelay (se_SessionId cmd) (NewCircuitSuccess L (se_SessionId cmd)));
                     ret (case fut of Inr (ResError _) \<Rightarrow> Returns () | _ \<Rightarrow> Panics)
                   }
                   else
                     (case peer_Decode L (se_PeerId cmd) of
                        (_, Some err) \<Rightarrow> do {
                          RequestRelay (ReqCloseCircuit (se_SessionId cmd));
                          sendAck (ackMsg\<lparr>ack_Data := str_bytes ''Decode peerid error''\<rparr>);
                          ret (Returns ())
                        }
                      | (i, None) \<Rightarrow> do {
                          fut \<leftarrow> RequestFutureRelay E L
                            (ReqNewSessiontoPeer i (se_SessionId cmd) RelayRole JointRole);
                          (case fut of
                             Inl err \<Rightarrow> ret (Returns ())
                           | Inr (ResError (Some resErr)) \<Rightarrow> do {
                               RequestRelay (ReqCloseCircuit (se_SessionId cmd));
                               sendAck (ackMsg\<lparr>ack_Data := str_bytes ''NewSessionToPeer error''\<rparr>);
                               ret (Returns ())
                             }
                           | Inr (ResError None) \<Rightarrow> do {
                               sendAck (ackMsg\<lparr>ack_Result := True\<rparr>);
                               ret (Returns ())
                             }
                           | Inr _ \<Rightarrow> ret Panics)
                        }))
              | Inr _ \<Rightarrow> ret Panics)
           })"

text \<open>The error of unmarshalling the command is logged only; the command is used as it is.\<close>

definition CmdStreamHandler ::
  "('a relay_state_scheme, 'e) env_scheme \<Rightarrow> 'l lib_scheme \<Rightarrow> wn_stream \<Rightarrow> goerr + bytes \<Rightarrow>
   ('a relay_state_scheme, unit outcome) state" where
  "CmdStreamHandler E L str rd = do {
     r \<leftarrow> (case rd of
        Inl err \<Rightarrow> ret (Returns ())
      | Inr payloadBytes \<Rightarrow>
          (let command = fst (Unmarshal (pb_Command L) payloadBytes)
           in case cmd_Type command of
                Cmdtype_SessionExPend \<Rightarrow> handle_expend E L command str
              | Cmdtype_Disconnect \<Rightarrow> ret (Returns ())
              | Cmdtype_other _ \<Rightarrow> ret (Returns ())));
     CloseStream str;
     ret r
   }"

section \<open>Sending a command\<close>

definition ExpendSession ::
  "('a relay_state_scheme, 'e) env_scheme \<Rightarrow> relay_cfg \<Rightarrow> 'l lib_scheme \<Rightarrow> peer_id \<Rightarrow> peer_id \<Rightarrow> string \<Rightarrow>
   ('a relay_state_scheme, goerr option) state" where
  "ExpendSession E C L relay joint sessionId = do {
     r \<leftarrow> NewStream E relay CMD_PROTOCOL;
     (case r of
        Inl err \<Rightarrow> ret (Some err)
      | Inr s \<Rightarrow>
          (case Marshal (pb_SessionExpend L) \<lparr>se_SessionId = sessionId, se_PeerId = peer_String L joint\<rparr> of
             (_, Some err) \<Rightarrow> ret (Some err)
           | (cmdData, None) \<Rightarrow>
               (let pl = \<lparr>cmd_CommandId = '''', cmd_Type = Cmdtype_SessionExPend,
                          cmd_From = peer_String L (cfg_hostID C), cmd_Data = cmdData\<rparr>
                in case Marshal (pb_Command L) pl of
                     (_, Some err) \<Rightarrow> ret (Some err)
                   | (payloadNoId, None) \<Rightarrow>
                       (let pl = pl\<lparr>cmd_CommandId := EncodeMSGIDHash L (Sum256 L payloadNoId)\<rparr>
                        in case Marshal (pb_Command L) pl of
                             (_, Some err) \<Rightarrow> ret (Some err)
                           | (data, None) \<Rightarrow> do {
                               err \<leftarrow> WriteMsg E s data;
                               (case err of
                                  Some e \<Rightarrow> ret (Some e)
                                | None \<Rightarrow> do {
                                    result \<leftarrow> await_reply E (cmd_CommandId pl);
                                    ret (case result of
                                      None \<Rightarrow> Some ''timeout''
                                    | Some res \<Rightarrow>
                                        (if res_Ok res then None
                                         else Some (''cmd rejected: '' @ bytes_str (res_Data res))))
                                  })
                             }))))
   }"

definition cmd_Receive ::
  "('a cmd_state_scheme, 'e) env_scheme \<Rightarrow> relay_cfg \<Rightarrow> 'l lib_scheme \<Rightarrow> cmd_req \<Rightarrow>
   ('a cmd_state_scheme, goerr option) state" where
  "cmd_Receive E C L msg =
     (case msg of ReqExpendSession relay joint sessionId \<Rightarrow> ExpendSession E C L relay joint sessionId)"

fun cmd_receive_all ::
  "('a cmd_state_scheme, 'e) env_scheme \<Rightarrow> relay_cfg \<Rightarrow> 'l lib_scheme \<Rightarrow> cmd_req list \<Rightarrow>
   ('a cmd_state_scheme, unit) state" where
  "cmd_receive_all E C L [] = ret ()"
| "cmd_receive_all E C L (m # ms) = do { cmd_Receive E C L m; cmd_receive_all E C L ms }"

definition RequestFutureCmd ::
  "('a cmd_state_scheme, 'e) env_scheme \<Rightarrow> relay_cfg \<Rightarrow> 'l lib_scheme \<Rightarrow> cmd_req \<Rightarrow>
   ('a cmd_state_scheme, goerr + goerr option) state" where
  "RequestFutureCmd E C L m = do {
     t \<leftarrow> gets tr;
     emit EFuture;
     (if fut_late E t then do {
        modify (\<lambda>s. s\<lparr>cmdMail := cmdMail s @ [m]\<rparr>);
        ret (Inl future_timeout)
      }
      else do {
        older \<leftarrow> gets cmdMail;
        modify (\<lambda>s. s\<lparr>cmdMail := []\<rparr>);
        cmd_receive_all E C L older;
        err \<leftarrow> cmd_Receive E C L m;
        ret (Inr err)
      })
   }"

section \<open>The invariant\<close>

lemma handle_expend_ok:
  assumes "await_ok L P E"
  shows "keeps (relay_ok L K P) (handle_expend E Lc command str)"
  unfolding handle_expend_def Let_def
  by (intro keeps_intros keeps_case_relay_fut RequestFutureRelay_ok assms req_ok_simps)

lemma CmdStreamHandler_ok:
  "await_ok L P E \<Longrightarrow> keeps (relay_ok L K P) (CmdStreamHandler E Lc str rd)"
  unfolding CmdStreamHandler_def Let_def
  by (intro keeps_intros) (auto split: cmdtype.split intro!: keeps_intros handle_expend_ok)

lemma ExpendSession_ok:
  "await_ok L P E \<Longrightarrow> keeps (relay_ok L K P) (ExpendSession E C Lc relay joint sid)"
  unfolding ExpendSession_def Let_def by (intro keeps_intros keeps_await_reply)

lemma proxy_ok_cmdMail [simp]: "proxy_ok L K (s\<lparr>cmdMail := q\<rparr>) = proxy_ok L K s"
  by (simp add: proxy_ok_def relay_ok_def relay_inv_def entries_defs holds_def clients_inv_def)

lemma cmd_Receive_ok: "proxy_await_ok L E \<Longrightarrow> keeps (proxy_ok L K) (cmd_Receive E C Lc m)"
  unfolding cmd_Receive_def proxy_ok_def by (cases m) (simp add: ExpendSession_ok)

lemma RequestFutureCmd_ok:
  assumes "proxy_await_ok L E"
  shows "keeps (proxy_ok L K) (RequestFutureCmd E C Lc m)"
proof -
  have "keeps (proxy_ok L K) (cmd_receive_all E C Lc ms)" for ms
    by (induction ms) (auto intro!: keeps_intros cmd_Receive_ok assms)
  then show ?thesis
    unfolding RequestFutureCmd_def by (intro keeps_intros cmd_Receive_ok assms) simp_all
qed

section \<open>Behaviour\<close>

lemma wp_GetSession_future:
  assumes "relayMail s = []" and "\<not> fut_late E (tr s)" and "sessionMap s i = Some sess"
  shows "wp (RequestFutureRelay E L (ReqGetSession i)) Q s =
    Q (Inr (ResGetSession sess True)) (s\<lparr>tr := tr s @ [EFuture]\<rparr>)"
  using assms
  by (cases s) (simp add: RequestFutureRelay_def relay_Receive_def GetSession_def wp_simps)

text \<open>An incomplete session is extended to the peer that the command names, in the role of a relay.\<close>

lemma handle_expend_extend:
  assumes "Unmarshal (pb_SessionExpend L) (cmd_Data c) = (m, None)"
    and "sessionMap s (se_SessionId m) = Some sess" and "\<not> IsReady sess" and "relayMail s = []"
    and "\<not> fut_late E (tr s)" and "peer_Decode L (se_PeerId m) = (i, None)"
  shows "wp (handle_expend E L c str) Q s =
    wp (RequestFutureRelay E L (ReqNewSessiontoPeer i (se_SessionId m) RelayRole JointRole) \<bind>
        (\<lambda>fut. case fut of
             Inl err \<Rightarrow> ret (Returns ())
           | Inr (ResError (Some resErr)) \<Rightarrow> do {
               RequestRelay (ReqCloseCircuit (se_SessionId m));
               RequestAck (ReqAck \<lparr>ack_CommandId = cmd_CommandId c, ack_Result = False,
                 ack_Data = str_bytes ''NewSessionToPeer error''\<rparr> (RemotePeer str));
               ret (Returns ())
             }
           | Inr (ResError None) \<Rightarrow> do {
               RequestAck (ReqAck \<lparr>ack_CommandId = cmd_CommandId c, ack_Result = True,
                 ack_Data = []\<rparr> (RemotePeer str));
               ret (Returns ())
             }
           | Inr _ \<Rightarrow> ret Panics)) Q (s\<lparr>tr := tr s @ [EFuture]\<rparr>)"
  using assms by (simp add: handle_expend_def Let_def wp_GetSession_future)

section \<open>Properties\<close>

text \<open>
  A command for a session that is complete already is acknowledged; if the relay actor then
  misses the deadline of the success message, the handler panics.
\<close>

theorem expend_late_panics:
  assumes "Unmarshal (pb_SessionExpend L) (cmd_Data c) = (m, None)"
    and "sessionMap s (se_SessionId m) = Some sess" and "IsReady sess" and "relayMail s = []"
    and "\<not> fut_late E (tr s)" and "fut_late E (tr s @ [EFuture])"
  shows "wp (handle_expend E L c str) (\<lambda>r t. r = Panics \<and>
     ackMail t = ackMail s @ [ReqAck \<lparr>ack_CommandId = cmd_CommandId c, ack_Result = True, ack_Data = []\<rparr>
       (RemotePeer str)] \<and>
     relayMail t = [ReqSendRelay (se_SessionId m) (NewCircuitSuccess L (se_SessionId m))]) s"
  using assms
  by (simp add: handle_expend_def Let_def wp_GetSession_future RequestAck_def)
    (simp add: RequestFutureRelay_def RequestRelay_def wp_simps)

end
