(* ===== verification/WN_Gossip.thy ===== *)
theory WN_Gossip
  imports WN_Command
begin

text \<open>
  The rest of \<^verbatim>\<open>network/gossip/pubsub.go\<close>: the exit side of a circuit. Every server reads the
  negotiations that are published (\<open>handleNoiseMsg\<close>); the proxy of the destination has its client
  decrypt them and builds the rest of the circuit, from the client to a relay node and from
  there to the joint node (\<open>handleGossipMsg\<close>). The goroutines the loop starts are entries of
  \<open>gossipJobs\<close>.
\<close>

record node_state = cmd_state +
  gossipJobs :: "(client_info \<times> encrypted_neg) list"

section \<open>Building the exit side\<close>

definition relay_eligible ::
  "relay_cfg \<Rightarrow> 'l lib_scheme \<Rightarrow> peer_id \<Rightarrow> string set \<Rightarrow> peer_id \<Rightarrow> bool" where
  "relay_eligible C L joinNode invalid i =
     (peer_String L i \<notin> invalid \<and> i \<noteq> joinNode \<and> i \<noteq> cfg_hostID C)"

fun try_relay ::
  "('a cmd_state_scheme, 'e) node_env_scheme \<Rightarrow> relay_cfg \<Rightarrow> 'l lib_scheme \<Rightarrow> peer_info list \<Rightarrow> peer_id \<Rightarrow>
   string \<Rightarrow> nat \<Rightarrow> peer_id \<Rightarrow> string set \<Rightarrow>
   ('a cmd_state_scheme, (goerr + bool \<times> peer_id) outcome) state" where
  "try_relay E C L peers joinNode sid 0 relayId invalid = ret (Returns (Inr (False, relayId)))"
| "try_relay E C L peers joinNode sid (Suc i) relayId invalid = do {
     t \<leftarrow> gets tr;
     (case choose_peer (relay_eligible C L joinNode invalid) peers (rand_Int E t) of
        Panics \<Rightarrow> ret Panics
      | Hangs \<Rightarrow> ret Hangs
      | Returns pick \<Rightarrow>
          (let relayId = (case pick of Some p \<Rightarrow> p | None \<Rightarrow> relayId)
           in do {
             fut \<leftarrow> RequestFutureRelay E L (ReqNewSessiontoPeer relayId sid ExitRole RelayRole);
             (case fut of
                Inl err \<Rightarrow> ret (Returns (Inl err))
              | Inr (ResError (Some resErr)) \<Rightarrow>
                  try_relay E C L peers joinNode sid i relayId (insert (peer_String L relayId) invalid)
              | Inr (ResError None) \<Rightarrow> ret (Returns (Inr (True, relayId)))
              | Inr _ \<Rightarrow> ret Panics)
           }))
   }"

text \<open>From a relay node that has accepted to the probe.\<close>

definition finish_exit ::
  "('a cmd_state_scheme, 'e) node_env_scheme \<Rightarrow> relay_cfg \<Rightarrow> 'l lib_scheme \<Rightarrow> peer_id \<Rightarrow> peer_id \<Rightarrow>
   string \<Rightarrow> ('a cmd_state_scheme, unit outcome) state" where
  "finish_exit E C L relayId joinNode sid = do {
     fut \<leftarrow> RequestFutureCmd E C L (ReqExpendSession relayId joinNode sid);
     (case fut of
        Inl err \<Rightarrow> ret (Returns ())
      | Inr (Some resErr) \<Rightarrow> do {
          RequestRelay (ReqCloseCircuit sid);
          ret (Returns ())
        }
      | Inr None \<Rightarrow> do {
          fut \<leftarrow> RequestFutureRelay E L (ReqSendRelay sid (fst (NewProbeSignal L sid)));
          ret (case fut of Inl err \<Rightarrow> Returns () | Inr (ResError _) \<Rightarrow> Returns () | Inr _ \<Rightarrow> Panics)
        })
   }"

text \<open>The error of \<open>peer.Decode\<close> is not looked at.\<close>

definition handleGossipMsg ::
  "('a cmd_state_scheme, 'e) node_env_scheme \<Rightarrow> relay_cfg \<Rightarrow> 'l lib_scheme \<Rightarrow> client_info \<Rightarrow>
   encrypted_neg \<Rightarrow> ('a cmd_state_scheme, unit outcome) state" where
  "handleGossipMsg E C L clientInfo negEnc = do {
     fut \<leftarrow> RequestFutureProxy E C L (ReqDecrypt (en_Cypher negEnc) (ci_PeerID clientInfo));
     (case fut of
        Inl err \<Rightarrow> ret (Returns ())
      | Inr (ResDecrypt join sid (Some err)) \<Rightarrow> ret (Returns ())
      | Inr (ResDecrypt join sid None) \<Rightarrow> do {
          fut \<leftarrow> RequestFutureRelay E L
            (ReqNewSessiontoPeer (ci_PeerID clientInfo) sid ExitRole AnswerRole);
          (case fut of
             Inl err \<Rightarrow> ret (Returns ())
           | Inr (ResError (Some resErr)) \<Rightarrow> do {
               RequestRelay (ReqCloseCircuit sid);
               ret (Returns ())
             }
           | Inr (ResError None) \<Rightarrow>
               (let joinNode = fst (peer_Decode L join)
                in if joinNode = cfg_hostID C then do {
                     fut \<leftarrow> RequestFutureRelay E L (ReqSendRelay sid (NewCircuitSuccess L sid));
                     ret (case fut of Inl err \<Rightarrow> Returns () | Inr (ResError _) \<Rightarrow> Returns () | Inr _ \<Rightarrow> Panics)
                   }
                   else
                     obind (GetDHTPeers E ReqDHTPeersMaxAmount) (\<lambda>peers.
                       obind (try_relay E C L peers joinNode sid RetryTimes '''' {}) (\<lambda>r.
                         case r of
                           Inl err \<Rightarrow> ret (Returns ())
                         | Inr (False, relayId) \<Rightarrow> do {
                             RequestRelay (ReqCloseCircuit sid);
                             ret (Returns ())
                           }
                         | Inr (True, relayId) \<Rightarrow> finish_exit E C L relayId joinNode sid)))
           | Inr _ \<Rightarrow> ret Panics)
        }
      | Inr _ \<Rightarrow> ret Panics)
   }"

text \<open>
  One iteration of the loop, with the result of \<open>noiseSub.Next\<close> as an argument and whether the loop
  goes on as the result. The result of the future is used without a look at its error: when the
  proxy actor is late it is nil and the type assertion panics.
\<close>

definition noise_iter ::
  "('a node_state_scheme, 'e) node_env_scheme \<Rightarrow> relay_cfg \<Rightarrow> 'l lib_scheme \<Rightarrow> goerr + bytes \<Rightarrow>
   ('a node_state_scheme, bool outcome) state" where
  "noise_iter E C L rd =
     (case rd of
        Inl err \<Rightarrow> ret (Returns False)
      | Inr data \<Rightarrow>
          (case Unmarshal (pb_EncryptedNeg L) data of
             (_, Some err) \<Rightarrow> ret (Returns True)
           | (neg, None) \<Rightarrow> do {
               fut \<leftarrow> RequestFutureProxy E C L (ReqGetClient (en_Des neg));
               (case fut of
                  Inr (ResGetClient clientInfo ok) \<Rightarrow> do {
                    (if ok then modify (\<lambda>s. s\<lparr>gossipJobs := gossipJobs s @ [(clientInfo, neg)]\<rparr>) else ret ());
                    ret (Returns True)
                  }
                | _ \<Rightarrow> ret Panics)
             }))"

section \<open>The invariant\<close>

lemma keeps_case_proxy_fut:
  "(\<And>e. keeps I (f e)) \<Longrightarrow> (\<And>c b. keeps I (g c b)) \<Longrightarrow> (\<And>j i e. keeps I (h j i e)) \<Longrightarrow> keeps I k \<Longrightarrow>
   keeps I (case r of Inl e \<Rightarrow> f e | Inr x \<Rightarrow> (case x of ResGetClient c b \<Rightarrow> g c b
     | ResDecrypt j i e \<Rightarrow> h j i e | NoProxyResponse \<Rightarrow> k))"
  by (auto split: sum.split proxy_res.split)

lemma try_relay_ok:
  assumes "proxy_await_ok L E"
  shows "keeps (proxy_ok L K) (try_relay E C Lc peers joinNode sid i relayId invalid)"
proof (induction i arbitrary: relayId invalid)
  case (Suc i)
  show ?case
    unfolding try_relay.simps Let_def
    by (intro keeps_intros keeps_case_relay_fut proxy_relay assms Suc.IH req_ok_simps)
qed (simp add: keeps_return)

lemma finish_exit_ok:
  "proxy_await_ok L E \<Longrightarrow> keeps (proxy_ok L K) (finish_exit E C Lc relayId joinNode sid)"
  unfolding finish_exit_def
  by (intro keeps_intros proxy_relay RequestFutureCmd_ok req_ok_simps)

lemma handleGossipMsg_ok:
  assumes "proxy_await_ok L E"
  shows "keeps (proxy_ok L K) (handleGossipMsg E C L ci neg)"
proof -
  have "keeps (proxy_ok L K) (GetDHTPeers E n)" for n
    unfolding GetDHTPeers_def Let_def by (intro keeps_intros)
  then show ?thesis
    unfolding handleGossipMsg_def Let_def
    by (intro keeps_intros keeps_case_proxy_fut keeps_case_relay_fut keeps_case_bool proxy_relay
        RequestFutureProxy_ok try_relay_ok finish_exit_ok assms req_ok_simps)
qed

lemma proxy_ok_gossipJobs [simp]: "proxy_ok L K (s\<lparr>gossipJobs := q\<rparr>) = proxy_ok L K s"
  by (simp add: proxy_ok_def relay_ok_def relay_inv_def entries_defs holds_def clients_inv_def)

lemma noise_iter_ok:
  "proxy_await_ok L E \<Longrightarrow> keeps (proxy_ok L K) (noise_iter E C L rd)"
  unfolding noise_iter_def
  by (intro keeps_intros keeps_case_proxy_fut RequestFutureProxy_ok) simp_all

section \<open>Behaviour\<close>

text \<open>The proxy actor answers from its table of clients.\<close>

lemma wp_GetClient_future:
  assumes "proxyMail s = []" and "\<not> fut_late E (tr s)"
  shows "wp (RequestFutureProxy E C L (ReqGetClient h)) Q s =
    Q (Inr (case clientWNMap s h of None \<Rightarrow> ResGetClient zero_client False
       | Some info \<Rightarrow> ResGetClient info True)) (s\<lparr>tr := tr s @ [EFuture]\<rparr>)"
  using assms
  by (cases s) (simp add: RequestFutureProxy_def proxy_Receive_def GetClient_def wp_simps
      split: option.split)

text \<open>The relay node that accepts is a peer of the list that may be chosen, or the first one tried.\<close>

lemma try_relay_hop:
  "wp (try_relay E C L peers joinNode sid n relayId invalid) (\<lambda>r t. \<forall>j. r = Returns (Inr (True, j)) \<longrightarrow>
     j = relayId \<or> j \<in> ai_ID ` set peers \<and> relay_eligible C L joinNode {} j) s"
proof (induction n arbitrary: s relayId invalid)
  case (Suc n)
  have el: "relay_eligible C L joinNode inv j \<Longrightarrow> relay_eligible C L joinNode {} j" for inv j
    by (simp add: relay_eligible_def)
  show ?case
  proof (cases "choose_peer (relay_eligible C L joinNode invalid) peers (rand_Int E (tr s))")
    case (Returns pick)
    let ?next = "case pick of Some p \<Rightarrow> p | None \<Rightarrow> relayId"
    have "?next = relayId \<or> ?next \<in> ai_ID ` set peers \<and> relay_eligible C L joinNode {} ?next"
      using choose_peer_sound [of "relay_eligible C L joinNode invalid" peers "rand_Int E (tr s)"]
        Returns el by (auto split: option.split)
    then have "wp (try_relay E C L peers joinNode sid n ?next inv) (\<lambda>r t. \<forall>j. r = Returns (Inr (True, j)) \<longrightarrow>
        j = relayId \<or> j \<in> ai_ID ` set peers \<and> relay_eligible C L joinNode {} j) u" for inv u
      by (intro wp_mono [OF Suc.IH [where relayId = "?next" and invalid = inv]]) auto
    with \<open>?next = relayId \<or> _\<close> Returns show ?thesis
      by (auto simp: Let_def wp_run split: sum.split relay_res.split option.split prod.split)
  qed simp_all
qed simp

section \<open>Properties\<close>



text \<open>
  A node whose proxy actor misses a deadline crashes in the loop that reads negotiations: the
  missing answer is a nil interface on which the type assertion panics.
\<close>

theorem negotiation_late_panics:
  assumes "Unmarshal (pb_EncryptedNeg L) data = (neg, None)" and "fut_late E (tr s)"
  shows "wp (noise_iter E C L (Inr data)) (\<lambda>r t. r = Panics) s"
  using assms by (simp add: noise_iter_def RequestFutureProxy_def RequestProxy_def wp_simps)

end
