(* ===== verification/WN_Account.thy ===== *)
theory WN_Account
  imports WN_Crypto
begin

text \<open>
  \<^verbatim>\<open>common/account/account.go\<close>: the account of a node, a key pair, and how it is kept in a LevelDB
  store. The store is a map from keys to values; \<open>leveldb\<close> gives its errors: a read or a write may
  fail, and the read of an absent key reports \<open>ErrNotFound\<close> with no value. An account may also come
  from a key file, and gives the node its libp2p key.
\<close>

record account =
  KeyType :: int
  pubKey :: public_key
  privKey :: private_key

type_synonym store = "string \<rightharpoonup> bytes"

text \<open>
  Opening the store: the error of \<open>leveldb.OpenFile\<close> may say that the files are corrupted, and then
  they are recovered.
\<close>

record leveldb =
  OpenFile :: "string \<Rightarrow> (goerr \<times> bool) + store"
  RecoverFile :: "string \<Rightarrow> goerr + store"
  put_err :: "string \<Rightarrow> goerr option"
  get_err :: "string \<Rightarrow> goerr option"

definition ErrNotFound :: goerr where "ErrNotFound = ''leveldb: not found''"

definition NewLevelDBStore :: "leveldb \<Rightarrow> string \<Rightarrow> goerr + store" where
  "NewLevelDBStore D file =
     (case OpenFile D file of
        Inr db \<Rightarrow> Inr db
      | Inl (err, corrupted) \<Rightarrow> (if corrupted then RecoverFile D file else Inl err))"

definition OpenLevelDB :: "leveldb \<Rightarrow> string \<Rightarrow> goerr + store" where
  "OpenLevelDB D path = NewLevelDBStore D path"

definition DB_DIR :: string where "DB_DIR = ''./db''"

definition db_Get :: "leveldb \<Rightarrow> store \<Rightarrow> string \<Rightarrow> bytes \<times> goerr option" where
  "db_Get D db k =
     (case get_err D k of
        Some e \<Rightarrow> ([], Some e)
      | None \<Rightarrow> (case db k of None \<Rightarrow> ([], Some ErrNotFound) | Some v \<Rightarrow> (v, None)))"

definition db_Put :: "leveldb \<Rightarrow> store \<Rightarrow> string \<Rightarrow> bytes \<Rightarrow> store \<times> goerr option" where
  "db_Put D db k v = (case put_err D k of Some e \<Rightarrow> (db, Some e) | None \<Rightarrow> (db(k \<mapsto> v), None))"

definition InsertOrUpdateAccount ::
  "'l crypto_lib_scheme \<Rightarrow> leveldb \<Rightarrow> account \<Rightarrow> store \<Rightarrow> store \<times> goerr option" where
  "InsertOrUpdateAccount L D acc db =
     (let pbAccount = \<lparr>pba_Type = word_of_int (KeyType acc), pba_PrivateKey = private_Bytes L (privKey acc),
                       pba_PublicKey = public_Bytes L (pubKey acc)\<rparr>
      in case Marshal (pb_Account L) pbAccount of
           (_, Some err) \<Rightarrow> (db, Some err)
         | (data, None) \<Rightarrow> db_Put D db ''default'' data)"

definition QueryAccount ::
  "'l crypto_lib_scheme \<Rightarrow> leveldb \<Rightarrow> store \<Rightarrow> string \<Rightarrow> account option \<times> goerr option" where
  "QueryAccount L D db label =
     (case db_Get D db label of (value, err) \<Rightarrow>
        if err \<noteq> None \<and> err \<noteq> Some ErrNotFound then (None, err)
        else if length value = 0 then (None, None)
        else
          (case Unmarshal (pb_Account L) value of
             (_, Some e) \<Rightarrow> (None, Some e)
           | (pbAccount, None) \<Rightarrow>
               (let ty = sint (pba_Type pbAccount);
                    keys = (\<lambda>pub priv. case pub of Inl e \<Rightarrow> (None, Some e)
                      | Inr publicKey \<Rightarrow> (case priv of Inl e \<Rightarrow> (None, Some e)
                          | Inr privateKey \<Rightarrow> (Some \<lparr>KeyType = ty, pubKey = publicKey, privKey = privateKey\<rparr>, None)))
                in if ty = Ed25519 then
                     keys (UnMarshallEd25519PublicKey (pba_PublicKey pbAccount))
                          (UnMarshallEd25519PrivateKey (pba_PrivateKey pbAccount))
                   else if ty = ECDSA then
                     keys (UnMarshallECDSAPublicKey L (pba_PublicKey pbAccount))
                          (UnMarshallECDSAPrivateKey L (pba_PrivateKey pbAccount))
                   else if ty = Secpk1 then
                     keys (UnMarshallSecp256k1PublicKey L (pba_PublicKey pbAccount))
                          (UnMarshallSecp256k1PrivateKey L (pba_PrivateKey pbAccount))
                   else (None, Some ''unsupport key type''))))"

definition QueryDefaultAccount ::
  "'l crypto_lib_scheme \<Rightarrow> leveldb \<Rightarrow> store \<Rightarrow> account option \<times> goerr option" where
  "QueryDefaultAccount L D db = QueryAccount L D db ''default''"

definition NewOneTimeAccount :: "'l crypto_lib_scheme \<Rightarrow> int \<Rightarrow> bytes \<Rightarrow> goerr + account" where
  "NewOneTimeAccount L keyType rand =
     (case GenerateKeyPair L keyType rand of
        Inl err \<Rightarrow> Inl err
      | Inr (priv, pub) \<Rightarrow> Inr \<lparr>KeyType = keyType, pubKey = pub, privKey = priv\<rparr>)"

text \<open>
  \<open>GetAccount\<close> logs the error of opening the store and goes on with a nil store, whose first use
  panics. The result is the account, nil after an error, and the store afterwards.
\<close>

definition GetAccount ::
  "'l crypto_lib_scheme \<Rightarrow> leveldb \<Rightarrow> int \<Rightarrow> bytes \<Rightarrow> (account option \<times> store) outcome" where
  "GetAccount L D keyType rand =
     (case OpenLevelDB D DB_DIR of
        Inl err \<Rightarrow> Panics
      | Inr db \<Rightarrow>
          (case QueryDefaultAccount L D db of (account, err) \<Rightarrow>
             if account \<noteq> None \<and> err = None \<and> KeyType (the account) = keyType then Returns (account, db)
             else
               (case GenerateKeyPair L keyType rand of
                  Inl err \<Rightarrow> Returns (None, db)
                | Inr (priv, pub) \<Rightarrow>
                    (let account = \<lparr>KeyType = keyType, pubKey = pub, privKey = priv\<rparr>
                     in case InsertOrUpdateAccount L D account db of
                          (db', Some err) \<Rightarrow> Returns (None, db')
                        | (db', None) \<Rightarrow> Returns (Some account, db')))))"

text \<open>
  A key file: what \<open>os.Stat\<close> (whether it is a directory), \<open>os.Open\<close> and \<open>ioutil.ReadAll\<close> answer.
\<close>

record key_file =
  file_Stat :: "goerr + bool"
  file_Open :: "goerr option"
  file_ReadAll :: "goerr + bytes"

definition GetAccountFromFile :: "'l crypto_lib_scheme \<Rightarrow> key_file \<Rightarrow> account option outcome" where
  "GetAccountFromFile L F =
     (case file_Stat F of
        Inl err \<Rightarrow> Returns None
      | Inr isDir \<Rightarrow>
          (if isDir then Returns None
           else (case file_Open F of
             Some err \<Rightarrow> Returns None
           | None \<Rightarrow>
               (case file_ReadAll F of
                  Inl err \<Rightarrow> Returns None
                | Inr data \<Rightarrow>
                    (case DecodeEcdsaPriv L (bytes_str data) of
                       Returns (Inl err) \<Rightarrow> Returns None
                     | Returns (Inr priv) \<Rightarrow>
                         (let privKey = ECDSAPrivateKey priv
                          in Returns (Some \<lparr>KeyType = ECDSA, pubKey = private_Public L privKey, privKey = privKey\<rparr>))
                     | Panics \<Rightarrow> Panics
                     | Hangs \<Rightarrow> Hangs)))))"

definition GetP2PPrivKey :: "'l crypto_lib_scheme \<Rightarrow> account option \<Rightarrow> p2p_priv option" where
  "GetP2PPrivKey L acc =
     (case acc of
        None \<Rightarrow> None
      | Some acc \<Rightarrow> (case GetP2PKeypair L (privKey acc) of Inl err \<Rightarrow> None | Inr (priv, _) \<Rightarrow> Some priv))"

section \<open>Behaviour\<close>

text \<open>
  What the serialisations promise: parsing returns the key that was written. An Ed25519 key is
  stored as it is and has a fixed length.
\<close>

definition keys_ok :: "'l crypto_lib_scheme \<Rightarrow> bool" where
  "keys_ok L =
     ((\<forall>p. nc_UnmarshalPublicKey L (nc_MarshalPublicKey L p) = Some p) \<and>
      (\<forall>k b. x509_MarshalECPrivateKey L k = Inr b \<longrightarrow> x509_ParseECPrivateKey L b = Inr k) \<and>
      (\<forall>k. \<exists>b. x509_MarshalECPrivateKey L k = Inr b) \<and>
      (\<forall>p. btcec_Parse L (btcec_Serialize L p) = Inr p) \<and>
      (\<forall>k. btcec_PrivFromBytes L (btcec_PrivSerialize L k) = Some k))"

fun account_ok :: "int \<Rightarrow> public_key \<Rightarrow> private_key \<Rightarrow> bool" where
  "account_ok ty (Ed25519PublicKey p) (Ed25519PrivateKey k) =
     (ty = Ed25519 \<and> length p = 32 \<and> length k = 64)"
| "account_ok ty (ECDSAPublicKey (Some p)) (ECDSAPrivateKey k) = (ty = ECDSA)"
| "account_ok ty (Secp256k1PublicKey p) (Secp256k1PrivateKey k) = (ty = Secpk1)"
| "account_ok ty _ _ = False"

lemma key_type_words [simp]:
  "sint (word_of_int Ed25519 :: 32 word) = Ed25519" "sint (word_of_int Secpk1 :: 32 word) = Secpk1"
  "sint (word_of_int ECDSA :: 32 word) = ECDSA"
  by (simp_all add: key_type_defs)

lemma QueryAccount_stored:
  assumes "keys_ok L" and "account_ok (KeyType acc) (pubKey acc) (privKey acc)" and "get_err D k = None"
    and "db k = Some b" and "b \<noteq> []"
    and "Unmarshal (pb_Account L) b = (\<lparr>pba_Type = word_of_int (KeyType acc),
      pba_PrivateKey = private_Bytes L (privKey acc), pba_PublicKey = public_Bytes L (pubKey acc)\<rparr>, None)"
  shows "QueryAccount L D db k = (Some acc, None)"
proof (cases acc)
  case (fields ty pub priv)
  obtain kb where kb: "\<And>q. x509_MarshalECPrivateKey L q = Inr (kb q)"
    using assms(1) unfolding keys_ok_def by metis
  have parse: "\<And>q. x509_ParseECPrivateKey L (kb q) = Inr q"
    using assms(1) kb unfolding keys_ok_def by blast
  note laws = assms(1) [unfolded keys_ok_def]
  have "account_ok ty pub priv" using assms(2) fields by simp
  then show ?thesis
    using assms(3-6) laws parse kb fields
    by (induction ty pub priv rule: account_ok.induct)
      (auto simp: QueryAccount_def db_Get_def Let_def UnMarshallEd25519PublicKey_def
        UnMarshallEd25519PrivateKey_def MarshallEd25519PublicKey_def MarshallEd25519PrivateKey_def
        UnMarshallECDSAPublicKey_def UnMarshallECDSAPrivateKey_def MarshallECDSAPublicKey_def
        UnMarshallSecp256k1PublicKey_def UnMarshallSecp256k1PrivateKey_def
        MarshallSecp256k1PublicKey_def MarshallSecp256k1PrivateKey_def)
qed

section \<open>Property\<close>

text \<open>
  C24: an account that was stored is the account that is read back, for each of the three kinds of
  keys; so a node that starts again gets the identity it had.
\<close>

theorem account_round_trip:
  assumes "keys_ok L" and "codec_ok (pb_Account L)"
    and "account_ok (KeyType acc) (pubKey acc) (privKey acc)"
    and "InsertOrUpdateAccount L D acc db = (db', None)"
    and "\<And>m b. Marshal (pb_Account L) m = (b, None) \<Longrightarrow> b \<noteq> []" and "get_err D ''default'' = None"
    and "OpenLevelDB D DB_DIR = Inr db'"
  shows "QueryDefaultAccount L D db' = (Some acc, None) \<and>
    GetAccount L D (KeyType acc) rand = Returns (Some acc, db')"
proof -
  let ?m = "\<lparr>pba_Type = word_of_int (KeyType acc), pba_PrivateKey = private_Bytes L (privKey acc),
    pba_PublicKey = public_Bytes L (pubKey acc)\<rparr>"
  obtain b where b: "Marshal (pb_Account L) ?m = (b, None)" and db': "db' ''default'' = Some b"
    using assms(4) by (auto simp: InsertOrUpdateAccount_def db_Put_def split: prod.splits option.splits)
  have "QueryAccount L D db' ''default'' = (Some acc, None)"
    using assms(1,3,6) db' assms(5) [OF b] codec_okD [OF assms(2) b] by (rule QueryAccount_stored)
  then show ?thesis by (simp add: QueryDefaultAccount_def GetAccount_def assms(7))
qed

section \<open>Key files\<close>

text \<open>A key that was written to a file is the key that is read; a file that is not PEM crashes the program.\<close>

lemma key_file_round_trip:
  assumes "keys_ok L" and "EncodeEcdsaPriv L priv = Inr text" and "\<And>b. pem_Decode L (pem_Encode L b) = Some b"
    and "F = \<lparr>file_Stat = Inr False, file_Open = None, file_ReadAll = Inr (str_bytes text)\<rparr>"
  shows "GetAccountFromFile L F = Returns (Some \<lparr>KeyType = ECDSA,
    pubKey = ECDSAPublicKey (Some (ec_Public L priv)), privKey = ECDSAPrivateKey priv\<rparr>)"
proof -
  obtain b where b: "x509_MarshalECPrivateKey L priv = Inr b" "text = pem_Encode L b"
    using assms(2) by (auto simp: EncodeEcdsaPriv_def split: sum.splits)
  then have "x509_ParseECPrivateKey L b = Inr priv" using assms(1) by (simp add: keys_ok_def)
  with b assms(3,4) show ?thesis by (simp add: GetAccountFromFile_def DecodeEcdsaPriv_def)
qed

lemma key_file_not_pem:
  "pem_Decode L text = None \<Longrightarrow>
   GetAccountFromFile L \<lparr>file_Stat = Inr False, file_Open = None, file_ReadAll = Inr (str_bytes text)\<rparr> = Panics"
  by (simp add: GetAccountFromFile_def DecodeEcdsaPriv_def)

end
