(* ===== verification/WN_Noise.thy ===== *)
theory WN_Noise
  imports WN_Gossip WN_Account
begin

text \<open>
  \<^verbatim>\<open>network/noise/noise.go\<close>, \<^verbatim>\<open>network/noise/notify.go\<close> and \<^verbatim>\<open>sdk/sdk.go\<close>: what a client does:
  register with a proxy, dial another client, send messages over the secure connection, hang up.

  These calls use the acknowledgement manager directly, not through its actor. A pointer to a
  secure session is an entry of \<open>secureConnMap\<close>; what a write changes in the session is stored
  back under the same key while the session is still there. The peer store of libp2p is its
  addresses for each peer; how it adds and clears addresses is part of the environment.
\<close>

type_synonym peerstore = "peer_id \<Rightarrow> string list"

record service_state = node_state +
  ProxyNode :: peer_id
  peerAddrs :: peerstore
  closedConns :: "peer_id list"

record 's service_env = "'s node_env" +
  Range_sessions :: "(string \<rightharpoonup> session) \<Rightarrow> string list"
  NewMultiaddr :: "string \<Rightarrow> goerr + string"
  UnixNano :: "effect list \<Rightarrow> 64 word"
  sleep :: "('s, unit) state"
  timed_out :: "effect list \<Rightarrow> bool"
  time_Until :: "effect list \<Rightarrow> string \<Rightarrow> int"
  ps_AddAddr :: "peer_id \<Rightarrow> string \<Rightarrow> int \<Rightarrow> peerstore \<Rightarrow> peerstore"
  ps_AddAddrs :: "peer_id \<Rightarrow> string list \<Rightarrow> peerstore \<Rightarrow> peerstore"
  ps_ClearAddrs :: "peer_id \<Rightarrow> peerstore \<Rightarrow> peerstore"

section \<open>The service\<close>

text \<open>
  File a task, wait for its answer and use it; the deferred \<open>DeletTask\<close> comes last and panics when
  the channel of the task is closed.
\<close>

definition with_task ::
  "('a ack_state_scheme, 'e) env_scheme \<Rightarrow> string \<Rightarrow> (ack_result option \<Rightarrow> ('a ack_state_scheme, 'r) state) \<Rightarrow>
   ('a ack_state_scheme, 'r outcome) state" where
  "with_task E i body = do {
     c \<leftarrow> make_chan;
     AddTask \<lparr>task_Id = i, task_Channel = c\<rparr>;
     result \<leftarrow> await E i;
     r \<leftarrow> body result;
     obind (DeletTask i) (\<lambda>_. ret (Returns r))
   }"

definition RegisterProxy ::
  "('a service_state_scheme, 'e) env_scheme \<Rightarrow> relay_cfg \<Rightarrow> 'l crypto_lib_scheme \<Rightarrow> peer_id \<Rightarrow>
   ('a service_state_scheme, goerr option outcome) state" where
  "RegisterProxy E C L proxyId = do {
     r \<leftarrow> NewStream E proxyId PROXY_PROTOCOL;
     (case r of
        Inl err \<Rightarrow> ret (Returns (Some err))
      | Inr stream \<Rightarrow>
          (case Marshal (pb_NewProxy L) \<lparr>np_Time = ''1h0m0s'',
                  np_WhiteNoiseID = id_String L (GetWhiteNoiseID L (cfg_account C))\<rparr> of
             (_, Some err) \<Rightarrow> ret (Returns (Some err))
           | (data, None) \<Rightarrow>
               (let request = \<lparr>req_ReqId = '''', req_From = peer_String L (cfg_hostID C),
                               req_Reqtype = Reqtype_NewProxy, req_Data = data\<rparr>
                in case Marshal (pb_Request L) request of
                     (_, Some err) \<Rightarrow> ret (Returns (Some err))
                   | (noID, None) \<Rightarrow>
                       (let request = request\<lparr>req_ReqId := EncodeMSGIDHash L (Sum256 L noID)\<rparr>
                        in do {
                          err \<leftarrow> WriteMsg E stream (fst (Marshal (pb_Request L) request));
                          (case err of
                             Some e \<Rightarrow> ret (Returns (Some e))
                           | None \<Rightarrow>
                               with_task E (req_ReqId request) (\<lambda>result.
                                 case result of
                                   None \<Rightarrow> ret (Some ''timeout'')
                                 | Some res \<Rightarrow>
                                     (if \<not> res_Ok res
                                      then ret (Some (''register rejected: '' @ bytes_str (res_Data res)))
                                      else do {
                                        modify (\<lambda>s. s\<lparr>ProxyNode := proxyId\<rparr>);
                                        ret None
                                      })))
                        }))))
   }"

definition GetSessionIDList ::
  "('s, 'e) service_env_scheme \<Rightarrow> ('a relay_state_scheme, string list) state" where
  "GetSessionIDList E = gets (\<lambda>s. Range_sessions E (sessionMap s))"

definition UnRegister ::
  "('a service_state_scheme, 'e) service_env_scheme \<Rightarrow> relay_cfg \<Rightarrow> 'l lib_scheme \<Rightarrow>
   ('a service_state_scheme, goerr option) state" where
  "UnRegister E C L = do {
     proxy \<leftarrow> gets ProxyNode;
     err \<leftarrow> (if proxy = '''' then ret (Some ''no proxy yet'')
       else do {
         r \<leftarrow> NewStream E proxy PROXY_PROTOCOL;
         (case r of
            Inl err \<Rightarrow> ret (Some err)
          | Inr stream \<Rightarrow> do {
              ids \<leftarrow> GetSessionIDList E;
              (case Marshal (pb_UnRegister L) \<lparr>ur_SessionID = ids\<rparr> of
                 (_, Some err) \<Rightarrow> ret (Some err)
               | (data, None) \<Rightarrow>
                   (let request = \<lparr>req_ReqId = '''', req_From = peer_String L (cfg_hostID C),
                                   req_Reqtype = Reqtype_UnRegisterType, req_Data = data\<rparr>
                    in case Marshal (pb_Request L) request of
                         (_, Some err) \<Rightarrow> ret (Some err)
                       | (noID, None) \<Rightarrow>
                           WriteMsg E stream (fst (Marshal (pb_Request L)
                             (request\<lparr>req_ReqId := EncodeMSGIDHash L (Sum256 L noID)\<rparr>)))))
            })
       });
     modify (\<lambda>s. s\<lparr>ProxyNode := ''''\<rparr>);
     ret err
   }"

text \<open>From the stream to the proxy to its answer; an error of marshalling the request is ignored.\<close>

definition request_circuit ::
  "('a service_state_scheme, 'e) env_scheme \<Rightarrow> relay_cfg \<Rightarrow> 'l crypto_lib_scheme \<Rightarrow> wn_stream \<Rightarrow> wn_id \<Rightarrow>
   string \<Rightarrow> ('a service_state_scheme, goerr option outcome) state" where
  "request_circuit E C L stream des sessionId = do {
     AddCircuitConnCaller C L sessionId des;
     (case Marshal (pb_NewCircuit L) \<lparr>nc_From = id_Hash L (GetWhiteNoiseID L (cfg_account C)),
             nc_To = id_Hash L des, nc_SessionId = sessionId\<rparr> of
        (_, Some err) \<Rightarrow> ret (Returns (Some err))
      | (data, None) \<Rightarrow>
          (let request = sealed_request L (peer_String L (cfg_hostID C)) Reqtype_NewCircuit data
           in do {
             err \<leftarrow> WriteMsg E stream (fst (Marshal (pb_Request L) request));
             (case err of
                Some e \<Rightarrow> ret (Returns (Some e))
              | None \<Rightarrow>
                  with_task E (req_ReqId request) (\<lambda>result.
                    case result of
                      None \<Rightarrow> ret (Some ''timeout'')
                    | Some res \<Rightarrow>
                        (if \<not> res_Ok res then do {
                           CloseCircuit E L sessionId;
                           ret (Some (''new circuit rejected: '' @ bytes_str (res_Data res)))
                         }
                         else ret None)))
           }))
   }"

definition NewCircuit_body ::
  "('a service_state_scheme, 'e) env_scheme \<Rightarrow> relay_cfg \<Rightarrow> 'l crypto_lib_scheme \<Rightarrow> string \<Rightarrow> string \<Rightarrow>
   ('a service_state_scheme, goerr option outcome) state" where
  "NewCircuit_body E C L remoteIDString sessionId =
     (case WhiteNoiseIDfromString L remoteIDString of
        Panics \<Rightarrow> ret Panics
      | Hangs \<Rightarrow> ret Hangs
      | Returns (Inl err) \<Rightarrow> ret (Returns (Some err))
      | Returns (Inr des) \<Rightarrow> do {
          AddNewCircuitTask sessionId des;
          (_, ok) \<leftarrow> GetSession sessionId;
          (if ok then ret (Returns (Some ''circuit with same sessionId already exist''))
           else do {
             proxy \<leftarrow> gets ProxyNode;
             err \<leftarrow> NewSessionToPeer E L proxy sessionId CallerRole EntryRole;
             (case err of
                Some e \<Rightarrow> ret (Returns (Some e))
              | None \<Rightarrow> do {
                  proxy \<leftarrow> gets ProxyNode;
                  r \<leftarrow> NewStream E proxy PROXY_PROTOCOL;
                  (case r of
                     Inl e \<Rightarrow> ret (Returns (Some e))
                   | Inr stream \<Rightarrow> request_circuit E C L stream des sessionId)
                })
           })
        })"

text \<open>The deferred function closes the circuit when an error is returned.\<close>

definition NewCircuit ::
  "('a service_state_scheme, 'e) env_scheme \<Rightarrow> relay_cfg \<Rightarrow> 'l crypto_lib_scheme \<Rightarrow> string \<Rightarrow> string \<Rightarrow>
   ('a service_state_scheme, goerr option outcome) state" where
  "NewCircuit E C L remoteIDString sessionId =
     obind (NewCircuit_body E C L remoteIDString sessionId) (\<lambda>err. do {
       (case err of Some _ \<Rightarrow> do { CloseCircuit E L sessionId; ret () } | None \<Rightarrow> ret ());
       ret (Returns err)
     })"

text \<open>The peers of the answer: those whose identifier parses and that have an address.\<close>

definition good_addrs :: "('s, 'e) service_env_scheme \<Rightarrow> string list \<Rightarrow> string list" where
  "good_addrs E as = concat (map (\<lambda>a. case NewMultiaddr E a of Inl e \<Rightarrow> [] | Inr m \<Rightarrow> [m]) as)"

fun peer_infos :: "('s, 'e) service_env_scheme \<Rightarrow> 'l lib_scheme \<Rightarrow> node_info list \<Rightarrow> peer_info list" where
  "peer_infos E L [] = []"
| "peer_infos E L (n # ns) =
     (case peer_Decode L (ni_Id n) of
        (_, Some err) \<Rightarrow> peer_infos E L ns
      | (p, None) \<Rightarrow>
          (let addrs = good_addrs E (ni_Addr n)
           in if length addrs \<noteq> 0 then \<lparr>ai_ID = p, ai_Addrs = addrs\<rparr> # peer_infos E L ns
              else peer_infos E L ns))"

definition GetMainnetPeers ::
  "('a ack_state_scheme, 'e) service_env_scheme \<Rightarrow> 'l lib_scheme \<Rightarrow> peer_id \<Rightarrow> int \<Rightarrow>
   ('a ack_state_scheme, (goerr + peer_info list) outcome) state" where
  "GetMainnetPeers E L bootstrap limit = do {
     r \<leftarrow> NewStream E bootstrap PROXY_PROTOCOL;
     (case r of
        Inl err \<Rightarrow> ret (Returns (Inl err))
      | Inr stream \<Rightarrow>
          (case Marshal (pb_MainNetPeers L) \<lparr>mnp_Max = word_of_int limit\<rparr> of
             (_, Some err) \<Rightarrow> ret (Returns (Inl err))
           | (data, None) \<Rightarrow>
               (let request = \<lparr>req_ReqId = '''', req_From = '''', req_Reqtype = Reqtype_MainNetPeers,
                               req_Data = data\<rparr>
                in case Marshal (pb_Request L) request of
                     (_, Some err) \<Rightarrow> ret (Returns (Inl err))
                   | (reqNoId, None) \<Rightarrow>
                       (let request = request\<lparr>req_ReqId := EncodeMSGIDHash L (Sum256 L reqNoId)\<rparr>
                        in case Marshal (pb_Request L) request of
                             (_, Some err) \<Rightarrow> ret (Returns (Inl err))
                           | (reqData, None) \<Rightarrow> do {
                               err \<leftarrow> WriteMsg E stream reqData;
                               (case err of
                                  Some e \<Rightarrow> ret (Returns (Inl e))
                                | None \<Rightarrow>
                                    with_task E (req_ReqId request) (\<lambda>result.
                                      ret (case result of
                                        None \<Rightarrow> Inl ''timeout''
                                      | Some res \<Rightarrow>
                                          (if \<not> res_Ok res then Inl ''get mainnet peers err''
                                           else (case Unmarshal (pb_PeersList L) (res_Data res) of
                                                   (_, Some e) \<Rightarrow> Inl (''unmarshall peerList err'' @ e)
                                                 | (l, None) \<Rightarrow> Inr (peer_infos E L (pl_Peers l)))))))
                             }))))
   }"

text \<open>
  What the node does when libp2p reports a connection, a closed connection or a closed stream. In
  white list mode a connection of any other peer is closed; its address is stored all the same.
\<close>

definition NetTimeUntil :: string where "NetTimeUntil = ''2023-12-11T15:04:05+07:00''"

definition Connected ::
  "('a service_state_scheme, 'e) service_env_scheme \<Rightarrow> bool \<Rightarrow> peer_id set \<Rightarrow> peer_id \<Rightarrow> string \<Rightarrow>
   ('a service_state_scheme, unit) state" where
  "Connected E whiteListMode whiteListPeers remote addr = do {
     (if whiteListMode \<and> remote \<notin> whiteListPeers
      then modify (\<lambda>s. s\<lparr>closedConns := closedConns s @ [remote]\<rparr>) else ret ());
     t \<leftarrow> gets tr;
     modify (\<lambda>s. s\<lparr>peerAddrs := ps_AddAddr E remote addr (time_Until E t NetTimeUntil) (peerAddrs s)\<rparr>)
   }"

definition Disconnected ::
  "('a service_state_scheme, 'e) service_env_scheme \<Rightarrow> peer_id \<Rightarrow> ('a service_state_scheme, unit) state" where
  "Disconnected E remote = do {
     RequestProxy (ReqUnregister remote);
     modify (\<lambda>s. s\<lparr>peerAddrs := ps_ClearAddrs E remote (peerAddrs s)\<rparr>)
   }"

definition ClosedStream :: "string \<Rightarrow> ('a relay_state_scheme, unit) state" where
  "ClosedStream streamId = RequestRelay (ReqHandleStreamClosed streamId)"

section \<open>The SDK\<close>

definition PutUint64 :: "64 word \<Rightarrow> bytes" where
  "PutUint64 w = map (\<lambda>k. ucast (drop_bit k w)) [56, 48, 40, 32, 24, 16, 8, 0]"

definition generateSessionID :: "'l lib_scheme \<Rightarrow> 64 word \<Rightarrow> string \<Rightarrow> string \<Rightarrow> string" where
  "generateSessionID L t remote local =
     (let bi = str_bytes local @ str_bytes remote @ PutUint64 t
      in base58_Encode L (Sum256 L bi))"

text \<open>
  The polling loop of \<open>Dial\<close>. It ends when the secure connection is there or the timer has fired;
  the first argument bounds the number of polls.
\<close>

fun dial_poll ::
  "nat \<Rightarrow> ('a relay_state_scheme, 'e) service_env_scheme \<Rightarrow> string \<Rightarrow>
   ('a relay_state_scheme, (goerr + secure_conn) outcome) state" where
  "dial_poll 0 E sessionID = ret Hangs"
| "dial_poll (Suc fuel) E sessionID = do {
     sleep E;
     v \<leftarrow> GetSecureConn sessionID;
     (case v of
        Some conn \<Rightarrow> ret (Returns (Inr conn))
      | None \<Rightarrow> do {
          t \<leftarrow> gets tr;
          (if timed_out E t then ret (Returns (Inl ''new circuit failed timeout''))
           else dial_poll fuel E sessionID)
        })
   }"

definition Dial ::
  "nat \<Rightarrow> ('a service_state_scheme, 'e) service_env_scheme \<Rightarrow> relay_cfg \<Rightarrow> 'l crypto_lib_scheme \<Rightarrow> string \<Rightarrow>
   ('a service_state_scheme, (goerr + secure_conn \<times> string) outcome) state" where
  "Dial fuel E C L remote = do {
     t \<leftarrow> gets tr;
     (let sessionID = generateSessionID L (UnixNano E t) remote
            (id_String L (GetWhiteNoiseID L (cfg_account C)))
      in obind (NewCircuit E C L remote sessionID) (\<lambda>err.
           case err of
             Some e \<Rightarrow> ret (Returns (Inl e))
           | None \<Rightarrow>
               obind (dial_poll fuel E sessionID) (\<lambda>r.
                 ret (Returns (case r of Inl e \<Rightarrow> Inl e | Inr conn \<Rightarrow> Inr (conn, sessionID))))))
   }"

text \<open>What a call did to the session object, seen through the table.\<close>

definition store_back :: "string \<Rightarrow> secure_session \<Rightarrow> ('a relay_state_scheme, unit) state" where
  "store_back sid ss = do {
     v \<leftarrow> gets (\<lambda>s. secureConnMap s sid);
     (case v of
        None \<Rightarrow> ret ()
      | Some sc \<Rightarrow> modify (store_secure sid (sc\<lparr>sc_session := ss\<rparr>)))
   }"

definition SendMessage ::
  "('a relay_state_scheme, 'e) relay_env_scheme \<Rightarrow> 'l noise_lib_scheme \<Rightarrow> bytes \<Rightarrow> string \<Rightarrow>
   ('a relay_state_scheme, goerr option) state" where
  "SendMessage E L data sessionID = do {
     v \<leftarrow> GetSecureConn sessionID;
     (case v of
        None \<Rightarrow> ret (Some ''circuit not exist'')
      | Some sc \<Rightarrow> do {
          (n, err, ss) \<leftarrow> SecureSession_Write L (circuit_conn_io E L (sc_conn sc)) data (sc_session sc);
          store_back sessionID ss;
          ret err
        })
   }"

definition sdk_GetMainNetPeers ::
  "('a service_state_scheme, 'e) service_env_scheme \<Rightarrow> 'l lib_scheme \<Rightarrow> peer_id \<Rightarrow> int \<Rightarrow>
   ('a service_state_scheme, (goerr + peer_id list) outcome) state" where
  "sdk_GetMainNetPeers E L bootstrap cnt =
     obind (GetMainnetPeers E L bootstrap cnt) (\<lambda>r.
       case r of
         Inl err \<Rightarrow> ret (Returns (Inl err))
       | Inr peerInfos \<Rightarrow> do {
           modify (\<lambda>s. s\<lparr>peerAddrs := fold (\<lambda>i. ps_AddAddrs E (ai_ID i) (ai_Addrs i)) peerInfos (peerAddrs s)\<rparr>);
           ret (Returns (Inr (map ai_ID peerInfos)))
         })"

definition sdk_GetWhiteNoiseID :: "relay_cfg \<Rightarrow> 'l crypto_lib_scheme \<Rightarrow> string" where
  "sdk_GetWhiteNoiseID C L = id_String L (GetWhiteNoiseID L (cfg_account C))"

definition sdk_Register ::
  "('a service_state_scheme, 'e) env_scheme \<Rightarrow> relay_cfg \<Rightarrow> 'l crypto_lib_scheme \<Rightarrow> peer_id \<Rightarrow>
   ('a service_state_scheme, goerr option outcome) state" where
  "sdk_Register E C L proxy = RegisterProxy E C L proxy"

definition GetCircuit :: "string \<Rightarrow> ('a relay_state_scheme, secure_conn option) state" where
  "GetCircuit sessionID = GetSecureConn sessionID"

definition sdk_UnRegister ::
  "('a service_state_scheme, 'e) service_env_scheme \<Rightarrow> relay_cfg \<Rightarrow> 'l lib_scheme \<Rightarrow> ('a service_state_scheme, unit) state" where
  "sdk_UnRegister E C L = do { err \<leftarrow> UnRegister E C L; ret () }"

definition DisconnectCircuit ::
  "('a relay_state_scheme, 'e) env_scheme \<Rightarrow> 'l lib_scheme \<Rightarrow> string \<Rightarrow> ('a relay_state_scheme, goerr option) state" where
  "DisconnectCircuit E L sessionID = CloseCircuit E L sessionID"

section \<open>Behaviour\<close>

text \<open>
  The state after a number of sleeps.
\<close>

fun slept :: "('s, 'e) service_env_scheme \<Rightarrow> nat \<Rightarrow> 's \<Rightarrow> 's" where
  "slept E 0 s = s"
| "slept E (Suc n) s = slept E n (snd (run_state (sleep E) s))"

text \<open>A message is framed and carried by the circuit's one stream.\<close>

lemma secureConn_updates [simp]:
  "tr (store_secure k v s) = tr s"
  by (simp add: store_secure_def)

lemma SendMessage_carried:
  assumes "secureConnMap s sid = Some sc" and "enc (sc_session sc) = Some cs"
    and "one_stream L (sc_conn sc) sid i s" and "carries L sid i k (tr s)"
  shows "wp (SendMessage E L data sid) (\<lambda>r t. r = None \<longrightarrow>
     carries L sid i k (tr t) \<and>
     payloads L i k (tr t) = payloads L i k (tr s) @ concat (fst (encode_chunks L cs (chunks data)))) s"
proof -
  have "ic_Write (circuit_conn_io E L (sc_conn sc)) = circuit_Write E L (sc_conn sc)"
    by (simp add: circuit_conn_io_def)
  note w = circuit_sink.Write_sent [OF this, where s = s and sid = sid and i = i and k = k
      and ss = "sc_session sc" and cs = cs and data = data and L = L]
  have "wp (SecureSession_Write L (circuit_conn_io E L (sc_conn sc)) data (sc_session sc))
    (\<lambda>(n, err, ss) t. err = None \<longrightarrow> carries L sid i k (tr t) \<and>
       payloads L i k (tr t) = payloads L i k (tr s) @ concat (fst (encode_chunks L cs (chunks data)))) s"
    using assms by (intro wp_mono [OF w]) (auto simp: circuit_sink.wrote_def)
  then show ?thesis
    using assms(1)
    by (auto simp: SendMessage_def GetSecureConn_def store_back_def wp_simps split: option.split
        intro: wp_mono)
qed

text \<open>
  When no write fails the message is sent, and apart from the record of what was written only the
  encrypting half of the session has moved on.
\<close>

definition sent_on ::
  "'l noise_lib_scheme \<Rightarrow> string \<Rightarrow> cipher_state \<Rightarrow> bytes \<Rightarrow> 'a relay_state_scheme \<Rightarrow> 'a relay_state_scheme \<Rightarrow> bool" where
  "sent_on L sid cs data s t = (case secureConnMap s sid of
     None \<Rightarrow> False
   | Some sc \<Rightarrow> t = s\<lparr>tr := tr t, secureConnMap := (secureConnMap s)(sid \<mapsto>
       sc\<lparr>sc_session := (sc_session sc)\<lparr>enc := Some (snd (encode_chunks L cs (chunks data)))\<rparr>\<rparr>)\<rparr>)"

lemma SendMessage_open:
  assumes sc: "secureConnMap s sid = Some sc" and cs: "enc (sc_session sc) = Some cs"
    and one: "one_stream L (sc_conn sc) sid i s" and car: "carries L sid i k (tr s)"
    and ok: "\<And>t j b. write_res E t j b = None"
  shows "wp (SendMessage E L data sid) (\<lambda>r t. r = None \<and> carries L sid i k (tr t) \<and>
     payloads L i k (tr t) = payloads L i k (tr s) @ concat (fst (encode_chunks L cs (chunks data))) \<and>
     sent_on L sid cs data s t) s"
proof -
  let ?conn = "circuit_conn_io E L (sc_conn sc)" and ?a = "sc_conn sc"
  have wr: "ic_Write ?conn = circuit_Write E L ?a" by (simp add: circuit_conn_io_def)
  have start: "only_wrote E L ?a sid i k s s" using one car ok by (simp add: only_wrote_def)
  note w = circuit_open.Write_ok [OF wr start cs, where L = L and data = data]
  have st: "secureConnMap t sid = Some sc" if "only_wrote E L ?a sid i k s t" for t
    using that sc unfolding only_wrote_def by (cases s; cases t) simp
  have stored: "sent_on L sid cs data s (store_secure sid (sc\<lparr>sc_session := (sc_session sc)
      \<lparr>enc := Some (snd (encode_chunks L cs (chunks data)))\<rparr>\<rparr>) t)" if "only_wrote E L ?a sid i k s t" for t
    using that sc unfolding only_wrote_def sent_on_def by (cases s; cases t) (simp add: store_secure_def)
  have "carries L sid i k (tr t)" if "only_wrote E L ?a sid i k s t" for t
    using that by (simp add: only_wrote_def)
  with stored show ?thesis
    unfolding SendMessage_def GetSecureConn_def using sc
    by (auto simp: circuit_open.wrote_def store_back_def st intro!: wp_mono [OF w])
qed

section \<open>Properties\<close>


text \<open>
  C33: the polling loop of \<open>Dial\<close> ends: when the timer has fired after \<open>n + 1\<close> sleeps, \<open>n + 1\<close> polls are
  enough for it to return a connection or the timeout error.
\<close>

theorem dial_terminates:
  "timed_out E (tr (slept E (Suc n) s)) \<Longrightarrow> n < fuel \<Longrightarrow>
   wp (dial_poll fuel E sid) (\<lambda>r t. \<exists>x. r = Returns x) s"
proof (induction n arbitrary: fuel s)
  case 0
  then obtain m where "fuel = Suc m" by (cases fuel) auto
  with 0 show ?case by (simp add: GetSecureConn_def wp_run split: option.split)
next
  case (Suc n)
  then obtain m where m: "fuel = Suc m" "n < m" by (cases fuel) auto
  have "wp (dial_poll m E sid) (\<lambda>r t. \<exists>x. r = Returns x) (snd (run_state (sleep E) s))"
    using Suc.prems m by (intro Suc.IH) simp_all
  then show ?case
    by (simp add: m GetSecureConn_def wp_run split: option.split prod.split)
qed

end
