(* ===== verification/WN_Node.thy ===== *)
theory WN_Node
  imports WN_Noise
begin

text \<open>
  A whole node: the relay, acknowledgement, proxy, command and gossip managers and the client
  service share one state, and \<open>node_step\<close> interleaves everything they do. The invariant of the
  relay tables and of the proxy's client tables holds in every state a node can reach.
\<close>

definition NewNode :: service_state where
  "NewNode = \<lparr>tr = [], TaskMap = (\<lambda>_. None), ackMail = [], next_chan = 0,
     circuitConnMap = (\<lambda>_. None), secureConnMap = (\<lambda>_. None), streamMap = (\<lambda>_. None),
     sessionMap = (\<lambda>_. None), probeMap = (\<lambda>_. None), conns = [], relayMail = [], jobs = [],
     gossipMail = [], clientWNMap = (\<lambda>_. None), clientPeerMap = (\<lambda>_. None),
     circuitTask = (\<lambda>_. None), proxyMail = [], cmdMail = [], gossipJobs = [], ProxyNode = '''',
     peerAddrs = (\<lambda>_. []), closedConns = []\<rparr>"

inductive node_step ::
  "('a service_state_scheme, 'e) service_env_scheme \<Rightarrow> relay_cfg \<Rightarrow> 'l crypto_lib_scheme \<Rightarrow>
   'a service_state_scheme \<Rightarrow> 'a service_state_scheme \<Rightarrow> bool" for E C L where
  relay_part: "relay_step E C L s t \<Longrightarrow> node_step E C L s t"
| proxy_stream: "run_state (ProxyStreamHandler E C L st rd) s = (r, t) \<Longrightarrow> node_step E C L s t"
| proxy_actor: "proxyMail s = m # ms \<Longrightarrow> run_state (proxy_Receive E C L m) (s\<lparr>proxyMail := ms\<rparr>) = (pr, t) \<Longrightarrow>
    node_step E C L s t"
| cmd_stream: "run_state (CmdStreamHandler E L st rd) s = (r, t) \<Longrightarrow> node_step E C L s t"
| cmd_actor: "cmdMail s = c # cs \<Longrightarrow> run_state (cmd_Receive E C L c) (s\<lparr>cmdMail := cs\<rparr>) = (cr, t) \<Longrightarrow>
    node_step E C L s t"
| gossip_actor: "gossipMail s = g # gs \<Longrightarrow> run_state (gossip_Receive E L g) (s\<lparr>gossipMail := gs\<rparr>) = (gr, t) \<Longrightarrow>
    node_step E C L s t"
| negotiation: "run_state (noise_iter E C L rd) s = (b, t) \<Longrightarrow> node_step E C L s t"
| exit_side: "(ci, neg) \<in> set (gossipJobs s) \<Longrightarrow>
    run_state (handleGossipMsg E C L ci neg) (s\<lparr>gossipJobs := remove1 (ci, neg) (gossipJobs s)\<rparr>) = (r, t) \<Longrightarrow>
    node_step E C L s t"
| register: "run_state (RegisterProxy E C L p) s = (e, t) \<Longrightarrow> node_step E C L s t"
| unregister: "run_state (UnRegister E C L) s = (e', t) \<Longrightarrow> node_step E C L s t"
| main_net: "run_state (sdk_GetMainNetPeers E L p n) s = (ps, t) \<Longrightarrow> node_step E C L s t"
| new_circuit: "run_state (NewCircuit E C L remote sid) s = (e, t) \<Longrightarrow> node_step E C L s t"
| send: "run_state (SendMessage E L data sid) s = (e', t) \<Longrightarrow> node_step E C L s t"
| connected: "run_state (Connected E wm W p addr) s = (u, t) \<Longrightarrow> node_step E C L s t"
| disconnected: "run_state (Disconnected E p) s = (u, t) \<Longrightarrow> node_step E C L s t"
| closed_stream: "run_state (ClosedStream i) s = (u, t) \<Longrightarrow> node_step E C L s t"

definition node_reachable ::
  "(service_state, 'e) service_env_scheme \<Rightarrow> relay_cfg \<Rightarrow> 'l crypto_lib_scheme \<Rightarrow> service_state \<Rightarrow> bool" where
  "node_reachable E C L = (node_step E C L)\<^sup>*\<^sup>* NewNode"

section \<open>The client service keeps the invariant\<close>

lemma proxy_ok_service [simp]:
  "proxy_ok L K (s\<lparr>ProxyNode := q\<rparr>) = proxy_ok L K s" "proxy_ok L K (s\<lparr>peerAddrs := a\<rparr>) = proxy_ok L K s"
  "proxy_ok L K (s\<lparr>closedConns := c\<rparr>) = proxy_ok L K s"
  by (simp_all add: proxy_ok_def relay_ok_def relay_inv_def entries_defs holds_def clients_inv_def)

lemma with_task_ok:
  "await_ok L P E \<Longrightarrow> (\<And>r. keeps (relay_ok L K P) (body r)) \<Longrightarrow> keeps (relay_ok L K P) (with_task E i body)"
  unfolding with_task_def by (intro keeps_intros keeps_await)

lemma proxy_with_task:
  "proxy_await_ok L E \<Longrightarrow> (\<And>r. keeps (proxy_ok L K) (body r)) \<Longrightarrow> keeps (proxy_ok L K) (with_task E i body)"
  unfolding proxy_ok_def by (rule with_task_ok)

lemma RegisterProxy_ok: "proxy_await_ok L E \<Longrightarrow> keeps (proxy_ok L K) (RegisterProxy E C L p)"
  unfolding RegisterProxy_def Let_def
  by (intro keeps_intros proxy_with_task) (simp_all only: proxy_ok_service)

lemma UnRegister_ok: "keeps (proxy_ok L K) (UnRegister E C Lc)"
  unfolding UnRegister_def GetSessionIDList_def Let_def by (intro keeps_intros) simp

lemma GetMainnetPeers_ok: "await_ok L P E \<Longrightarrow> keeps (relay_ok L K P) (GetMainnetPeers E Lc p n)"
  unfolding GetMainnetPeers_def Let_def by (intro keeps_intros with_task_ok)

lemma proxy_relay_calls:
  "keeps (proxy_ok L K) (CloseCircuit E Lc sid)"
  "keeps (proxy_ok L K) (AddCircuitConnCaller C Lc sid remote)"
  "proxy_await_ok L E \<Longrightarrow> keeps (proxy_ok L K) (NewSessionToPeer E Lc peer sid r1 r2)"
  "keeps (proxy_ok L K) (GetSession sid)"
  unfolding proxy_ok_def by (intro keeps_intros; assumption?)+

lemma NewCircuit_ok:
  assumes "proxy_await_ok L E"
  shows "keeps (proxy_ok L K) (NewCircuit E C L remote sid)"
  unfolding NewCircuit_def NewCircuit_body_def request_circuit_def Let_def
  by (intro keeps_intros proxy_relay_calls proxy_with_task AddNewCircuitTask_ok assms)

text \<open>Sending changes the cipher state of the session only.\<close>

lemma Write_loop_keeps:
  assumes "\<And>b. keeps I (ic_Write conn b)"
  shows "I s \<Longrightarrow> wp (Write_loop L conn data w ss) (\<lambda>(n, e, ss') t. I t \<and> same_identity ss ss') s"
proof (induction "length data - w" arbitrary: w ss s rule: less_induct)
  case less
  let ?stop = "min (w + MaxPlaintextLength) (length data)"
  let ?p = "take (?stop - w) (drop w data)"
  show ?case
  proof (cases "w < length data \<and> enc ss \<noteq> None")
    case True
    then obtain cs where cs: "enc ss = Some cs" by auto
    obtain c cs' where e: "cs_Encrypt L cs ?p = (c, cs')" by (rule prod.exhaust)
    then have enc: "encrypt L ?p ss = (Inr c, ss\<lparr>enc := Some cs'\<rparr>)" using cs by (simp add: encrypt_def)
    have step: "Write_loop L conn data w ss = (ic_Write conn (frame c) \<bind> (\<lambda>r.
       case snd r of Some err \<Rightarrow> ret (w, Some err, ss\<lparr>enc := Some cs'\<rparr>)
       | None \<Rightarrow> Write_loop L conn data ?stop (ss\<lparr>enc := Some cs'\<rparr>)))"
      using True enc by (subst Write_loop.simps) (simp add: Let_def)
    have same: "same_identity ss (ss\<lparr>enc := Some cs'\<rparr>)" by (simp add: same_identity_def)
    have "length data - ?stop < length data - w"
      using True by (auto simp: size_defs min_def)
    note IH = less.hyps [OF this, where ss = "ss\<lparr>enc := Some cs'\<rparr>"]
    have rec: "wp (Write_loop L conn data ?stop (ss\<lparr>enc := Some cs'\<rparr>))
       (\<lambda>(n, e, ss') t. I t \<and> same_identity ss ss') u" if "I u" for u
      by (rule wp_mono [OF IH [OF that]]) (auto intro: same_identity_trans [OF same])
    show ?thesis
      unfolding step
      by (rule wp_bind_step [OF keepsD [OF assms less.prems]])
        (auto simp: same split: option.split intro: rec)
  next
    case False
    with less.prems show ?thesis by (subst Write_loop.simps) (auto simp: encrypt_def Let_def)
  qed
qed

text \<open>
  While a session sends, its entry in the table is the one it started from or gone: only the circuit
  can be closed in between.
\<close>

definition sending ::
  "'l crypto_lib_scheme \<Rightarrow> (nat \<times> string \<times> wn_id) set \<Rightarrow> ('a relay_state_scheme \<Rightarrow> bool) \<Rightarrow> string \<Rightarrow>
   secure_conn \<Rightarrow> wn_id \<Rightarrow> 'a relay_state_scheme \<Rightarrow> bool" where
  "sending L K P sid sc rid s =
     (relay_ok L (insert (sc_conn sc, sid, rid) K) P s \<and> secureConnMap s sid \<in> {None, Some sc})"

lemma circuit_Write_sending: "keeps (sending L K P sid sc rid) (circuit_Write E L (sc_conn sc) b)"
proof (rule keepsI)
  fix s :: "'a relay_state_scheme"
  assume s: "sending L K P sid sc rid s"
  then have k: "conn_sessionId (conns s ! sc_conn sc) = sid"
    by (simp add: sending_def relay_ok_def conn_is_def)
  have "wp (circuit_Write E L (sc_conn sc) b) (\<lambda>_ t. relay_ok L (insert (sc_conn sc, sid, rid) K) P t) s"
    using s by (intro keepsD [OF circuit_Write_ok]) (simp add: sending_def)
  moreover have "wp (circuit_Write E L (sc_conn sc) b) (\<lambda>_ t. secureConnMap t sid \<in> {None, Some sc}) s"
    unfolding circuit_Write_def using s
    by (auto simp: k gone_def sending_def intro!: wp_mono [OF SendRelay_spec])
  ultimately show "wp (circuit_Write E L (sc_conn sc) b) (\<lambda>_. sending L K P sid sc rid) s"
    by (simp add: wp_run sending_def)
qed

lemma SendMessage_ok: "keeps (relay_ok L K P) (SendMessage E L data sid)"
proof (rule keepsI)
  fix s :: "'a relay_state_scheme"
  assume ok: "relay_ok L K P s"
  show "wp (SendMessage E L data sid) (\<lambda>_. relay_ok L K P) s"
  proof (cases "secureConnMap s sid")
    case (Some sc)
    let ?rid = "remoteWhiteNoiseId (conns s ! sc_conn sc)"
    let ?conn = "circuit_conn_io E L (sc_conn sc)"
    have sec: "secure_ok L (conns s) sid sc" by (rule relay_ok_secure [OF ok Some])
    then have start: "sending L K P sid sc ?rid s"
      using ok Some by (simp add: sending_def relay_ok_def secure_ok_def)
    have "keeps (sending L K P sid sc ?rid) (ic_Write ?conn b)" for b
      by (simp add: circuit_conn_io_def circuit_Write_sending)
    note w = Write_loop_keeps [OF this start, where L = L and data = data and w = 0 and ss = "sc_session sc"]
    have stored: "wp (store_back sid ss) (\<lambda>_. relay_ok L K P) t"
      if "sending L K P sid sc ?rid t" and "same_identity (sc_session sc) ss" for t ss
    proof -
      from that(1) have t: "relay_ok L K P t" "secureConnMap t sid \<in> {None, Some sc}"
        by (auto simp: sending_def relay_ok_def)
      then have "secure_ok L (conns t) sid (sc\<lparr>sc_session := ss\<rparr>)" if "secureConnMap t sid = Some sc"
        using relay_ok_secure [OF t(1) that] \<open>same_identity _ _\<close> same_identity_authentic
        by (auto simp: secure_ok_def same_identity_def)
      with t show ?thesis
        by (auto simp: store_back_def relay_ok_store_secure)
    qed
    show ?thesis
      unfolding SendMessage_def GetSecureConn_def SecureSession_Write_def
      using Some by (auto intro!: wp_mono [OF w] wp_mono [OF stored])
  qed (simp add: SendMessage_def GetSecureConn_def ok)
qed

section \<open>Every step of a node\<close>

lemma Connected_ok: "keeps (proxy_ok L K) (Connected E wm W p addr)"
  unfolding Connected_def by (intro keeps_intros) simp_all

lemma Disconnected_ok: "keeps (proxy_ok L K) (Disconnected E p)"
  unfolding Disconnected_def RequestProxy_def by (intro keeps_intros) simp_all

lemma ClosedStream_ok: "keeps (proxy_ok L K) (ClosedStream i)"
  unfolding ClosedStream_def by (rule proxy_request) simp

lemma SendMessage_proxy: "keeps (proxy_ok L K) (SendMessage E L data sid)"
  by (simp add: proxy_ok_def SendMessage_ok)

lemma CmdStreamHandler_proxy: "proxy_await_ok L E \<Longrightarrow> keeps (proxy_ok L K) (CmdStreamHandler E Lc st rd)"
  unfolding proxy_ok_def by (rule CmdStreamHandler_ok)

lemma GetMainnetPeers_proxy: "proxy_await_ok L E \<Longrightarrow> keeps (proxy_ok L K) (GetMainnetPeers E Lc p n)"
  unfolding proxy_ok_def by (rule GetMainnetPeers_ok)

lemma sdk_GetMainNetPeers_ok: "proxy_await_ok L E \<Longrightarrow> keeps (proxy_ok L K) (sdk_GetMainNetPeers E Lc p n)"
  unfolding sdk_GetMainNetPeers_def by (intro keeps_intros GetMainnetPeers_proxy) simp_all

lemma node_step_ok:
  assumes "node_step E C L s t" and "proxy_ok L K s" and "proxy_await_ok L E" and "wait_ok L (clients_inv L) E"
  shows "proxy_ok L K t"
  using assms(1)
proof (cases rule: node_step.cases)
  case relay_part
  then show ?thesis using relay_step_ok assms(2-) unfolding proxy_ok_def by blast
next
  case (proxy_actor m ms pr)
  then show ?thesis using keeps_run [OF proxy_Receive_ok [OF assms(3)] _ proxy_actor(2)] assms(2) by simp
next
  case (cmd_actor c cs cr)
  then show ?thesis using keeps_run [OF cmd_Receive_ok [OF assms(3)] _ cmd_actor(2)] assms(2) by simp
next
  case (gossip_actor g gs gr)
  then show ?thesis using keeps_run [OF gossip_Receive_ok _ gossip_actor(2)] assms(2) by simp
next
  case (exit_side ci neg r)
  then show ?thesis using keeps_run [OF handleGossipMsg_ok [OF assms(3)] _ exit_side(2)] assms(2) by simp
next
  case (proxy_stream st rd r)
  then show ?thesis by (rule keeps_run [OF ProxyStreamHandler_ok [OF assms(3)] assms(2)])
next
  case (cmd_stream st rd r)
  then show ?thesis by (rule keeps_run [OF CmdStreamHandler_proxy [OF assms(3)] assms(2)])
next
  case (negotiation rd b)
  then show ?thesis by (rule keeps_run [OF noise_iter_ok [OF assms(3)] assms(2)])
next
  case (register p e)
  then show ?thesis by (rule keeps_run [OF RegisterProxy_ok [OF assms(3)] assms(2)])
next
  case (unregister e)
  then show ?thesis by (rule keeps_run [OF UnRegister_ok assms(2)])
next
  case (main_net p n ps)
  then show ?thesis by (rule keeps_run [OF sdk_GetMainNetPeers_ok [OF assms(3)] assms(2)])
next
  case (new_circuit remote sid e)
  then show ?thesis by (rule keeps_run [OF NewCircuit_ok [OF assms(3)] assms(2)])
qed (rule keeps_run [OF SendMessage_proxy assms(2)] keeps_run [OF Connected_ok assms(2)]
    keeps_run [OF Disconnected_ok assms(2)] keeps_run [OF ClosedStream_ok assms(2)]; assumption)+

section \<open>Properties\<close>

text \<open>
  C15: the tables of a proxy in every state a whole node can reach, over all interleavings of its relay,
  proxy, command and gossip parts and of the client calls: a client is filed under the hash of its
  identifier, a peer is filed with an identifier whose entry names that peer, and the relay tables
  keep their invariant, sessions never joining more than two streams. As for the relay part alone,
  what runs while a goroutine waits is assumed to keep this invariant.
\<close>

theorem node_invariant:
  assumes "node_reachable E C L s" and "proxy_await_ok L E" and "wait_ok L (clients_inv L) E"
  shows "(\<forall>h info. clientWNMap s h = Some info \<longrightarrow> id_Hash L (ci_WhiteNoiseID info) = h) \<and>
    (\<forall>p i. clientPeerMap s p = Some i \<longrightarrow> (\<exists>info. clientWNMap s (id_Hash L i) = Some info \<and>
       peer_String L (ci_PeerID info) = p \<and> ci_WhiteNoiseID info = i)) \<and>
    (\<forall>k sess. sessionMap s k = Some sess \<longrightarrow> sess_Id sess = k \<and> length (Pair sess) \<in> {1, 2})"
proof -
  have "proxy_ok L {} NewNode"
    by (simp add: proxy_ok_def relay_ok_def conns_have_def relay_inv_def NewNode_def entries_defs
        holds_def clients_inv_def clients_ok_def)
  moreover have "proxy_ok L {} t" if "(node_step E C L)\<^sup>*\<^sup>* u t" "proxy_ok L {} u" for t u
    using that by (induction rule: rtranclp_induct) (blast intro: node_step_ok assms(2,3))+
  ultimately have ok: "proxy_ok L {} s"
    using assms(1) by (auto simp: node_reachable_def)
  then have "relay_inv L s" by (simp add: proxy_ok_def relay_ok_def)
  then have "sess_Id sess = k \<and> length (Pair sess) \<in> {1, 2}" if "sessionMap s k = Some sess" for k sess
  proof -
    from \<open>relay_inv L s\<close> that have "session_ok k sess" by (simp add: relay_inv_def entries_defs)
    then show ?thesis
      by (cases "Pair sess") (auto simp: session_ok_def le_Suc_eq numeral_2_eq_2)
  qed
  with proxy_okD [OF ok] show ?thesis by (simp add: clients_ok_def)
qed

end
