(* ===== verification/WN_ChatCodec.thy ===== *)
theory WN_ChatCodec
  imports WN_IO
begin

text \<open>
  \<^verbatim>\<open>cmd/pb/chat.pb.go\<close>: how a chat message is written to bytes and read back. The file carries its own
  code for this, which works on a slice and indices into it: writing computes the size first and then
  fills a slice of that size, reading runs through the slice field by field and keeps the fields it
  does not know. \<open>proto.Marshal\<close> and \<open>proto.Unmarshal\<close> call these methods, the latter after \<open>Reset\<close>.

  An index is a Go \<open>int\<close> of 64 bits: it is an \<^typ>\<open>int\<close> here, and \<open>go_int\<close> is written wherever a length
  that was read is added to it. An access outside the slice is a panic. The two loops that run
  through the slice have fuel; \<^const>\<open>Hangs\<close> stands for running out of it.
\<close>

section \<open>Data\<close>

record chat_message =
  cm_PeerID :: string
  cm_Data :: bytes
  cm_XXX_unrecognized :: bytes

definition ErrInvalidLengthChat :: goerr where
  "ErrInvalidLengthChat = ''proto: negative length found during unmarshaling''"

definition ErrIntOverflowChat :: goerr where
  "ErrIntOverflowChat = ''proto: integer overflow''"

definition go_int :: "int \<Rightarrow> int" where
  "go_int i = signed_take_bit 63 i"

section \<open>Writing\<close>

text \<open>\<open>dAtA[i] = b\<close>, and \<open>copy(dAtA[i:], src)\<close> with the index after what was copied.\<close>

definition set_at :: "bytes \<Rightarrow> nat \<Rightarrow> byte \<Rightarrow> bytes outcome" where
  "set_at d i b = (if i < length d then Returns (d[i := b]) else Panics)"

definition copy_at :: "bytes \<Rightarrow> nat \<Rightarrow> bytes \<Rightarrow> (bytes \<times> nat) outcome" where
  "copy_at d i src =
     (if i \<le> length d
      then let n = min (length d - i) (length src) in Returns (take i d @ take n src @ drop (i + n) d, i + n)
      else Panics)"

lemma unat_drop_bit_7: "unat (drop_bit 7 (v :: 64 word)) = unat v div 128"
proof -
  have "unat (drop_bit 7 v) = drop_bit 7 (unat v)" by (rule unat_drop_bit_eq)
  then show ?thesis by (simp add: drop_bit_eq_div)
qed

lemma drop_bit_7_less: "128 \<le> (v :: 64 word) \<Longrightarrow> unat (drop_bit 7 v) < unat v"
  unfolding unat_drop_bit_7 by (simp add: word_le_nat_alt)

function encodeVarintChat :: "bytes \<Rightarrow> nat \<Rightarrow> 64 word \<Rightarrow> (bytes \<times> nat) outcome" where
  "encodeVarintChat d offset v =
     (if 128 \<le> v
      then and_then (set_at d offset (ucast (v AND 127 OR 128))) (\<lambda>d. encodeVarintChat d (offset + 1) (drop_bit 7 v))
      else and_then (set_at d offset (ucast v)) (\<lambda>d. Returns (d, offset + 1)))"
  by auto
termination
  by (relation "measure (\<lambda>(d, i, v). unat v)") (auto intro: drop_bit_7_less)

declare encodeVarintChat.simps [simp del]

lemma drop_bit_7_zero: "drop_bit 7 (v :: 64 word) = 0 \<longleftrightarrow> v < 128"
  by (simp only: unat_eq_0 [symmetric] unat_drop_bit_7) (simp add: word_less_nat_alt div_eq_0_iff)

function sovChat :: "64 word \<Rightarrow> nat" where
  "sovChat x = (if drop_bit 7 x = 0 then 1 else 1 + sovChat (drop_bit 7 x))"
  by auto
termination
  by (relation "measure unat") (auto simp: drop_bit_7_zero not_less intro: drop_bit_7_less)

declare sovChat.simps [simp del]

definition sozChat :: "64 word \<Rightarrow> nat" where
  "sozChat x = sovChat (push_bit 1 x XOR signed_drop_bit 63 x)"

definition field_size :: "nat \<Rightarrow> nat" where
  "field_size l = (if 0 < l then 1 + l + sovChat (of_nat l) else 0)"

definition chat_Size :: "chat_message \<Rightarrow> nat" where
  "chat_Size m = field_size (length (cm_PeerID m)) + field_size (length (cm_Data m)) + length (cm_XXX_unrecognized m)"

definition put_field :: "byte \<Rightarrow> bytes \<Rightarrow> bytes \<times> nat \<Rightarrow> (bytes \<times> nat) outcome" where
  "put_field tag val p =
     (case p of (d, i) \<Rightarrow>
        if 0 < length val
        then and_then (set_at d i tag) (\<lambda>d.
             and_then (encodeVarintChat d (i + 1) (of_nat (length val))) (\<lambda>(d, i). copy_at d i val))
        else Returns (d, i))"

definition chat_MarshalTo :: "chat_message \<Rightarrow> bytes \<Rightarrow> (bytes \<times> nat) outcome" where
  "chat_MarshalTo m d =
     and_then (put_field 0x0a (str_bytes (cm_PeerID m)) (d, 0)) (\<lambda>p.
     and_then (put_field 0x12 (cm_Data m) p) (\<lambda>(d, i).
       if cm_XXX_unrecognized m \<noteq> [] then copy_at d i (cm_XXX_unrecognized m) else Returns (d, i)))"

definition chat_Marshal :: "chat_message \<Rightarrow> (bytes \<times> goerr option) outcome" where
  "chat_Marshal m =
     (let size = chat_Size m
      in and_then (chat_MarshalTo m (replicate size 0)) (\<lambda>(d, n). Returns (take n d, None)))"

section \<open>Reading\<close>

text \<open>
  The loop that reads a number of seven bits a byte. It stands eight times in the code: for tags and
  for lengths, into a \<open>uint64\<close> or an \<open>int\<close>, which get the same bits, and once only to skip a number.
\<close>

function read_varint :: "bytes \<Rightarrow> nat \<Rightarrow> int \<Rightarrow> 64 word \<Rightarrow> (goerr + 64 word \<times> int) outcome" where
  "read_varint d shift i acc =
     (if 64 \<le> shift then Returns (Inl ErrIntOverflowChat)
      else if int (length d) \<le> i then Returns (Inl ErrUnexpectedEOF)
      else if i < 0 then Panics
      else let b = d ! nat i; acc = acc OR push_bit shift (ucast b AND 127)
           in if b < 128 then Returns (Inr (acc, i + 1)) else read_varint d (shift + 7) (i + 1) acc)"
  by auto
termination
  by (relation "measure (\<lambda>(d, shift, i, acc). 64 - shift)") auto

declare read_varint.simps [simp del]

text \<open>
  \<open>skipChat\<close> gives the index after the field at the start of the slice; a group ends with a tag of wire
  type 4, and in it \<open>skipChat\<close> calls itself on the rest of the slice. Its own loop returns in the first
  round; on an empty slice it is not entered.
\<close>

fun skipChat :: "nat \<Rightarrow> bytes \<Rightarrow> (goerr + int) outcome"
  and skip_group :: "nat \<Rightarrow> bytes \<Rightarrow> int \<Rightarrow> (goerr + int) outcome" where
  "skipChat 0 d = Hangs"
| "skipChat (Suc fuel) d =
     (if d = [] then Panics
      else then_ok (read_varint d 0 0 0) (\<lambda>(wire, i).
        let wireType = unat (wire AND 7)
        in if wireType = 0 then then_ok (read_varint d 0 i 0) (\<lambda>(_, i). Returns (Inr i))
           else if wireType = 1 then Returns (Inr (go_int (i + 8)))
           else if wireType = 2 then then_ok (read_varint d 0 i 0) (\<lambda>(w, i).
             if sint w < 0 then Returns (Inl ErrInvalidLengthChat) else Returns (Inr (go_int (i + sint w))))
           else if wireType = 3 then skip_group fuel d i
           else if wireType = 4 then Returns (Inr i)
           else if wireType = 5 then Returns (Inr (go_int (i + 4)))
           else Returns (Inl (''proto: illegal wireType '' @ strconv_Itoa (int wireType)))))"
| "skip_group 0 d start = Hangs"
| "skip_group (Suc fuel) d start =
     then_ok (read_varint d 0 start 0) (\<lambda>(innerWire, i).
       if unat (innerWire AND 7) = 4 then Returns (Inr i)
       else then_ok (skipChat fuel (drop (nat start) d)) (\<lambda>next. skip_group fuel d (go_int (start + next))))"

declare skipChat.simps [simp del] skip_group.simps [simp del]

text \<open>Fuel for a slice of \<open>n\<close> bytes.\<close>

definition skip_fuel :: "nat \<Rightarrow> nat" where
  "skip_fuel n = 2 * n + 2"

text \<open>\<open>dAtA[iNdEx:postIndex]\<close> after the tests of the length, and \<open>postIndex\<close>.\<close>

definition read_value :: "bytes \<Rightarrow> int \<Rightarrow> (goerr + bytes \<times> int) outcome" where
  "read_value d i =
     then_ok (read_varint d 0 i 0) (\<lambda>(w, i).
       let len = sint w; postIndex = go_int (i + len)
       in if len < 0 then Returns (Inl ErrInvalidLengthChat)
          else if int (length d) < postIndex then Returns (Inl ErrUnexpectedEOF)
          else if 0 \<le> i \<and> i \<le> postIndex then Returns (Inr (take (nat (postIndex - i)) (drop (nat i) d), postIndex))
          else Panics)"

definition wrong_wireType :: "int \<Rightarrow> string \<Rightarrow> goerr" where
  "wrong_wireType wireType field = ''proto: wrong wireType = '' @ strconv_Itoa wireType @ '' for field '' @ field"

definition keep_unknown :: "bytes \<Rightarrow> chat_message \<Rightarrow> int \<Rightarrow> (goerr + chat_message \<times> int) outcome" where
  "keep_unknown d m i =
     then_ok (skipChat (skip_fuel (length d)) (drop (nat i) d)) (\<lambda>skippy.
       if skippy < 0 then Returns (Inl ErrInvalidLengthChat)
       else if int (length d) < go_int (i + skippy) then Returns (Inl ErrUnexpectedEOF)
       else if i \<le> go_int (i + skippy)
       then Returns (Inr (m\<lparr>cm_XXX_unrecognized := cm_XXX_unrecognized m @ take (nat skippy) (drop (nat i) d)\<rparr>,
              go_int (i + skippy)))
       else Panics)"

text \<open>One round of the loop of \<open>Unmarshal\<close>; then the loop, which returns what it has read so far.\<close>

definition unmarshal_field :: "bytes \<Rightarrow> chat_message \<Rightarrow> int \<Rightarrow> (goerr + chat_message \<times> int) outcome" where
  "unmarshal_field d m preIndex =
     then_ok (read_varint d 0 preIndex 0) (\<lambda>(wire, i).
       let fieldNum = sint (ucast (drop_bit 3 wire) :: 32 word); wireType = uint (wire AND 7)
       in if wireType = 4 then Returns (Inl ''proto: ChatMessage: wiretype end group for non-group'')
          else if fieldNum \<le> 0
          then Returns (Inl (''proto: ChatMessage: illegal tag '' @ strconv_Itoa fieldNum @ '' (wire type '' @
            strconv_Itoa (uint wire) @ '')''))
          else if fieldNum = 1
          then (if wireType \<noteq> 2 then Returns (Inl (wrong_wireType wireType ''PeerID''))
                else then_ok (read_value d i) (\<lambda>(v, i). Returns (Inr (m\<lparr>cm_PeerID := bytes_str v\<rparr>, i))))
          else if fieldNum = 2
          then (if wireType \<noteq> 2 then Returns (Inl (wrong_wireType wireType ''Data''))
                else then_ok (read_value d i) (\<lambda>(v, i). Returns (Inr (m\<lparr>cm_Data := v\<rparr>, i))))
          else keep_unknown d m preIndex)"

fun unmarshal_loop :: "nat \<Rightarrow> bytes \<Rightarrow> chat_message \<Rightarrow> int \<Rightarrow> (chat_message \<times> goerr option) outcome" where
  "unmarshal_loop 0 d m i = Hangs"
| "unmarshal_loop (Suc fuel) d m i =
     (if i < int (length d)
      then and_then (unmarshal_field d m i) (\<lambda>r.
             case r of Inl err \<Rightarrow> Returns (m, Some err) | Inr (m, i) \<Rightarrow> unmarshal_loop fuel d m i)
      else if int (length d) < i then Returns (m, Some ErrUnexpectedEOF) else Returns (m, None))"

definition chat_Unmarshal :: "bytes \<Rightarrow> chat_message \<Rightarrow> (chat_message \<times> goerr option) outcome" where
  "chat_Unmarshal d m = unmarshal_loop (Suc (length d)) d m 0"

definition chat_Reset :: chat_message where
  "chat_Reset = \<lparr>cm_PeerID = '''', cm_Data = [], cm_XXX_unrecognized = []\<rparr>"

section \<open>What is written\<close>

text \<open>The format: a number is written seven bits a byte, a field as its tag, its length and its bytes.\<close>

function varint :: "64 word \<Rightarrow> bytes" where
  "varint v = (if 128 \<le> v then ucast (v AND 127 OR 128) # varint (drop_bit 7 v) else [ucast v])"
  by auto
termination
  by (relation "measure unat") (auto intro: drop_bit_7_less)

declare varint.simps [simp del]

definition enc_field :: "byte \<Rightarrow> bytes \<Rightarrow> bytes" where
  "enc_field tag val = (if val = [] then [] else tag # varint (of_nat (length val)) @ val)"

definition enc_chat :: "chat_message \<Rightarrow> bytes" where
  "enc_chat m = enc_field 0x0a (str_bytes (cm_PeerID m)) @ enc_field 0x12 (cm_Data m) @ cm_XXX_unrecognized m"

lemma length_varint: "length (varint v) = sovChat v"
proof (induction v rule: varint.induct)
  case (1 v)
  then show ?case
    by (subst varint.simps, subst sovChat.simps) (auto simp: drop_bit_7_zero not_le)
qed

lemma length_enc_field: "length (enc_field tag val) = field_size (length val)"
  by (simp add: enc_field_def field_size_def length_varint)

lemma length_enc_chat: "length (enc_chat m) = chat_Size m"
  by (simp add: enc_chat_def chat_Size_def length_enc_field)

text \<open>A slice that is filled up to \<open>a\<close>.\<close>

lemma set_at_append: "b \<noteq> [] \<Longrightarrow> set_at (a @ b) (length a) x = Returns ((a @ [x]) @ tl b)"
  by (cases b) (simp_all add: set_at_def)

lemma copy_at_append: "length src \<le> length b \<Longrightarrow>
    copy_at (a @ b) (length a) src = Returns ((a @ src) @ drop (length src) b, length (a @ src))"
  by (simp add: copy_at_def Let_def)

lemma encodeVarintChat_append:
  "length (varint v) \<le> length b \<Longrightarrow>
   encodeVarintChat (a @ b) (length a) v = Returns ((a @ varint v) @ drop (length (varint v)) b, length (a @ varint v))"
proof (induction v arbitrary: a b rule: varint.induct)
  case (1 v)
  let ?x = "ucast (v AND 127 OR 128) :: byte"
  show ?case
  proof (cases "128 \<le> v")
    case True
    then have v: "varint v = ?x # varint (drop_bit 7 v)" by (subst varint.simps) simp
    with "1.prems" obtain y b' where b: "b = y # b'" "length (varint (drop_bit 7 v)) \<le> length b'" by (cases b) auto
    show ?thesis
      using "1.IH" [OF True b(2), of "a @ [?x]"] b(1) True
      by (subst encodeVarintChat.simps) (simp add: v set_at_append)
  next
    case False
    then have "varint v = [ucast v]" by (subst varint.simps) simp
    with "1.prems" False show ?thesis
      by (cases b) (simp_all add: encodeVarintChat.simps set_at_append)
  qed
qed

lemma put_field_append:
  assumes "length (enc_field tag val) \<le> length b"
  shows "put_field tag val (a @ b, length a) =
    Returns ((a @ enc_field tag val) @ drop (length (enc_field tag val)) b, length (a @ enc_field tag val))"
proof (cases "val = []")
  case True
  then show ?thesis by (simp add: put_field_def enc_field_def)
next
  case False
  let ?v = "varint (of_nat (length val))"
  from assms False have len: "Suc (length ?v + length val) \<le> length b" by (simp add: enc_field_def)
  then obtain y b' where b: "b = y # b'" "length ?v \<le> length b'" "length val \<le> length (drop (length ?v) b')"
    by (cases b) auto
  with False show ?thesis
    using encodeVarintChat_append [OF b(2), of "a @ [tag]"] copy_at_append [OF b(3), of "(a @ [tag]) @ ?v"]
    by (simp add: put_field_def set_at_append enc_field_def add.commute [of "length val"])
qed

lemma chat_Marshal_enc: "chat_Marshal m = Returns (enc_chat m, None)"
proof -
  let ?p = "enc_field 0x0a (str_bytes (cm_PeerID m))" and ?q = "enc_field 0x12 (cm_Data m)"
  let ?u = "cm_XXX_unrecognized m"
  let ?b = "replicate (chat_Size m) 0 :: bytes"
  have size: "chat_Size m = length ?p + length ?q + length ?u"
    by (simp add: length_enc_chat [symmetric] enc_chat_def)
  have p: "put_field 0x0a (str_bytes (cm_PeerID m)) (?b, 0) = Returns (?p @ drop (length ?p) ?b, length ?p)"
    using put_field_append [of "0x0a" "str_bytes (cm_PeerID m)" ?b "[]"] size by simp
  have q: "put_field 0x12 (cm_Data m) (?p @ drop (length ?p) ?b, length ?p) =
      Returns ((?p @ ?q) @ drop (length ?p + length ?q) ?b, length (?p @ ?q))"
    using put_field_append [of "0x12" "cm_Data m" "drop (length ?p) ?b" ?p] size by (simp add: add.commute)
  have u: "copy_at ((?p @ ?q) @ drop (length ?p + length ?q) ?b) (length (?p @ ?q)) ?u =
      Returns (?p @ ?q @ ?u, chat_Size m)"
    using copy_at_append [of ?u "drop (length ?p + length ?q) ?b" "?p @ ?q"] size by simp
  show ?thesis
    unfolding chat_Marshal_def chat_MarshalTo_def Let_def p q and_then_simps prod.case
    using u size by (auto simp: enc_chat_def)
qed

section \<open>What is read back\<close>

text \<open>The bits of a number that is written seven bits a byte.\<close>

lemma and_127: "(v :: 'a::len word) AND 127 = take_bit 7 v"
  by (simp add: take_bit_eq_mask mask_eq_exp_minus_1)

lemma bit_128: "bit (128 :: 'a::len word) n \<longleftrightarrow> n = 7 \<and> 7 < LENGTH('a)"
proof -
  have "(128 :: 'a word) = push_bit 7 1" by (simp add: push_bit_eq_mult)
  then show ?thesis by (simp only: bit_push_bit_iff bit_1_iff) auto
qed

lemma byte_top: "(b :: byte) < 128 \<longleftrightarrow> \<not> bit b 7"
proof -
  have "unat b < 256" using unsigned_less [of b] by simp
  moreover have "bit b 7 = odd (unat b div 128)"
    using bit_unsigned_iff [where ?'a = nat, of b 7] by (simp add: bit_iff_odd)
  ultimately show ?thesis
    using div_nat_eqI [of 128 1 "unat b"] by (cases "unat b < 128") (simp_all add: word_less_nat_alt)
qed

lemma low_bits: "ucast (ucast (v AND 127 OR 128) :: byte) AND 127 = (v AND 127 :: 64 word)"
  unfolding and_127
  by (rule bit_word_eqI, auto simp only: bit_and_iff bit_or_iff bit_take_bit_iff bit_unsigned_iff bit_128 possible_bit_word) simp_all

lemma not_last: "\<not> (ucast (v AND 127 OR 128 :: 64 word) :: byte) < 128"
  unfolding byte_top and_127
  by (simp add: bit_simps bit_128)

lemma last_byte: 
  assumes "v < 128" 
  shows "ucast (ucast v :: byte) AND 127 = (v :: 64 word)" "(ucast v :: byte) < 128"
proof -
  have "take_bit 7 v = v"
    using assms by (simp add: take_bit_eq_mod word_less_nat_alt word_unat_eq_iff unat_mod)
  then have "n < 7" if "bit v n" for n
    using that by (metis bit_take_bit_iff)
  then show "ucast (ucast v :: byte) AND 127 = (v :: 64 word)" "(ucast v :: byte) < 128"
    unfolding and_127 byte_top
    by (force intro!: bit_word_eqI simp: bit_simps)+
qed

lemma push_join: "push_bit s (v AND 127) OR push_bit (s + 7) (drop_bit 7 v) = push_bit s (v :: 64 word)"
  unfolding and_127
proof (rule bit_word_eqI)
  fix n :: nat assume n: "n < LENGTH(64)"
  show "bit (push_bit s (take_bit 7 v) OR push_bit (s + 7) (drop_bit 7 v)) n = bit (push_bit s v) n"
  proof (cases "n < s + 7")
    case True
    with n show ?thesis by (auto simp: bit_simps)
  next
    case False
    then have "7 + (n - (s + 7)) = n - s" by simp
    with False n show ?thesis by (auto simp: bit_simps)
  qed
qed

lemma drop_Cons:
  assumes "0 \<le> i" and "drop (nat i) d = x # xs"
  shows "i < int (length d)" "d ! nat i = x" "drop (nat (i + 1)) d = xs"
proof -
  have "\<not> length d \<le> nat i" using assms(2) by auto
  then show "i < int (length d)" by simp
  show "d ! nat i = x" using assms(2) by (metis hd_drop_conv_nth \<open>\<not> length d \<le> nat i\<close> list.sel(1) not_le)
  have "nat (i + 1) = Suc (nat i)" using assms(1) by simp
  then show "drop (nat (i + 1)) d = xs" using assms(2) by (metis drop_Suc list.sel(3) tl_drop)
qed

lemma read_varint_back:
  "shift < 64 \<Longrightarrow> unat v < 2 ^ (64 - shift) \<Longrightarrow> 0 \<le> i \<Longrightarrow> drop (nat i) d = varint v @ rest \<Longrightarrow>
   read_varint d shift i acc = Returns (Inr (acc OR push_bit shift v, i + int (length (varint v))))"
proof (induction v arbitrary: shift i acc rule: varint.induct)
  case (1 v)
  show ?case
  proof (cases "128 \<le> v")
    case True
    let ?x = "ucast (v AND 127 OR 128) :: byte"
    from True have v: "varint v = ?x # varint (drop_bit 7 v)" by (subst varint.simps) simp
    note d = drop_Cons [OF "1.prems"(3), of d ?x "varint (drop_bit 7 v) @ rest"]
    have "(2 :: nat) ^ 7 < 2 ^ (64 - shift)"
      using True "1.prems"(2) by (auto simp: word_le_nat_alt intro: le_less_trans)
    then have s: "shift + 7 < 64" using power_less_imp_less_exp [of "2 :: nat" 7 "64 - shift"] by simp
    have "unat v < 2 ^ (64 - (shift + 7)) * 128"
      using "1.prems"(2) s power_add [of "2 :: nat" "64 - (shift + 7)" 7] by simp
    then have "unat (drop_bit 7 v) < 2 ^ (64 - (shift + 7))"
      unfolding unat_drop_bit_7 by (rule less_mult_imp_div_less)
    let ?acc = "acc OR push_bit shift (ucast ?x AND 127)"
    have "read_varint d shift i acc = read_varint d (shift + 7) (i + 1) ?acc"
      using "1.prems" d v not_last by (subst read_varint.simps) (simp add: Let_def)
    also have "\<dots> = Returns (Inr (?acc OR push_bit (shift + 7) (drop_bit 7 v), i + 1 + int (length (varint (drop_bit 7 v)))))"
      using "1.prems"(3,4) d(3) v
      by (intro "1.IH" [OF True s \<open>unat (drop_bit 7 v) < 2 ^ (64 - (shift + 7))\<close>]) simp_all
    also have "?acc OR push_bit (shift + 7) (drop_bit 7 v) = acc OR push_bit shift v"
      using push_join [of shift v] by (simp only: low_bits or.assoc)
    finally show ?thesis using v by simp
  next
    case False
    then have v: "varint v = [ucast v]" by (subst varint.simps) simp
    with False "1.prems" drop_Cons [OF "1.prems"(3), of d "ucast v" rest] last_byte [of v] show ?thesis
      by (subst read_varint.simps) (simp add: not_le del: push_bit_and)
  qed
qed

lemma read_varint_len:
  assumes "n < 2 ^ 63" and "0 \<le> i" and "drop (nat i) d = varint (of_nat n) @ rest"
  shows "read_varint d 0 i 0 = Returns (Inr (of_nat n, i + int (sovChat (of_nat n))))"
proof -
  have "unat (of_nat n :: 64 word) < 2 ^ (64 - 0)" using unsigned_less [of "of_nat n :: 64 word"] by simp
  from read_varint_back [OF _ this assms(2,3)] show ?thesis by (simp add: length_varint)
qed

text \<open>A field of the message.\<close>

lemma go_int_id: "0 \<le> i \<Longrightarrow> i < 2 ^ 63 \<Longrightarrow> go_int i = i"
  unfolding go_int_def by (rule signed_take_bit_int_eq_self) simp_all

lemma sint_of_len: "n < 2 ^ 63 \<Longrightarrow> sint (of_nat n :: 64 word) = int n"
  by (simp add: sint_uint uint_nat unsigned_of_nat take_bit_nat_eq_self signed_take_bit_int_eq_self)

lemma read_value_back:
  assumes "drop (nat i) d = varint (of_nat (length v)) @ v @ rest" and "0 \<le> i" and "length d < 2 ^ 63"
  shows "read_value d i = Returns (Inr (v, i + int (sovChat (of_nat (length v))) + int (length v)))"
proof -
  let ?n = "length v" and ?s = "sovChat (of_nat (length v))"
  have "length d - nat i = ?s + ?n + length rest"
    using arg_cong [OF assms(1), of length] by (simp add: length_varint)
  moreover have "0 < ?s" by (subst sovChat.simps) simp
  ultimately have len: "nat i + ?s + ?n + length rest = length d" by simp
  then have n: "?n < 2 ^ 63" using assms(3) by simp
  have "drop (nat (i + int ?s)) d = drop ?s (drop (nat i) d)" using assms(2) by (simp add: nat_add_distrib add.commute)
  then have "drop (nat (i + int ?s)) d = v @ rest" unfolding assms(1) by (simp add: length_varint)
  moreover have "i + int ?s + int ?n \<le> int (length d)" using len assms(2) by linarith
  ultimately show ?thesis
    using assms(2,3) n
    by (simp add: read_value_def read_varint_len [OF n assms(2,1)] then_ok_def sint_of_len go_int_id Let_def)
qed

lemma read_tag_back:
  assumes "drop (nat i) d = b # xs" and "b < 128" and "0 \<le> i"
  shows "read_varint d 0 i 0 = Returns (Inr (ucast b, i + 1))"
proof -
  have "unat b < 128" using assms(2) by (simp add: word_less_nat_alt)
  then have "ucast b < (128 :: 64 word)" by (simp add: word_less_nat_alt unsigned_ucast_eq take_bit_nat_eq_self)
  moreover have "(ucast (ucast b :: 64 word) :: byte) = b" by (rule bit_word_eqI) (simp add: bit_simps)
  ultimately have "varint (ucast b) = [b]" by (subst varint.simps) (auto dest: leD)
  moreover have "unat (ucast b :: 64 word) < 2 ^ (64 - 0)" using unsigned_less [of "ucast b :: 64 word"] by simp
  ultimately show ?thesis
    using read_varint_back [of 0 "ucast b" i d xs 0] assms by simp
qed

lemma unmarshal_known:
  assumes "drop (nat i) d = enc_field tag v @ rest" and "v \<noteq> []" and "0 \<le> i" and "length d < 2 ^ 63"
  shows "tag = 0x0a \<Longrightarrow> unmarshal_field d m i = Returns (Inr (m\<lparr>cm_PeerID := bytes_str v\<rparr>, i + int (field_size (length v))))"
    and "tag = 0x12 \<Longrightarrow> unmarshal_field d m i = Returns (Inr (m\<lparr>cm_Data := v\<rparr>, i + int (field_size (length v))))"
proof -
  have d: "drop (nat i) d = tag # varint (of_nat (length v)) @ v @ rest"
    using assms(1,2) by (simp add: enc_field_def)
  have val: "read_value d (i + 1) = Returns (Inr (v, i + int (field_size (length v))))"
    using read_value_back [OF drop_Cons(3) [OF assms(3) d]] assms(2,3,4) by (simp add: field_size_def)
  show "tag = 0x0a \<Longrightarrow> unmarshal_field d m i = Returns (Inr (m\<lparr>cm_PeerID := bytes_str v\<rparr>, i + int (field_size (length v))))"
    "tag = 0x12 \<Longrightarrow> unmarshal_field d m i = Returns (Inr (m\<lparr>cm_Data := v\<rparr>, i + int (field_size (length v))))"
    using read_tag_back [OF d _ assms(3)] val by (simp_all add: unmarshal_field_def then_ok_def)
qed

lemma loop_step:
  "unmarshal_field d m i = Returns (Inr (m', j)) \<Longrightarrow> i < int (length d) \<Longrightarrow>
   unmarshal_loop (Suc fuel) d m i = unmarshal_loop fuel d m' j"
  by simp

section \<open>Fields that are not known\<close>

text \<open>
  Reading a number looks at the bytes of the number only: the same bytes at another place are the same
  number.
\<close>

lemma read_varint_consumes:
  assumes "read_varint d shift i acc = Returns (Inr (w, j))"
  shows "0 \<le> i \<and> (\<exists>f r. drop (nat i) d = f @ r \<and> f \<noteq> [] \<and> j = i + int (length f) \<and>
    (\<forall>d' i' r'. 0 \<le> i' \<and> drop (nat i') d' = f @ r' \<longrightarrow>
       read_varint d' shift i' acc = Returns (Inr (w, i' + int (length f)))))"
  using assms
proof (induction d shift i acc rule: read_varint.induct)
  case (1 d shift i acc)
  let ?b = "d ! nat i" and ?acc = "acc OR push_bit shift (ucast (d ! nat i) AND 127)"
  have step: "read_varint d shift i acc = (if 64 \<le> shift then Returns (Inl ErrIntOverflowChat)
      else if int (length d) \<le> i then Returns (Inl ErrUnexpectedEOF) else if i < 0 then Panics
      else if ?b < 128 then Returns (Inr (?acc, i + 1)) else read_varint d (shift + 7) (i + 1) ?acc)"
    by (subst read_varint.simps) (simp only: Let_def)
  with "1.prems" have c: "shift < 64" "i < int (length d)" "0 \<le> i"
    by (auto split: if_splits)
  then have d: "drop (nat i) d = ?b # drop (nat (i + 1)) d"
    by (simp add: Cons_nth_drop_Suc nat_add_distrib)
  show ?case
  proof (cases "?b < 128")
    case True
    then have w: "w = ?acc" "j = i + 1"
      using "1.prems" c step by (simp_all del: push_bit_and)
    have "read_varint d' shift i' acc = Returns (Inr (w, i' + 1))"
      if "0 \<le> i'" "drop (nat i') d' = [?b] @ r'" for d' i' r'
      using drop_Cons [of i' d' ?b r'] that True c w
      by (subst read_varint.simps) (simp add: Let_def del: push_bit_and)
    with c d w show ?thesis by (intro conjI exI [of _ "[?b]"] exI [of _ "drop (nat (i + 1)) d"]) simp_all
  next
    case False
    then have "read_varint d (shift + 7) (i + 1) ?acc = Returns (Inr (w, j))"
      using "1.prems" c step by (simp del: push_bit_and)
    from "1.IH" [OF _ _ _ refl refl False this] c obtain f r where
      f: "drop (nat (i + 1)) d = f @ r" "j = i + 1 + int (length f)"
      "\<And>d' i' r'. 0 \<le> i' \<Longrightarrow> drop (nat i') d' = f @ r' \<Longrightarrow>
         read_varint d' (shift + 7) i' ?acc = Returns (Inr (w, i' + int (length f)))"
      by auto
    have "read_varint d' shift i' acc = Returns (Inr (w, i' + int (length (?b # f))))"
      if "0 \<le> i'" "drop (nat i') d' = (?b # f) @ r'" for d' i' r'
      using drop_Cons [of i' d' ?b "f @ r'"] that f(3) [of "i' + 1" d' r'] False c
      by (subst read_varint.simps) (simp add: Let_def del: push_bit_and)
    with c d f show ?thesis by (intro conjI exI [of _ "?b # f"] exI [of _ r]) simp_all
  qed
qed

lemma read_varint_advances:
  assumes "read_varint d shift i acc = Returns (Inr (w, j))"
  shows "0 \<le> i" "i < j" "j \<le> int (length d)"
proof -
  from read_varint_consumes [OF assms] obtain f r where "0 \<le> i" and f: "drop (nat i) d = f @ r" "f \<noteq> []" "j = i + int (length f)"
    by blast
  then show "0 \<le> i" "i < j" by simp_all
  have "length d - nat i = length f + length r" "0 < length f" using arg_cong [OF f(1), of length] f(2) by auto
  with \<open>0 \<le> i\<close> f(3) show "j \<le> int (length d)" by linarith
qed

text \<open>
  Skipping leads behind the tag, or the index has overflowed and is far below zero; in a group it leads
  behind where it started. Slices are below \<open>2 ^ 62\<close> bytes, half of what an \<open>int\<close> counts.
\<close>

abbreviation far_below :: "int \<Rightarrow> bool" where
  "far_below i \<equiv> i < - (2 ^ 62)"

lemma go_int_wraps:
  assumes "2 ^ 63 \<le> i" and "i < 2 ^ 64"
  shows "go_int i = i - 2 ^ 64"
proof -
  have "go_int i = (i + 2 ^ 63) mod 2 ^ 64 - 2 ^ 63"
    by (simp add: go_int_def signed_take_bit_eq_take_bit_shift take_bit_eq_mod)
  moreover have "(i + 2 ^ 63) mod 2 ^ 64 = i + 2 ^ 63 - 2 ^ 64"
    using assms by (simp add: mod_pos_geq mod_pos_pos_trivial)
  ultimately show ?thesis by simp
qed

lemma go_int_plus:
  assumes "0 \<le> i" and "i < 2 ^ 62" and "0 \<le> n" and "n < 2 ^ 63"
  shows "go_int (i + n) = i + n \<or> far_below (go_int (i + n))"
  using assms go_int_id [of "i + n"] go_int_wraps [of "i + n"] by (cases "i + n < 2 ^ 63") simp_all

lemma go_int_small: "0 \<le> i \<Longrightarrow> i < 2 ^ 62 \<Longrightarrow> 0 \<le> n \<Longrightarrow> n < 9 \<Longrightarrow> go_int (i + n) = i + n"
  by (simp add: go_int_id)

lemma sint_less: "sint (w :: 64 word) < 2 ^ 63"
  using sint_lt [of w] by simp

lemma go_int_next:
  assumes "0 \<le> s" and "s < 2 ^ 62" and "0 \<le> go_int (s + n)" and "- (2 ^ 63) \<le> n" and "n < 2 ^ 63"
  shows "go_int (s + n) = s + n"
proof -
  have "go_int (s + n) = s + n" if "s + n < 2 ^ 63"
    unfolding go_int_def using assms that by (intro signed_take_bit_int_eq_self) simp_all
  with assms go_int_wraps [of "s + n"] show ?thesis by (cases "s + n < 2 ^ 63") simp_all
qed

lemma go_int_range: "- (2 ^ 63) \<le> go_int i" "go_int i < 2 ^ 63"
  using signed_take_bit_int_greater_eq_minus_exp [of 63 i] signed_take_bit_int_less_exp [of 63 i]
  by (simp_all add: go_int_def)

definition skips_to :: "bytes \<Rightarrow> int \<Rightarrow> bool" where
  "skips_to d n = (\<exists>w i. read_varint d 0 0 0 = Returns (Inr (w, i)) \<and> (i \<le> n \<or> far_below n) \<and> - (2 ^ 63) \<le> n \<and> n < 2 ^ 63)"

lemma skips_toI:
  assumes "read_varint d 0 0 0 = Returns (Inr (w, i))" and "length d < 2 ^ 62" and "i \<le> j" and "j \<le> int (length d)"
    and "0 \<le> n" and "n < 2 ^ 63"
  shows "skips_to d (go_int (j + n))"
  using assms read_varint_advances [OF assms(1)] go_int_plus [of j n] go_int_range [of "j + n"]
  unfolding skips_to_def by (intro exI [of _ w] exI [of _ i]) auto

lemma skips_to_index:
  assumes "read_varint d 0 0 0 = Returns (Inr (w, i))" and "length d < 2 ^ 62" and "i \<le> j" and "j \<le> int (length d)"
  shows "skips_to d j"
  using skips_toI [OF assms, of 0] assms read_varint_advances [OF assms(1)] by (simp add: go_int_id)

text \<open>How a field was skipped.\<close>

lemma skipChat_cases [consumes 1, case_names number fixed bytes group group_end]:
  assumes "skipChat (Suc fuel) d = Returns (Inr n)"
  obtains w i w' where "read_varint d 0 0 0 = Returns (Inr (w, i))" and "unat (w AND 7) = 0"
      and "read_varint d 0 i 0 = Returns (Inr (w', n))"
    | w i k where "read_varint d 0 0 0 = Returns (Inr (w, i))" and "(unat (w AND 7), k) \<in> {(1, 8), (5, 4)}"
      and "n = go_int (i + k)"
    | w i w' j where "read_varint d 0 0 0 = Returns (Inr (w, i))" and "unat (w AND 7) = 2"
      and "read_varint d 0 i 0 = Returns (Inr (w', j))" and "0 \<le> sint w'" and "n = go_int (j + sint w')"
    | w i where "read_varint d 0 0 0 = Returns (Inr (w, i))" and "unat (w AND 7) = 3"
      and "skip_group fuel d i = Returns (Inr n)"
    | w where "read_varint d 0 0 0 = Returns (Inr (w, n))" and "unat (w AND 7) = 4"
proof -
  from assms obtain w i where tag: "read_varint d 0 0 0 = Returns (Inr (w, i))" and "d \<noteq> []"
    by (auto simp: skipChat.simps then_ok_Inr split: if_splits)
  let ?t = "unat (w AND 7)"
  have run: "(if ?t = 0 then then_ok (read_varint d 0 i 0) (\<lambda>(_, i). Returns (Inr i))
       else if ?t = 1 then Returns (Inr (go_int (i + 8)))
       else if ?t = 2 then then_ok (read_varint d 0 i 0) (\<lambda>(w, i).
         if sint w < 0 then Returns (Inl ErrInvalidLengthChat) else Returns (Inr (go_int (i + sint w))))
       else if ?t = 3 then skip_group fuel d i
       else if ?t = 4 then Returns (Inr i)
       else if ?t = 5 then Returns (Inr (go_int (i + 4)))
       else Returns (Inl (''proto: illegal wireType '' @ strconv_Itoa (int ?t)))) = Returns (Inr n)"
    using assms tag \<open>d \<noteq> []\<close> by (simp add: skipChat.simps then_ok_def Let_def)
  then consider "?t = 0" | "?t = 1 \<or> ?t = 5" | "?t = 2" | "?t = 3" | "?t = 4" by (auto split: if_splits)
  then show thesis
  proof cases
    case 1
    with run tag that(1) show ?thesis by (auto simp: then_ok_Inr)
  next
    case 2
    with run tag that(2) show ?thesis by auto
  next
    case 3
    with run tag that(3) show ?thesis by (auto simp: then_ok_Inr split: if_splits)
  next
    case 4
    with run tag that(4) show ?thesis by auto
  next
    case 5
    with run tag that(5) show ?thesis by auto
  qed
qed

lemma skip_group_cases [consumes 1, case_names group_end field]:
  assumes "skip_group (Suc fuel) d start = Returns (Inr n)"
  obtains w where "read_varint d 0 start 0 = Returns (Inr (w, n))" and "unat (w AND 7) = 4"
    | w i m where "read_varint d 0 start 0 = Returns (Inr (w, i))" and "unat (w AND 7) \<noteq> 4"
      and "skipChat fuel (drop (nat start) d) = Returns (Inr m)"
      and "skip_group fuel d (go_int (start + m)) = Returns (Inr n)"
  using assms by (fastforce simp: skip_group.simps then_ok_Inr split: if_splits)

text \<open>Where the next field of a group starts.\<close>

lemma group_index:
  assumes "read_varint d 0 start 0 = Returns (Inr (w, i))" and "length d < 2 ^ 62"
    and "skips_to (drop (nat start) d) m" and "0 \<le> go_int (start + m)"
  shows "go_int (start + m) = start + m" "i \<le> start + m" "start < start + m"
proof -
  note adv = read_varint_advances [OF assms(1)]
  from assms(3) obtain w' j where j: "read_varint (drop (nat start) d) 0 0 0 = Returns (Inr (w', j))"
      "j \<le> m \<or> far_below m" "- (2 ^ 63) \<le> m" "m < 2 ^ 63"
    by (auto simp: skips_to_def)
  show m: "go_int (start + m) = start + m" using adv j assms(2,4) by (intro go_int_next) simp_all
  with assms(2,4) adv j(2) have "j \<le> m" by auto
  moreover have "i = start + j"
    using read_varint_consumes [OF assms(1)] j(1) by (fastforce dest: spec [where x = "drop (nat start) d"] spec [where x = 0])
  ultimately show "i \<le> start + m" by simp
  with adv show "start < start + m" by simp
qed

lemma skip_advances:
  "length d < 2 ^ 62 \<Longrightarrow> skipChat fuel d = Returns (Inr n) \<Longrightarrow> skips_to d n"
  "length d < 2 ^ 62 \<Longrightarrow> skip_group fuel d start = Returns (Inr n) \<Longrightarrow> 0 \<le> start \<and> start < n \<and> n \<le> int (length d)"
proof (induction fuel arbitrary: d start n)
  case (Suc fuel)
  {
    case (1 d n)
    from 1(2) show ?case
    proof (cases rule: skipChat_cases)
      case (number w i w')
      then show ?thesis
        using read_varint_advances [OF number(3)] by (intro skips_to_index [OF number(1) 1(1)]) simp_all
    next
      case (fixed w i k)
      then show ?thesis
        using read_varint_advances [OF fixed(1)] by (auto intro!: skips_toI [OF fixed(1) 1(1)])
    next
      case (bytes w i w' j)
      then show ?thesis
        using read_varint_advances [OF bytes(3)] sint_less [of w'] by (auto intro!: skips_toI [OF bytes(1) 1(1)])
    next
      case (group w i)
      then show ?thesis
        using Suc.IH(2) [OF 1(1) group(3)] by (intro skips_to_index [OF group(1) 1(1)]) simp_all
    next
      case (group_end w)
      then show ?thesis
        using read_varint_advances [OF group_end(1)] by (intro skips_to_index [OF group_end(1) 1(1)]) simp_all
    qed
  next
    case (2 d start n)
    from 2(2) show ?case
    proof (cases rule: skip_group_cases)
      case (group_end w)
      then show ?thesis using read_varint_advances [OF group_end(1)] by simp
    next
      case (field w i m)
      have "skips_to (drop (nat start) d) m" using 2(1) by (intro Suc.IH(1) [OF _ field(3)]) simp
      then show ?thesis
        using group_index [OF field(1) 2(1), of m] Suc.IH(2) [OF 2(1) field(4)] read_varint_advances [OF field(1)] by simp
    qed
  }
qed (simp_all add: skipChat.simps skip_group.simps)

text \<open>What is skipped depends on the bytes that are skipped only, and not on the fuel that is left over.\<close>

lemma take_prefix: "take n d' = take n d \<Longrightarrow> m \<le> n \<Longrightarrow> take m d' = take m d"
  by (metis min.absorb1 take_take)

lemma read_varint_prefix:
  assumes "read_varint d shift i acc = Returns (Inr (w, j))" and "take (nat n) d' = take (nat n) d" and "j \<le> n"
  shows "read_varint d' shift i acc = Returns (Inr (w, j))"
proof -
  from read_varint_consumes [OF assms(1)] obtain f r where f: "0 \<le> i" "drop (nat i) d = f @ r" "j = i + int (length f)"
      "\<And>d' i' r'. 0 \<le> i' \<Longrightarrow> drop (nat i') d' = f @ r' \<Longrightarrow> read_varint d' shift i' acc = Returns (Inr (w, i' + int (length f)))"
    by auto
  have same: "take (nat j) d' = take (nat j) d" using assms(2,3) by (intro take_prefix [OF assms(2)]) simp
  have j: "nat j = nat i + length f" "nat j \<le> length d"
    using f(1,3) read_varint_advances(3) [OF assms(1)] by simp_all
  then have "drop (nat i) (take (nat j) d') = f"
    unfolding same using f(2) by (simp add: drop_take)
  moreover have "length (take (nat j) d') = nat j" unfolding same using j by simp
  ultimately have "drop (nat i) d' = f @ drop (nat j) d'"
    using j(1) by (metis append_take_drop_id diff_is_0_eq drop0 drop_append le_add1)
  from f(4) [OF f(1) this] f(3) show ?thesis by simp
qed

lemma skip_prefix:
  "length d < 2 ^ 62 \<Longrightarrow> skipChat fuel d = Returns (Inr n) \<Longrightarrow> 0 \<le> n \<Longrightarrow> n \<le> int (length d) \<Longrightarrow>
     take (nat n) d' = take (nat n) d \<Longrightarrow> skipChat fuel d' = Returns (Inr n)"
  "length d < 2 ^ 62 \<Longrightarrow> skip_group fuel d start = Returns (Inr n) \<Longrightarrow>
     take (nat n) d' = take (nat n) d \<Longrightarrow> skip_group fuel d' start = Returns (Inr n)"
proof (induction fuel arbitrary: d d' start n)
  case (Suc fuel)
  {
    case (1 d d' n)
    have to: "i \<le> n" if "read_varint d 0 0 0 = Returns (Inr (w, i))" for w i
      using skip_advances(1) [OF 1(1,2)] that 1(3) by (auto simp: skips_to_def)
    note same = read_varint_prefix [OF _ 1(5)]
    have ne: "d' \<noteq> []" if "read_varint d' 0 0 0 = Returns (Inr (w, i))" for w i
      using read_varint_advances [OF that] by auto
    from 1(2) show ?case
    proof (cases rule: skipChat_cases)
      case (number w i w')
      with to [OF number(1)] show ?thesis
        using same [OF number(1)] same [OF number(3)] ne by (simp add: skipChat.simps then_ok_def)
    next
      case (fixed w i k)
      with to [OF fixed(1)] show ?thesis
        using same [OF fixed(1)] ne by (auto simp: skipChat.simps then_ok_def)
    next
      case (bytes w i w' j)
      have "j \<le> n"
        using 1(1,3,5) bytes(3-5) read_varint_advances [OF bytes(3)] go_int_plus [of j "sint w'"] sint_less [of w'] by auto
      with bytes to [OF bytes(1)] show ?thesis
        using same [OF bytes(1)] same [OF bytes(3)] ne by (simp add: skipChat.simps then_ok_def)
    next
      case (group w i)
      with to [OF group(1)] show ?thesis
        using same [OF group(1)] Suc.IH(2) [OF 1(1) group(3) 1(5)] ne by (simp add: skipChat.simps then_ok_def)
    next
      case (group_end w)
      then show ?thesis
        using same [OF group_end(1)] ne by (simp add: skipChat.simps then_ok_def)
    qed
  next
    case (2 d d' start n)
    note same = read_varint_prefix [OF _ 2(3)]
    from 2(2) show ?case
    proof (cases rule: skip_group_cases)
      case (group_end w)
      then show ?thesis using same [OF group_end(1)] by (simp add: skip_group.simps then_ok_def)
    next
      case (field w i m)
      have "skips_to (drop (nat start) d) m" using 2(1) by (intro skip_advances(1) [OF _ field(3)]) simp
      with group_index [OF field(1) 2(1), of m] skip_advances(2) [OF 2(1) field(4)]
      have n: "0 \<le> start + m" "start + m < n" "n \<le> int (length d)" "i \<le> start + m" "0 < m" "go_int (start + m) = start + m"
        by simp_all
      have start: "0 \<le> start" using read_varint_advances [OF field(1)] by simp
      have "take (nat m) (drop (nat start) d') = take (nat m) (drop (nat start) d)"
        using take_prefix [OF 2(3), of "nat m + nat start"] start n by (simp add: take_drop nat_add_distrib [symmetric] add.commute)
      then have "skipChat fuel (drop (nat start) d') = Returns (Inr m)"
        using 2(1) n start by (intro Suc.IH(1) [OF _ field(3)]) simp_all
      with same [OF field(1)] field(2) Suc.IH(2) [OF 2(1) field(4) 2(3)] n show ?thesis
        by (simp add: skip_group.simps then_ok_def)
    qed
  }
qed (simp_all add: skipChat.simps skip_group.simps)

lemma then_ok_Hangs: "then_ok r f = Hangs \<longleftrightarrow> r = Hangs \<or> (\<exists>x. r = Returns (Inr x) \<and> f x = Hangs)"
  by (auto simp: then_ok_def split: outcome.split sum.split)

lemma read_varint_returns: "read_varint d shift i acc \<noteq> Hangs"
proof (induction d shift i acc rule: read_varint.induct)
  case (1 d shift i acc)
  then show ?case by (subst read_varint.simps) (simp add: Let_def)
qed

lemma skip_returns:
  "length d < 2 ^ 62 \<Longrightarrow> 2 * length d + 1 \<le> fuel \<Longrightarrow> skipChat fuel d \<noteq> Hangs"
  "length d < 2 ^ 62 \<Longrightarrow> 2 * (length d - nat start) + 2 \<le> fuel \<Longrightarrow> skip_group fuel d start \<noteq> Hangs"
proof (induction fuel arbitrary: d start)
  case (Suc fuel)
  {
    case (1 d)
    have "skip_group fuel d i \<noteq> Hangs" if "read_varint d 0 0 0 = Returns (Inr (w, i))" for w i
      using 1 read_varint_advances [OF that] by (intro Suc.IH(2)) simp_all
    then show ?case by (auto simp: skipChat.simps then_ok_Hangs read_varint_returns Let_def)
  next
    case (2 d start)
    have "skipChat fuel (drop (nat start) d) \<noteq> Hangs" if "read_varint d 0 start 0 = Returns (Inr (w, i))" for w i
      using 2 read_varint_advances [OF that] by (intro Suc.IH(1)) simp_all
    moreover have "skip_group fuel d (go_int (start + m)) \<noteq> Hangs"
      if "read_varint d 0 start 0 = Returns (Inr (w, i))" "skipChat fuel (drop (nat start) d) = Returns (Inr m)" for w i m
    proof (cases "0 \<le> go_int (start + m)")
      case True
      have "skips_to (drop (nat start) d) m" using 2(1) by (intro skip_advances(1) [OF _ that(2)]) simp
      note adv = read_varint_advances [OF that(1)] and next_index = group_index [OF that(1) 2(1) this True]
      have "nat start < nat (start + m)" "nat start < length d" using adv next_index(3) by simp_all
      then have "2 * (length d - nat (start + m)) + 2 \<le> fuel" using 2(2) by linarith
      with next_index(1) 2(1) show ?thesis by (intro Suc.IH(2)) simp_all
    next
      case False
      have "read_varint d 0 j 0 = Panics" if "j < 0" for j
        using that by (subst read_varint.simps) simp
      with False 2(2) show ?thesis by (cases fuel) (simp_all add: skip_group.simps then_ok_def)
    qed
    ultimately show ?case by (auto simp: skip_group.simps then_ok_Hangs read_varint_returns)
  }
qed simp_all

lemma skip_fuel_mono:
  "skipChat fuel d \<noteq> Hangs \<Longrightarrow> fuel \<le> fuel' \<Longrightarrow> skipChat fuel' d = skipChat fuel d"
  "skip_group fuel d start \<noteq> Hangs \<Longrightarrow> fuel \<le> fuel' \<Longrightarrow> skip_group fuel' d start = skip_group fuel d start"
proof (induction fuel arbitrary: d start fuel')
  case (Suc fuel)
  {
    case (1 d fuel')
    then obtain k where k: "fuel' = Suc k" "fuel \<le> k" by (cases fuel') auto
    show ?case
      using 1(1) Suc.IH(2) [OF _ k(2)]
      by (cases "read_varint d 0 0 0") (auto simp: k(1) skipChat.simps then_ok_def Let_def split: sum.splits)
  next
    case (2 d start fuel')
    then obtain k where k: "fuel' = Suc k" "fuel \<le> k" by (cases fuel') auto
    show ?case
      using 2(1) Suc.IH(1) [OF _ k(2), of "drop (nat start) d"] Suc.IH(2) [OF _ k(2), of d]
      by (cases "read_varint d 0 start 0"; cases "skipChat fuel (drop (nat start) d)")
        (auto simp: k(1) skip_group.simps then_ok_def split: sum.splits)
  }
qed (simp_all add: skipChat.simps skip_group.simps)

section \<open>A round of reading\<close>

lemma read_varint_here:
  assumes "read_varint d shift i acc = Returns (Inr (w, j))"
  shows "read_varint (drop (nat i) d) shift 0 acc = Returns (Inr (w, j - i))"
  using read_varint_consumes [OF assms] by (fastforce dest: spec [where x = "drop (nat i) d"] spec [where x = 0])

text \<open>A field that is kept: wherever it stands in a slice, it is added to what is not recognised.\<close>

definition unknown :: "bytes \<Rightarrow> bool" where
  "unknown f = (f \<noteq> [] \<and> (\<forall>d i r m. 0 \<le> i \<and> drop (nat i) d = f @ r \<and> length d < 2 ^ 62 \<longrightarrow>
     unmarshal_field d m i = Returns (Inr (m\<lparr>cm_XXX_unrecognized := cm_XXX_unrecognized m @ f\<rparr>, i + int (length f)))))"

lemma keep_unknown_kept:
  assumes "keep_unknown d m i = Returns (Inr (m', j))" and "length d < 2 ^ 62"
    and "read_varint d 0 i 0 = Returns (Inr (w, k))"
  obtains f where "k - i \<le> int (length f)" and "f = take (length f) (drop (nat i) d)" and "j = i + int (length f)"
    and "j \<le> int (length d)" and "m' = m\<lparr>cm_XXX_unrecognized := cm_XXX_unrecognized m @ f\<rparr>"
    and "\<And>d' i' r' m. 0 \<le> i' \<Longrightarrow> drop (nat i') d' = f @ r' \<Longrightarrow> length d' < 2 ^ 62 \<Longrightarrow>
      keep_unknown d' m i' = Returns (Inr (m\<lparr>cm_XXX_unrecognized := cm_XXX_unrecognized m @ f\<rparr>, i' + int (length f)))"
proof -
  let ?d = "drop (nat i) d"
  note adv = read_varint_advances [OF assms(3)]
  from assms(1) obtain n where n: "skipChat (skip_fuel (length d)) ?d = Returns (Inr n)" "0 \<le> n"
      "go_int (i + n) \<le> int (length d)" "i \<le> go_int (i + n)" "j = go_int (i + n)"
      "m' = m\<lparr>cm_XXX_unrecognized := cm_XXX_unrecognized m @ take (nat n) ?d\<rparr>"
    by (auto simp: keep_unknown_def then_ok_Inr split: if_splits)
  have len: "length ?d < 2 ^ 62" using assms(2) by simp
  have to: "skips_to ?d n" by (rule skip_advances(1) [OF len n(1)])
  then have "n < 2 ^ 63" "k - i \<le> n" using n(2) read_varint_here [OF assms(3)] by (auto simp: skips_to_def)
  with go_int_plus [of i n] n(2,4) adv assms(2) have j: "go_int (i + n) = i + n" by auto
  let ?f = "take (nat n) ?d"
  have f: "int (length ?f) = n" "nat n \<le> length ?d" using n(2,3) j adv by auto
  show thesis
  proof (rule that [of ?f])
    show "k - i \<le> int (length ?f)" using f(1) \<open>k - i \<le> n\<close> by simp
    show "?f = take (length ?f) ?d" using f(2) by (simp add: min_absorb2)
    show "j = i + int (length ?f)" "j \<le> int (length d)" using n(3,5) j f(1) by simp_all
    show "m' = m\<lparr>cm_XXX_unrecognized := cm_XXX_unrecognized m @ ?f\<rparr>" by (rule n(6))
    fix d' :: bytes and i' :: int and r' and m :: chat_message
    assume "0 \<le> i'" and d': "drop (nat i') d' = ?f @ r'" and len': "length d' < 2 ^ 62"
    let ?F = "skip_fuel (length d)" and ?F' = "skip_fuel (length d')" and ?d' = "drop (nat i') d'"
    have f': "take (nat n) ?d' = ?f" using d' f by simp
    have "skipChat ?F ?d' = Returns (Inr n)"
      using f(2) f' by (intro skip_prefix(1) [OF len n(1,2)]) simp_all
    moreover have "skipChat ?F' ?d' \<noteq> Hangs" using len' by (intro skip_returns(1)) (simp_all add: skip_fuel_def)
    ultimately have skip: "skipChat ?F' ?d' = Returns (Inr n)"
      using skip_fuel_mono(1) [of ?F ?d' "max ?F ?F'"] skip_fuel_mono(1) [of ?F' ?d' "max ?F ?F'"] by simp
    have "length d' - nat i' = length ?f + length r'" using arg_cong [OF d', of length] by simp
    with f(1) n(2) \<open>k - i \<le> n\<close> adv(2) have i': "i' + n \<le> int (length d')" by linarith
    with len' \<open>0 \<le> i'\<close> n(2) have "go_int (i' + n) = i' + n" by (intro go_int_id) simp_all
    with i' skip n(2) f(2) f' show "keep_unknown d' m i' =
        Returns (Inr (m\<lparr>cm_XXX_unrecognized := cm_XXX_unrecognized m @ ?f\<rparr>, i' + int (length ?f)))"
      by (simp add: keep_unknown_def then_ok_def)
  qed
qed

lemma read_value_advances:
  assumes "read_value d i = Returns (Inr (v, j))"
  shows "0 \<le> i" "i < j" "j \<le> int (length d)"
  using assms by (auto simp: read_value_def then_ok_Inr Let_def split: if_splits dest: read_varint_advances)

text \<open>A round that succeeds moves on, and keeps a field or sets one of the two known ones.\<close>

lemma unmarshal_field_reads:
  assumes "unmarshal_field d m i = Returns (Inr (m', j))" and "length d < 2 ^ 62"
  shows "0 \<le> i \<and> i < j \<and> j \<le> int (length d) \<and>
    (cm_XXX_unrecognized m' = cm_XXX_unrecognized m \<or>
     (\<exists>f. unknown f \<and> cm_XXX_unrecognized m' = cm_XXX_unrecognized m @ f))"
proof -
  from assms(1) obtain w k where tag: "read_varint d 0 i 0 = Returns (Inr (w, k))"
    by (auto simp: unmarshal_field_def then_ok_Inr)
  note adv = read_varint_advances [OF tag]
  let ?num = "sint (ucast (drop_bit 3 w) :: 32 word)" and ?kind = "uint (w AND 7)"
  from assms(1) tag consider
      v where "read_value d k = Returns (Inr (v, j))" "cm_XXX_unrecognized m' = cm_XXX_unrecognized m"
    | "?kind \<noteq> 4" "0 < ?num" "?num \<noteq> 1" "?num \<noteq> 2" "keep_unknown d m i = Returns (Inr (m', j))"
    by (auto simp: unmarshal_field_def then_ok_def Let_def split: if_splits outcome.splits sum.splits)
  then show ?thesis
  proof cases
    case 1
    with adv read_value_advances [OF 1(1)] show ?thesis by simp
  next
    case 2
    from keep_unknown_kept [OF 2(5) assms(2) tag] obtain f where f: "k - i \<le> int (length f)"
      "f = take (length f) (drop (nat i) d)" "j = i + int (length f)"
      "j \<le> int (length d)" "m' = m\<lparr>cm_XXX_unrecognized := cm_XXX_unrecognized m @ f\<rparr>"
      "\<And>d' i' r' m. 0 \<le> i' \<Longrightarrow> drop (nat i') d' = f @ r' \<Longrightarrow> length d' < 2 ^ 62 \<Longrightarrow>
        keep_unknown d' m i' = Returns (Inr (m\<lparr>cm_XXX_unrecognized := cm_XXX_unrecognized m @ f\<rparr>, i' + int (length f)))"
      by metis
    from read_varint_consumes [OF tag] obtain ft rt where ft: "drop (nat i) d = ft @ rt" "k = i + int (length ft)"
      "\<And>d' i' r'. 0 \<le> i' \<Longrightarrow> drop (nat i') d' = ft @ r' \<Longrightarrow> read_varint d' 0 i' 0 = Returns (Inr (w, i' + int (length ft)))"
      by auto
    have "f = ft @ take (length f - length ft) rt"
      using f(1,2) unfolding ft(1,2) by (simp add: take_all)
    then have "read_varint d' 0 i' 0 = Returns (Inr (w, i' + int (length ft)))"
      if "0 \<le> i'" "drop (nat i') d' = f @ r'" for d' i' r'
      using ft(3) [OF that(1)] that(2) by (metis append.assoc)
    with f(6) have "unmarshal_field d' m i' =
        Returns (Inr (m\<lparr>cm_XXX_unrecognized := cm_XXX_unrecognized m @ f\<rparr>, i' + int (length f)))"
      if "0 \<le> i'" "drop (nat i') d' = f @ r'" "length d' < 2 ^ 62" for d' i' r' m
      using that 2(1-4) by (simp add: unmarshal_field_def then_ok_def)
    moreover have "f \<noteq> []" using f(1) adv(2) by auto
    ultimately have "unknown f" unfolding unknown_def by blast
    with f(1,3-5) adv show ?thesis by auto
  qed
qed

section \<open>The loop\<close>

text \<open>What a message keeps of fields that are not recognised is a sequence of such fields.\<close>

inductive unknowns :: "bytes \<Rightarrow> bool" where
  none: "unknowns []"
| one_more: "unknowns u \<Longrightarrow> unknown f \<Longrightarrow> unknowns (u @ f)"

definition wf_chat :: "chat_message \<Rightarrow> bool" where
  "wf_chat m = (unknowns (cm_XXX_unrecognized m) \<and> chat_Size m < 2 ^ 62)"

lemma unmarshal_loop_keeps:
  "unmarshal_loop fuel d m i = Returns (m', None) \<Longrightarrow> length d < 2 ^ 62 \<Longrightarrow> unknowns (cm_XXX_unrecognized m) \<Longrightarrow>
   unknowns (cm_XXX_unrecognized m')"
proof (induction fuel arbitrary: m i)
  case (Suc fuel)
  show ?case
  proof (cases "i < int (length d)")
    case True
    with Suc.prems(1) obtain m'' j where step: "unmarshal_field d m i = Returns (Inr (m'', j))"
        and rest: "unmarshal_loop fuel d m'' j = Returns (m', None)"
      by (cases "unmarshal_field d m i") (auto simp: and_then_def split: sum.split_asm)
    have "unknowns (cm_XXX_unrecognized m'')"
      using unmarshal_field_reads [OF step Suc.prems(2)] Suc.prems(3) by (auto intro: unknowns.intros)
    then show ?thesis by (rule Suc.IH [OF rest Suc.prems(2)])
  next
    case False
    with Suc.prems show ?thesis by (auto split: if_splits)
  qed
qed simp

lemma keep_unknown_returns: "length d < 2 ^ 62 \<Longrightarrow> keep_unknown d m i \<noteq> Hangs"
  using skip_returns(1) [of "drop (nat i) d" "skip_fuel (length d)"]
  by (auto simp: keep_unknown_def then_ok_Hangs skip_fuel_def)

lemma unmarshal_field_returns: "length d < 2 ^ 62 \<Longrightarrow> unmarshal_field d m i \<noteq> Hangs"
  by (auto simp: unmarshal_field_def read_value_def then_ok_Hangs read_varint_returns keep_unknown_returns Let_def)

lemma unmarshal_loop_returns:
  "length d < 2 ^ 62 \<Longrightarrow> 0 \<le> i \<Longrightarrow> length d - nat i < fuel \<Longrightarrow> unmarshal_loop fuel d m i \<noteq> Hangs"
proof (induction fuel arbitrary: m i)
  case (Suc fuel)
  have "unmarshal_loop fuel d m' j \<noteq> Hangs" if "unmarshal_field d m i = Returns (Inr (m', j))" for m' j
  proof (rule Suc.IH [OF Suc.prems(1)])
    from unmarshal_field_reads [OF that Suc.prems(1)] Suc.prems(3)
    show "0 \<le> j" "length d - nat j < fuel" by linarith+
  qed
  with unmarshal_field_returns [OF Suc.prems(1), of m i] show ?case
    by (auto simp: and_then_def split: outcome.split sum.split)
qed simp

text \<open>Some rounds of the loop read a part of the slice.\<close>

definition reads_part :: "bytes \<Rightarrow> chat_message \<Rightarrow> int \<Rightarrow> bytes \<Rightarrow> chat_message \<Rightarrow> bool" where
  "reads_part d m i p m' = (\<exists>k \<le> length p. \<forall>fuel. unmarshal_loop (k + fuel) d m i = unmarshal_loop fuel d m' (i + int (length p)))"

lemma reads_nothing: "reads_part d m i [] m"
  by (simp add: reads_part_def)

lemma reads_field:
  assumes "unmarshal_field d m i = Returns (Inr (m', i + int (length p)))" and "p \<noteq> []" and "i < int (length d)"
  shows "reads_part d m i p m'"
proof -
  have "1 \<le> length p" using assms(2) by (cases p) simp_all
  moreover have "unmarshal_loop (1 + fuel) d m i = unmarshal_loop fuel d m' (i + int (length p))" for fuel
    using assms(1,3) by simp
  ultimately show ?thesis unfolding reads_part_def by blast
qed

lemma reads_append:
  assumes "reads_part d m i p m'" and "reads_part d m' (i + int (length p)) q m''"
  shows "reads_part d m i (p @ q) m''"
proof -
  from assms obtain k l where "k \<le> length p" "l \<le> length q"
      "\<And>fuel. unmarshal_loop (k + fuel) d m i = unmarshal_loop fuel d m' (i + int (length p))"
      "\<And>fuel. unmarshal_loop (l + fuel) d m' (i + int (length p)) = unmarshal_loop fuel d m'' (i + int (length p) + int (length q))"
    by (auto simp: reads_part_def)
  then show ?thesis
    unfolding reads_part_def by (intro exI [of _ "k + l"]) (simp add: add.assoc)
qed

lemma drop_behind:
  assumes "0 \<le> i" and "drop (nat i) d = p @ q"
  shows "drop (nat (i + int (length p))) d = q"
proof -
  have "drop (nat (i + int (length p))) d = drop (length p) (drop (nat i) d)"
    using assms(1) by (simp add: nat_add_distrib add.commute)
  then show ?thesis unfolding assms(2) by simp
qed

lemma reads_unknowns:
  "unknowns u \<Longrightarrow> 0 \<le> i \<Longrightarrow> drop (nat i) d = u @ r \<Longrightarrow> length d < 2 ^ 62 \<Longrightarrow>
   reads_part d m i u (m\<lparr>cm_XXX_unrecognized := cm_XXX_unrecognized m @ u\<rparr>)"
proof (induction u arbitrary: r rule: unknowns.induct)
  case none
  then show ?case by (simp add: reads_nothing)
next
  case (one_more u f)
  let ?m = "m\<lparr>cm_XXX_unrecognized := cm_XXX_unrecognized m @ u\<rparr>" and ?i = "i + int (length u)"
  have first: "reads_part d m i u ?m"
    using one_more.prems by (intro one_more.IH [where r = "f @ r"]) simp_all
  have d: "drop (nat ?i) d = f @ r"
    using one_more.prems(1,2) by (intro drop_behind) simp_all
  have f: "0 < length f" using one_more.hyps(2) by (simp add: unknown_def)
  have "length d - nat ?i = length f + length r" using arg_cong [OF d, of length] by simp
  with f have "?i < int (length d)" by linarith
  moreover have "unmarshal_field d ?m ?i =
      Returns (Inr (?m\<lparr>cm_XXX_unrecognized := cm_XXX_unrecognized ?m @ f\<rparr>, ?i + int (length f)))"
    using one_more.hyps(2) one_more.prems(1,3) d unfolding unknown_def by simp
  ultimately show ?case
    using reads_append [OF first reads_field] f by simp
qed

lemma reads_known:
  assumes "0 \<le> i" and "drop (nat i) d = enc_field tag v @ r" and "length d < 2 ^ 62"
    and "v \<noteq> [] \<Longrightarrow> unmarshal_field d m i = Returns (Inr (upd v m, i + int (field_size (length v))))" and "upd [] m = m"
  shows "reads_part d m i (enc_field tag v) (upd v m)"
proof (cases "v = []")
  case True
  with assms(5) show ?thesis by (simp add: enc_field_def reads_nothing)
next
  case False
  then have f: "0 < length (enc_field tag v)" by (simp add: enc_field_def)
  have "length d - nat i = length (enc_field tag v) + length r" using arg_cong [OF assms(2), of length] by simp
  with f have "i < int (length d)" by linarith
  moreover have "enc_field tag v \<noteq> []" using f by simp
  ultimately show ?thesis using assms(4) [OF False] by (intro reads_field) (simp_all add: length_enc_field)
qed

text \<open>Reading what was written gives the message back; and a message that was read is one of those.\<close>

lemma chat_read_back:
  assumes "wf_chat m"
  shows "chat_Unmarshal (enc_chat m) chat_Reset = Returns (m, None)"
proof -
  let ?d = "enc_chat m" and ?p = "enc_field 0x0a (str_bytes (cm_PeerID m))" and ?q = "enc_field 0x12 (cm_Data m)"
  let ?u = "cm_XXX_unrecognized m"
  let ?m1 = "chat_Reset\<lparr>cm_PeerID := cm_PeerID m\<rparr>"
  let ?m2 = "?m1\<lparr>cm_Data := cm_Data m\<rparr>"
  have len: "length ?d < 2 ^ 62" and u: "unknowns ?u" using assms by (simp_all add: wf_chat_def length_enc_chat)
  have d: "drop (nat 0) ?d = ?p @ ?q @ ?u" by (simp add: enc_chat_def)
  have d1: "drop (nat (0 + int (length ?p))) ?d = ?q @ ?u" by (rule drop_behind [OF _ d]) simp
  have d2: "drop (nat (0 + int (length ?p) + int (length ?q))) ?d = ?u" by (rule drop_behind [OF _ d1]) simp
  have "reads_part ?d chat_Reset 0 ?p ?m1"
    using reads_known [where upd = "\<lambda>v m. m\<lparr>cm_PeerID := bytes_str v\<rparr>" and m = chat_Reset, OF _ d len]
      unmarshal_known(1) [OF d, of chat_Reset] len bytes_str_inverse [of "[]"]
    by (simp add: chat_Reset_def str_bytes_def [of "[]"])
  moreover have "reads_part ?d ?m1 (0 + int (length ?p)) ?q ?m2"
    using reads_known [where upd = "\<lambda>v m. m\<lparr>cm_Data := v\<rparr>" and m = ?m1, OF _ d1 len]
      unmarshal_known(2) [OF d1, of ?m1] len
    by (simp add: chat_Reset_def)
  moreover have "reads_part ?d ?m2 (0 + int (length ?p) + int (length ?q)) ?u
      (?m2\<lparr>cm_XXX_unrecognized := cm_XXX_unrecognized ?m2 @ ?u\<rparr>)"
    by (rule reads_unknowns [OF u _ _ len, where r = "[]"]) (use d2 in simp_all)
  moreover have "?m2\<lparr>cm_XXX_unrecognized := cm_XXX_unrecognized ?m2 @ ?u\<rparr> = m" by (simp add: chat_Reset_def)
  ultimately have "reads_part ?d chat_Reset 0 ?d m"
    using reads_append [OF reads_append] by (fastforce simp: enc_chat_def)
  then obtain k where "k \<le> length ?d" "\<And>fuel. unmarshal_loop (k + fuel) ?d chat_Reset 0 = unmarshal_loop fuel ?d m (int (length ?d))"
    by (auto simp: reads_part_def)
  from this(1) this(2) [of "Suc (length ?d - k)"] show ?thesis by (simp add: chat_Unmarshal_def)
qed

lemma chat_Unmarshal_unknowns:
  "chat_Unmarshal d chat_Reset = Returns (m, None) \<Longrightarrow> length d < 2 ^ 62 \<Longrightarrow> unknowns (cm_XXX_unrecognized m)"
  unfolding chat_Unmarshal_def by (erule unmarshal_loop_keeps) (simp_all add: chat_Reset_def unknowns.none)

text \<open>A message of the chat, which has no other fields.\<close>

lemma sovChat_le: "unat x < 2 ^ (7 * Suc k) \<Longrightarrow> sovChat x \<le> Suc k"
proof (induction k arbitrary: x)
  case 0
  then show ?case by (subst sovChat.simps) (simp add: drop_bit_7_zero word_less_nat_alt)
next
  case (Suc k)
  have "unat x < 2 ^ (7 * Suc k) * 128" using Suc.prems power_add [of "2 :: nat" "7 * Suc k" 7] by (simp add: algebra_simps)
  then have "unat (drop_bit 7 x) < 2 ^ (7 * Suc k)" unfolding unat_drop_bit_7 by (rule less_mult_imp_div_less)
  from Suc.IH [OF this] show ?case by (subst sovChat.simps) simp
qed

lemma field_size_le: "field_size l \<le> l + 11"
proof -
  have "unat (of_nat l :: 64 word) < 2 ^ (7 * Suc 9)"
    by (rule less_le_trans [OF unsigned_less]) simp
  from sovChat_le [OF this] show ?thesis by (simp add: field_size_def)
qed

definition chat_text :: "string \<Rightarrow> bytes \<Rightarrow> chat_message" where
  "chat_text who b = \<lparr>cm_PeerID = who, cm_Data = b, cm_XXX_unrecognized = []\<rparr>"

lemma chat_text_simps [simp]:
  "cm_PeerID (chat_text who b) = who" "cm_Data (chat_text who b) = b" "cm_XXX_unrecognized (chat_text who b) = []"
  by (simp_all add: chat_text_def)

lemma chat_text_size: "chat_Size (chat_text who b) \<le> length who + length b + 22"
  using field_size_le [of "length who"] field_size_le [of "length b"] by (simp add: chat_Size_def)

lemma chat_text_wf: "length who + length b < 2 ^ 61 \<Longrightarrow> wf_chat (chat_text who b)"
  using chat_text_size [of who b] by (simp add: wf_chat_def unknowns.none)

text \<open>
  A length that makes the index overflow: the sum with the index is negative, which the test for the end
  of the slice does not catch.
\<close>

definition overlong :: "bytes \<Rightarrow> bool" where
  "overlong d = (\<exists>tag w rest. tag \<in> {0x0a, 0x12} \<and> d = tag # varint w @ rest \<and> 0 \<le> sint w \<and>
     2 ^ 63 \<le> 1 + int (sovChat w) + sint w)"

lemma overlong_panics:
  assumes "overlong d" and "length d < 2 ^ 62"
  shows "chat_Unmarshal d m = Panics"
proof -
  from assms(1) obtain tag w rest where d: "drop (nat 0) d = tag # varint w @ rest" "tag = 0x0a \<or> tag = 0x12"
      "0 \<le> sint w" "2 ^ 63 \<le> 1 + int (sovChat w) + sint w"
    by (auto simp: overlong_def)
  let ?i = "1 + int (sovChat w)"
  have i: "?i \<le> int (length d)" using d(1) by (simp add: length_varint)
  have "read_varint d 0 1 0 = Returns (Inr (w, ?i))"
    using read_varint_back [of 0 w 1 d rest 0] drop_Cons [OF _ d(1)] unsigned_less [of w] by (simp add: length_varint)
  moreover have "go_int (?i + sint w) = ?i + sint w - 2 ^ 64"
    using d(4) i assms(2) sint_less [of w] by (intro go_int_wraps) simp_all
  ultimately have "read_value d 1 = Panics"
    using d(3) i assms(2) sint_less [of w] by (simp add: read_value_def then_ok_def Let_def)
  moreover have "read_varint d 0 0 0 = Returns (Inr (ucast tag, 1))"
    using read_tag_back [OF d(1)] d(2) by auto
  ultimately have "unmarshal_field d m 0 = Panics"
    using d(2) by (auto simp: unmarshal_field_def then_ok_def)
  with d(1) show ?thesis by (cases d) (simp_all add: chat_Unmarshal_def)
qed

section \<open>Properties\<close>

text \<open>
  C19: the codec of chat messages is correct. Reading ends on every input; writing never leaves the slice
  it made, whose size it computed before, and gives the protobuf encoding of the message; and what it
  writes is read back as the same message, for every message that reading can give, the fields that
  are not recognised included.
\<close>

theorem chat_codec_round_trip:
  assumes "length d < 2 ^ 62"
  shows "chat_Unmarshal d chat_Reset \<noteq> Hangs \<and>
    (\<forall>m. chat_Unmarshal d chat_Reset = Returns (m, None) \<and> chat_Size m < 2 ^ 62 \<longrightarrow>
       chat_Marshal m = Returns (enc_chat m, None) \<and> length (enc_chat m) = chat_Size m \<and>
       chat_Unmarshal (enc_chat m) chat_Reset = Returns (m, None)) \<and>
    (\<forall>who b. length who + length b < 2 ^ 61 \<longrightarrow>
       chat_Unmarshal (enc_chat (chat_text who b)) chat_Reset = Returns (chat_text who b, None))"
proof -
  have "chat_Unmarshal d chat_Reset \<noteq> Hangs"
    unfolding chat_Unmarshal_def using assms by (intro unmarshal_loop_returns) simp_all
  then show ?thesis
    using chat_Unmarshal_unknowns [OF _ assms] chat_read_back [OF chat_text_wf]
    by (auto simp: chat_Marshal_enc length_enc_chat wf_chat_def intro!: chat_read_back)
qed

end
