(* ===== verification/WN_Chat.thy ===== *)
theory WN_Chat
  imports WN_Node WN_ChatCodec
begin

text \<open>
  \<^verbatim>\<open>cmd/chat/chat.go\<close>, \<^verbatim>\<open>chatroom.go\<close> and \<^verbatim>\<open>ui.go\<close>: the chat client, a user of the SDK. A line the user
  types goes through the channel \<open>inputCh\<close> to the event loop, which sends it over the secure
  connection of the room; the read loop takes messages off that connection and hands them to the
  event loop, which shows them.

  The state of a chat client is the state of its node together with the fields of \<open>ChatRoom\<close> and
  \<open>ChatUI\<close>. \<open>Messages\<close> is not buffered: it holds the message the read loop is blocked on, if there is
  one. \<open>inputCh\<close> and \<open>doneCh\<close> are buffered. The widgets of the terminal library are the text that was
  put into them. The context of the room is \<open>context.Background()\<close>, which is never done.
\<close>

section \<open>Data\<close>

record chat_state = service_state +
  cr_self :: string
  cr_nick :: string
  cr_roomName :: string
  cr_PeerList :: "string list"
  cr_Messages :: "bytes option"
  cr_once :: bool
  ui_title :: string
  ui_label :: string
  ui_inputText :: string
  ui_inputCh :: "string list"
  ui_doneCh :: nat
  ui_msgW :: string
  ui_peersText :: string
  ui_stopped :: bool
  ui_events :: bool

text \<open>
  \<open>SubscribeOnce\<close> is the event bus; \<open>slice_cap n\<close> is the capacity of the byte slice that the runtime
  makes of a string of length \<open>n\<close>, which the language leaves open.
\<close>

record 's chat_env = "'s service_env" +
  SubscribeOnce :: "string \<Rightarrow> goerr option"
  slice_cap :: "nat \<Rightarrow> nat"

definition GetCircuitTopic :: string where "GetCircuitTopic = NewSecureConnAnswerTopic"

definition inputCap :: nat where "inputCap = 32"

section \<open>The room\<close>

text \<open>
  A room without a name is the first circuit that another client opens to this one: \<open>cr_once\<close> says
  that the handler is subscribed, \<open>room_handler\<close> is what it does.
\<close>

definition JoinChatRoom ::
  "('a chat_state_scheme, 'e) chat_env_scheme \<Rightarrow> string \<Rightarrow> string \<Rightarrow> string \<Rightarrow>
   ('a chat_state_scheme, goerr option) state" where
  "JoinChatRoom E nick selfID roomName = do {
     modify (\<lambda>s. s\<lparr>cr_self := selfID, cr_nick := nick, cr_roomName := roomName, cr_PeerList := [],
       cr_Messages := None\<rparr>);
     (if roomName = '''' then
        (case SubscribeOnce E GetCircuitTopic of
           Some err \<Rightarrow> ret (Some err)
         | None \<Rightarrow> do { modify (\<lambda>s. s\<lparr>cr_once := True\<rparr>); ret None })
      else ret None)
   }"

definition room_handler :: "string \<Rightarrow> ('a chat_state_scheme, unit) state" where
  "room_handler sessionID = modify (\<lambda>s. s\<lparr>cr_roomName := sessionID\<rparr>)"

text \<open>
  One round of \<open>readLoop\<close>, up to the message it offers on the channel. What the calls change in the
  session object is the reading half of it.
\<close>

definition store_reader :: "string \<Rightarrow> secure_session \<Rightarrow> ('a relay_state_scheme, unit) state" where
  "store_reader sid ss = do {
     v \<leftarrow> gets (\<lambda>s. secureConnMap s sid);
     (case v of
        None \<Rightarrow> ret ()
      | Some sc \<Rightarrow> modify (store_secure sid (sc\<lparr>sc_session := (sc_session sc)
          \<lparr>dec := dec ss, qseek := qseek ss, qbuf := qbuf ss\<rparr>\<rparr>)))
   }"

definition secure_ReadPayload ::
  "('a relay_state_scheme, 'e) relay_env_scheme \<Rightarrow> 'l noise_lib_scheme \<Rightarrow> string \<Rightarrow> secure_conn \<Rightarrow>
   ('a relay_state_scheme, (bytes \<times> goerr option) outcome) state" where
  "secure_ReadPayload E L sid sc = do {
     r \<leftarrow> State (\<lambda>s. case run_state (ReadPayload (secure_ReadFull L (circuit_conn_io E L (sc_conn sc)))) (s, sc_session sc)
            of (r, (t, ss)) \<Rightarrow> ((r, ss), t));
     store_reader sid (snd r);
     ret (fst r)
   }"

definition readLoop_iter ::
  "('a chat_state_scheme, 'e) relay_env_scheme \<Rightarrow> 'l noise_lib_scheme \<Rightarrow> ('a chat_state_scheme, unit outcome) state" where
  "readLoop_iter E L = do {
     room \<leftarrow> gets cr_roomName;
     v \<leftarrow> GetCircuit room;
     (case v of
        None \<Rightarrow> ret (Returns ())
      | Some conn \<Rightarrow>
          obind (secure_ReadPayload E L room conn) (\<lambda>(msg, err).
            case err of
              Some e \<Rightarrow> ret (Returns ())
            | None \<Rightarrow> do {
                modify (\<lambda>s. s\<lparr>cr_Messages := Some msg\<rparr>);
                ret (Returns ())
              }))
   }"

section \<open>The user interface\<close>

definition withColor :: "string \<Rightarrow> string \<Rightarrow> string" where
  "withColor color msg = ''['' @ color @ '']'' @ msg @ ''[-]''"

definition NewChatUI :: "('a chat_state_scheme, unit) state" where
  "NewChatUI = modify (\<lambda>s. s\<lparr>ui_title := ''Room: '' @ cr_roomName s, ui_label := cr_nick s @ '' > '',
     ui_inputText := '''', ui_inputCh := [], ui_doneCh := 0, ui_msgW := '''', ui_peersText := '''',
     ui_stopped := False\<rparr>)"

text \<open>
  The function that the input field calls when the user leaves it. Sending on a full channel blocks
  until the event loop has taken a line; \<^const>\<open>Hangs\<close> stands for that.
\<close>

definition input_done :: "bool \<Rightarrow> ('a chat_state_scheme, unit outcome) state" where
  "input_done keyEnter =
     (if \<not> keyEnter then ret (Returns ())
      else do {
        line \<leftarrow> gets ui_inputText;
        (if length line = 0 then ret (Returns ())
         else if line = ''/quit'' then do {
           modify (\<lambda>s. s\<lparr>ui_stopped := True\<rparr>);
           ret (Returns ())
         }
         else do {
           ch \<leftarrow> gets ui_inputCh;
           (if length ch < inputCap then do {
              modify (\<lambda>s. s\<lparr>ui_inputCh := ch @ [line], ui_inputText := ''''\<rparr>);
              ret (Returns ())
            }
            else ret Hangs)
         })
      })"

text \<open>\<open>[]byte(p)[:8]\<close> panics beyond the capacity; up to it the bytes after the string are zero.\<close>

definition first8 :: "('s, 'e) chat_env_scheme \<Rightarrow> string \<Rightarrow> string outcome" where
  "first8 E p = (if 8 \<le> slice_cap E (length p) then Returns (take 8 (p @ replicate 8 (CHR 0x00))) else Panics)"

fun idStrs :: "('s, 'e) chat_env_scheme \<Rightarrow> string list \<Rightarrow> string list outcome" where
  "idStrs E [] = Returns []"
| "idStrs E (p # ps) =
     (case first8 E p of
        Returns x \<Rightarrow> (case idStrs E ps of Returns xs \<Rightarrow> Returns (x # xs) | Panics \<Rightarrow> Panics | Hangs \<Rightarrow> Hangs)
      | Panics \<Rightarrow> Panics
      | Hangs \<Rightarrow> Hangs)"

fun strings_Join :: "string list \<Rightarrow> string \<Rightarrow> string" where
  "strings_Join [] sep = ''''"
| "strings_Join [x] sep = x"
| "strings_Join (x # y # xs) sep = x @ sep @ strings_Join (y # xs) sep"

definition refreshPeers :: "('a chat_state_scheme, 'e) chat_env_scheme \<Rightarrow> ('a chat_state_scheme, unit outcome) state" where
  "refreshPeers E = do {
     peers \<leftarrow> gets cr_PeerList;
     (case idStrs E peers of
        Returns ids \<Rightarrow> do {
          modify (\<lambda>s. s\<lparr>ui_peersText := strings_Join ids [CHR 0x0A]\<rparr>);
          ret (Returns ())
        }
      | Panics \<Rightarrow> ret Panics
      | Hangs \<Rightarrow> ret Hangs)
   }"

definition chat_line :: "string \<Rightarrow> string \<Rightarrow> string \<Rightarrow> string" where
  "chat_line color who text = withColor color (''<'' @ who @ ''>:'') @ '' '' @ text @ [CHR 0x0A]"

definition displayChatMessage :: "chat_message \<Rightarrow> ('a chat_state_scheme, unit) state" where
  "displayChatMessage msg =
     modify (\<lambda>s. s\<lparr>ui_msgW := ui_msgW s @ chat_line ''green'' (cm_PeerID msg) (bytes_str (cm_Data msg))\<rparr>)"

definition displaySelfMessage :: "string \<Rightarrow> ('a chat_state_scheme, unit) state" where
  "displaySelfMessage msg =
     modify (\<lambda>s. s\<lparr>ui_msgW := ui_msgW s @ chat_line ''yellow'' (cr_nick s) msg\<rparr>)"

section \<open>The event loop\<close>

text \<open>
  The two interesting cases of the \<open>select\<close> in \<open>handleEvents\<close>. The errors of marshalling and of
  writing are not looked at.
\<close>

definition handle_input ::
  "('a chat_state_scheme, 'e) relay_env_scheme \<Rightarrow> 'l crypto_lib_scheme \<Rightarrow> string \<Rightarrow>
   ('a chat_state_scheme, unit outcome) state" where
  "handle_input E L input = do {
     nick \<leftarrow> gets cr_nick;
     room \<leftarrow> gets cr_roomName;
     obind (ret (chat_Marshal (chat_text nick (str_bytes input)))) (\<lambda>(chatMsg, _). do {
       v \<leftarrow> GetCircuit room;
       (case v of
          None \<Rightarrow> ret (Returns ())
        | Some sc \<Rightarrow> do {
            (n, err, ss) \<leftarrow> SecureSession_Write L (circuit_conn_io E L (sc_conn sc)) (EncodePayload chatMsg) (sc_session sc);
            store_back room ss;
            displaySelfMessage input;
            ret (Returns ())
          })
     })
   }"

definition handle_message :: "bytes \<Rightarrow> ('a chat_state_scheme, unit outcome) state" where
  "handle_message m =
     obind (ret (chat_Unmarshal m chat_Reset)) (\<lambda>(chatMsg, err).
       if err = None then do {
         peers \<leftarrow> gets cr_PeerList;
         (let isSave = fold (\<lambda>p isSave. if p = cm_PeerID chatMsg then True else isSave) peers False
          in if isSave = False then modify (\<lambda>s. s\<lparr>cr_PeerList := peers @ [cm_PeerID chatMsg]\<rparr>) else ret ());
         displayChatMessage chatMsg;
         ret (Returns ())
       }
       else ret (Returns ()))"

text \<open>One round of the loop; \<^const>\<open>False\<close> when the function returns.\<close>

datatype chat_select = SelInput | SelMessage | SelTick | SelDone

fun ready :: "chat_select \<Rightarrow> 'a chat_state_scheme \<Rightarrow> bool" where
  "ready SelInput s = (ui_inputCh s \<noteq> [])"
| "ready SelMessage s = (cr_Messages s \<noteq> None)"
| "ready SelTick s = True"
| "ready SelDone s = (0 < ui_doneCh s)"

definition handleEvents_iter ::
  "('a chat_state_scheme, 'e) chat_env_scheme \<Rightarrow> 'l crypto_lib_scheme \<Rightarrow> chat_select \<Rightarrow>
   ('a chat_state_scheme, bool outcome) state" where
  "handleEvents_iter E L sel =
     (case sel of
        SelInput \<Rightarrow> do {
          ch \<leftarrow> gets ui_inputCh;
          modify (\<lambda>s. s\<lparr>ui_inputCh := tl ch\<rparr>);
          obind (handle_input E L (hd ch)) (\<lambda>_. ret (Returns True))
        }
      | SelMessage \<Rightarrow> do {
          m \<leftarrow> gets cr_Messages;
          modify (\<lambda>s. s\<lparr>cr_Messages := None\<rparr>);
          obind (handle_message (the m)) (\<lambda>_. ret (Returns True))
        }
      | SelTick \<Rightarrow> obind (refreshPeers E) (\<lambda>_. ret (Returns True))
      | SelDone \<Rightarrow> do {
          modify (\<lambda>s. s\<lparr>ui_doneCh := ui_doneCh s - 1\<rparr>);
          ret (Returns False)
        })"

definition ui_end :: "('a chat_state_scheme, unit) state" where
  "ui_end = modify (\<lambda>s. s\<lparr>ui_doneCh := ui_doneCh s + 1\<rparr>)"

text \<open>
  Starting: a failed subscription is a panic; otherwise the read loop and the event loop run from
  here on.
\<close>

definition Chat ::
  "('a chat_state_scheme, 'e) chat_env_scheme \<Rightarrow> string \<Rightarrow> string \<Rightarrow> string \<Rightarrow> ('a chat_state_scheme, unit outcome) state" where
  "Chat E nick selfID room = do {
     err \<leftarrow> JoinChatRoom E nick selfID room;
     (case err of
        Some e \<Rightarrow> ret Panics
      | None \<Rightarrow> do {
          NewChatUI;
          modify (\<lambda>s. s\<lparr>ui_events := True\<rparr>);
          ret (Returns ())
        })
   }"

text \<open>
  Everything that happens in the process: the user types, leaves the input field, the event loop and
  the read loop go round, the bus calls the handler, \<open>Run\<close> returns after \<open>Stop\<close> (its deferred \<open>end\<close>
  signals the event loop, once), and the rest of the node works on its own tables, which keep their
  invariant and do not include the fields of the chat.
\<close>

inductive chat_step ::
  "('a chat_state_scheme, 'e) chat_env_scheme \<Rightarrow> 'l crypto_lib_scheme \<Rightarrow>
   'a chat_state_scheme \<Rightarrow> 'a chat_state_scheme \<Rightarrow> bool" for E L where
  typing: "chat_step E L s (s\<lparr>ui_inputText := x\<rparr>)"
| leave: "run_state (input_done k) s = (Returns (), t) \<Longrightarrow> chat_step E L s t"
| event: "ui_events s \<Longrightarrow> ready sel s \<Longrightarrow> run_state (handleEvents_iter E L sel) s = (Returns b, t) \<Longrightarrow>
    chat_step E L s (t\<lparr>ui_events := b\<rparr>)"
| reads: "cr_Messages s = None \<Longrightarrow> run_state (readLoop_iter E L) s = (Returns (), t) \<Longrightarrow> chat_step E L s t"
| answered: "cr_once s \<Longrightarrow> run_state (room_handler sid) (s\<lparr>cr_once := False\<rparr>) = ((), t) \<Longrightarrow> chat_step E L s t"
| stopped: "ui_stopped s \<Longrightarrow> ui_doneCh s = 0 \<Longrightarrow> run_state ui_end s = ((), t) \<Longrightarrow> chat_step E L s t"
| node: "relay_inv L t \<Longrightarrow> relay_state.more t = relay_state.more s \<Longrightarrow> chat_step E L s t"

section \<open>Invariant\<close>

text \<open>
  No peer is listed twice, the channels hold no more than they can, and a line in the input channel
  is neither blank nor the command to quit.
\<close>

definition chat_inv :: "'a chat_state_scheme \<Rightarrow> bool" where
  "chat_inv s = (distinct (cr_PeerList s) \<and> length (ui_inputCh s) \<le> inputCap \<and> ui_doneCh s \<le> 1 \<and>
     (\<forall>l \<in> set (ui_inputCh s). l \<noteq> '''' \<and> l \<noteq> ''/quit''))"

lemma chat_fields:
  assumes "relay_state.more (s :: 'a chat_state_scheme) = relay_state.more t"
  shows "cr_PeerList s = cr_PeerList t" "ui_inputCh s = ui_inputCh t" "ui_doneCh s = ui_doneCh t"
    "cr_roomName s = cr_roomName t" "cr_Messages s = cr_Messages t" "ui_msgW s = ui_msgW t" "cr_nick s = cr_nick t"
  using assms by (cases s; cases t; simp)+

lemma chat_inv_on_more: "on_more chat_inv"
  unfolding on_more_def by (metis chat_inv_def chat_fields(1-3))

abbreviation chat_ok :: "'l crypto_lib_scheme \<Rightarrow> 'a chat_state_scheme \<Rightarrow> bool" where
  "chat_ok L \<equiv> relay_ok L {} chat_inv"

lemma chat_ok_iff: "chat_ok L s = (relay_inv L s \<and> chat_inv s)"
  by (simp add: relay_ok_def conns_have_def chat_inv_on_more holds_def)

lemma relay_inv_chat [simp]:
  "relay_inv L (s\<lparr>cr_nick := a\<rparr>) = relay_inv L s" "relay_inv L (s\<lparr>cr_roomName := a\<rparr>) = relay_inv L s"
  "relay_inv L (s\<lparr>cr_self := a\<rparr>) = relay_inv L s" "relay_inv L (s\<lparr>cr_PeerList := ps\<rparr>) = relay_inv L s"
  "relay_inv L (s\<lparr>cr_Messages := m\<rparr>) = relay_inv L s" "relay_inv L (s\<lparr>cr_once := b\<rparr>) = relay_inv L s"
  "relay_inv L (s\<lparr>ui_inputText := a\<rparr>) = relay_inv L s" "relay_inv L (s\<lparr>ui_inputCh := ps\<rparr>) = relay_inv L s"
  "relay_inv L (s\<lparr>ui_doneCh := n\<rparr>) = relay_inv L s" "relay_inv L (s\<lparr>ui_msgW := a\<rparr>) = relay_inv L s"
  "relay_inv L (s\<lparr>ui_peersText := a\<rparr>) = relay_inv L s" "relay_inv L (s\<lparr>ui_stopped := b\<rparr>) = relay_inv L s"
  "relay_inv L (s\<lparr>ui_events := b\<rparr>) = relay_inv L s" "relay_inv L (s\<lparr>ui_title := a\<rparr>) = relay_inv L s"
  "relay_inv L (s\<lparr>ui_label := a\<rparr>) = relay_inv L s"
  by (simp_all add: relay_inv_def entries_defs)

lemma chat_inv_other [simp]:
  "chat_inv (s\<lparr>cr_nick := a\<rparr>) = chat_inv s" "chat_inv (s\<lparr>cr_roomName := a\<rparr>) = chat_inv s"
  "chat_inv (s\<lparr>cr_self := a\<rparr>) = chat_inv s" "chat_inv (s\<lparr>cr_Messages := m\<rparr>) = chat_inv s"
  "chat_inv (s\<lparr>cr_once := b\<rparr>) = chat_inv s" "chat_inv (s\<lparr>ui_inputText := a\<rparr>) = chat_inv s"
  "chat_inv (s\<lparr>ui_msgW := a\<rparr>) = chat_inv s" "chat_inv (s\<lparr>ui_peersText := a\<rparr>) = chat_inv s"
  "chat_inv (s\<lparr>ui_stopped := b\<rparr>) = chat_inv s" "chat_inv (s\<lparr>ui_events := b\<rparr>) = chat_inv s"
  by (simp_all add: chat_inv_def)

text \<open>Reading from a session does to the connection what its reads do.\<close>

lemma SecureSession_Read_keeps: "(\<And>n. keeps I (ic_ReadFull conn n)) \<Longrightarrow> keeps I (SecureSession_Read L conn n ss)"
  unfolding SecureSession_Read_def readNextInsecureMsgLen_def readNextMsgInsecure_def Let_def
  by (intro keeps_intros)

lemma secure_reader_keeps:
  assumes "\<And>n. keeps I (ic_ReadFull conn n)"
  shows "keeps (\<lambda>(s, ss). I s) (secure_reader L conn n)"
proof (rule keepsI, clarify)
  fix s ss
  assume "I s"
  then have "wp (SecureSession_Read L conn n ss) (\<lambda>_. I) s"
    by (rule keepsD [OF SecureSession_Read_keeps [OF assms]])
  then show "wp (secure_reader L conn n) (\<lambda>_ (s, ss). I s) (s, ss)"
    unfolding wp_secure_reader by (rule wp_mono) (auto split: outcome.split)
qed

lemma ReadPayload_keeps: "(\<And>n. keeps I (rd n)) \<Longrightarrow> keeps I (ReadPayload rd)"
  unfolding ReadPayload_def by (intro keeps_intros)

lemma store_reader_ok: "keeps (relay_ok L K P) (store_reader sid ss)"
proof (rule keepsI)
  fix s
  assume ok: "relay_ok L K P s"
  have "secure_ok L (conns s) sid (sc\<lparr>sc_session := (sc_session sc)\<lparr>dec := d, qseek := q, qbuf := b\<rparr>\<rparr>)"
    if "secureConnMap s sid = Some sc" for sc d q b
    using relay_ok_secure [OF ok that] same_identity_authentic
      [of "sc_session sc" "(sc_session sc)\<lparr>dec := d, qseek := q, qbuf := b\<rparr>" L]
    by (simp add: secure_ok_def same_identity_def)
  with ok show "wp (store_reader sid ss) (\<lambda>_. relay_ok L K P) s"
    by (auto simp: store_reader_def relay_ok_store_secure split: option.split)
qed

lemma secure_ReadPayload_ok:
  assumes "wait_ok L P E"
  shows "keeps (relay_ok L K P) (secure_ReadPayload E Lc sid sc)"
proof -
  let ?m = "ReadPayload (secure_ReadFull Lc (circuit_conn_io E Lc (sc_conn sc)))"
  have "keeps (\<lambda>(s, ss). relay_ok L K P s) ?m"
    unfolding secure_ReadFull_def
    by (intro ReadPayload_keeps ReadFull_keeps secure_reader_keeps circuit_ReadFull_ok assms)
  then have "keeps (relay_ok L K P) (State (\<lambda>s. case run_state ?m (s, sc_session sc) of (r, (t, ss)) \<Rightarrow> ((r, ss), t)))"
    by (auto simp: keeps_def split: prod.split) (metis (mono_tags, lifting) case_prod_conv snd_conv)
  then show ?thesis
    unfolding secure_ReadPayload_def by (intro keeps_intros store_reader_ok)
qed

lemma readLoop_iter_ok: "wait_ok L chat_inv E \<Longrightarrow> keeps (chat_ok L) (readLoop_iter E Lc)"
  unfolding readLoop_iter_def
  by (intro keeps_intros secure_ReadPayload_ok) (simp_all add: GetCircuit_def GetSecureConn_def keeps_gets chat_ok_iff)

text \<open>A line is sent with \<open>SendMessage\<close>, whose error is dropped.\<close>

definition chat_payload :: "string \<Rightarrow> string \<Rightarrow> bytes" where
  "chat_payload nick input = enc_chat (chat_text nick (str_bytes input))"

lemma wp_handle_input:
  "wp (handle_input E L input) Q s = (if secureConnMap s (cr_roomName s) = None then Q (Returns ()) s
     else wp (SendMessage E L (EncodePayload (chat_payload (cr_nick s) input)) (cr_roomName s))
       (\<lambda>_. wp (displaySelfMessage input) (\<lambda>_. Q (Returns ()))) s)"
  by (auto simp: handle_input_def SendMessage_def GetCircuit_def GetSecureConn_def chat_payload_def chat_Marshal_enc wp_simps
      case_prod_unfold split: option.split)

lemma handle_input_ok: "keeps (chat_ok L) (handle_input E L input)"
proof (rule keepsI)
  fix s :: "'a chat_state_scheme"
  assume ok: "chat_ok L s"
  have "chat_ok L (t\<lparr>ui_msgW := x\<rparr>)" if "chat_ok L t" for t :: "'a chat_state_scheme" and x
    using that by (simp add: chat_ok_iff)
  with ok show "wp (handle_input E L input) (\<lambda>_. chat_ok L) s"
    unfolding wp_handle_input displaySelfMessage_def by (auto intro!: wp_mono [OF keepsD [OF SendMessage_ok ok]])
qed

lemma isSave_iff: "fold (\<lambda>p b. if p = x then True else b) ps b0 = (b0 \<or> x \<in> set ps)"
  by (induction ps arbitrary: b0) auto

lemma handle_message_ok: "keeps (chat_ok L) (handle_message m)"
  unfolding handle_message_def displayChatMessage_def Let_def
  by (rule keepsI) (auto simp: isSave_iff chat_ok_iff chat_inv_def wp_simps split: prod.split outcome.split)

lemma input_done_ok: "keeps (chat_ok L) (input_done k)"
  unfolding input_done_def
  by (rule keepsI) (auto simp: chat_ok_iff chat_inv_def wp_simps)

lemma refreshPeers_ok: "keeps (chat_ok L) (refreshPeers E)"
  unfolding refreshPeers_def
  by (rule keepsI) (auto simp: chat_ok_iff split: outcome.split)

lemma handleEvents_iter_ok:
  assumes "chat_ok L s" and "ready sel s"
  shows "wp (handleEvents_iter E L sel) (\<lambda>_. chat_ok L) s"
proof (cases sel)
  case SelInput
  have "chat_ok L (s\<lparr>ui_inputCh := tl (ui_inputCh s)\<rparr>)"
    using assms SelInput by (auto simp: chat_ok_iff chat_inv_def dest: list.set_sel(2))
  then show ?thesis
    using SelInput by (auto simp: handleEvents_iter_def wp_simps split: outcome.split intro!: wp_mono [OF keepsD [OF handle_input_ok]])
next
  case SelMessage
  have "chat_ok L (s\<lparr>cr_Messages := None\<rparr>)" using assms by (simp add: chat_ok_iff)
  then show ?thesis
    using SelMessage by (auto simp: handleEvents_iter_def wp_simps split: outcome.split intro!: wp_mono [OF keepsD [OF handle_message_ok]])
next
  case SelTick
  have "keeps (chat_ok L) (obind (refreshPeers E) (\<lambda>_. ret (Returns True)))"
    by (intro keeps_intros refreshPeers_ok)
  then show ?thesis using SelTick assms(1) by (simp add: handleEvents_iter_def keepsD)
next
  case SelDone
  then show ?thesis using assms by (auto simp: handleEvents_iter_def chat_ok_iff chat_inv_def)
qed

lemma chat_step_ok:
  assumes "chat_step E L s t" and "chat_ok L s" and "wait_ok L chat_inv E"
  shows "chat_ok L t"
  using assms(1)
proof cases
  case (leave k)
  then show ?thesis by (rule keeps_run [OF input_done_ok assms(2)])
next
  case (event sel b t')
  with wpD [OF handleEvents_iter_ok [OF assms(2) event(3)] event(4)] show ?thesis by (simp add: chat_ok_iff)
next
  case reads
  then show ?thesis using keeps_run [OF readLoop_iter_ok [OF assms(3)] assms(2)] by blast
next
  case node
  with assms(2) chat_inv_on_more show ?thesis by (auto simp: chat_ok_iff on_more_def)
next
  case (typing x)
  with assms(2) show ?thesis by (simp add: chat_ok_iff)
next
  case (answered sid)
  then have "t = s\<lparr>cr_once := False, cr_roomName := sid\<rparr>" by (simp add: room_handler_def)
  with assms(2) show ?thesis by (simp add: chat_ok_iff)
next
  case stopped
  then have "t = s\<lparr>ui_doneCh := 1\<rparr>" by (simp add: ui_end_def)
  with assms(2) show ?thesis by (simp add: chat_ok_iff chat_inv_def)
qed

section \<open>A conversation\<close>

text \<open>What the sender's event loop does with the lines that wait, and the receiver with as many messages.\<close>

primrec send_lines ::
  "('a chat_state_scheme, 'e) relay_env_scheme \<Rightarrow> 'l crypto_lib_scheme \<Rightarrow> string list \<Rightarrow>
   ('a chat_state_scheme, unit outcome) state" where
  "send_lines E L [] = ret (Returns ())"
| "send_lines E L (l # ls) = obind (handle_input E L l) (\<lambda>_. send_lines E L ls)"

primrec show_messages ::
  "('a chat_state_scheme, 'e) chat_env_scheme \<Rightarrow> 'l crypto_lib_scheme \<Rightarrow> nat \<Rightarrow> ('a chat_state_scheme, unit outcome) state" where
  "show_messages E L 0 = ret (Returns ())"
| "show_messages E L (Suc n) =
     obind (readLoop_iter E L) (\<lambda>_. obind (handleEvents_iter E L SelMessage) (\<lambda>_. show_messages E L n))"

text \<open>A line whose message fits the length prefix of 32 bits is read back as it was.\<close>

definition readable :: "string \<Rightarrow> string \<Rightarrow> bool" where
  "readable who l = (length who + length l < 2 ^ 31)"

lemma readable_payload:
  assumes "readable who l"
  shows "chat_Unmarshal (chat_payload who l) chat_Reset = Returns (chat_text who (str_bytes l), None)"
    and "length (chat_payload who l) < 2 ^ 32"
  using assms chat_text_size [of who "str_bytes l"] chat_text_wf [of who "str_bytes l"]
  by (simp_all add: readable_def chat_payload_def chat_read_back length_enc_chat)

definition line_bytes :: "string \<Rightarrow> string list \<Rightarrow> bytes list" where
  "line_bytes who ls = concat (map (\<lambda>l. chunks (EncodePayload (chat_payload who l))) ls)"

lemma sent_onD:
  assumes "sent_on L sid cs data s t" and "secureConnMap s sid = Some sc"
  shows "secureConnMap t sid = Some (sc\<lparr>sc_session := (sc_session sc)
      \<lparr>enc := Some (snd (encode_chunks L cs (chunks data)))\<rparr>\<rparr>)"
    and "one_stream Lc a sid i t = one_stream Lc a sid i s" and "relay_state.more t = relay_state.more s"
  using assms by (cases s; cases t; simp add: sent_on_def one_stream_def)+

lemma one_stream_msgW [simp]: "one_stream L a sid i (s\<lparr>ui_msgW := x\<rparr>) = one_stream L a sid i s"
  by (simp add: one_stream_def)

lemma send_lines_carried:
  assumes "\<And>t j b. write_res E t j b = None"
  shows "secureConnMap s sid = Some sc \<Longrightarrow> enc (sc_session sc) = Some cs \<Longrightarrow> one_stream L (sc_conn sc) sid i s \<Longrightarrow>
    carries L sid i k (tr s) \<Longrightarrow> cr_roomName s = sid \<Longrightarrow>
    wp (send_lines E L ls) (\<lambda>x t. x = Returns () \<and> carries L sid i k (tr t) \<and>
      payloads L i k (tr t) = payloads L i k (tr s) @ concat (fst (encode_chunks L cs (line_bytes (cr_nick s) ls))) \<and>
      ui_msgW t = ui_msgW s @ concat (map (chat_line ''yellow'' (cr_nick s)) ls)) s"
proof (induction ls arbitrary: s sc cs)
  case Nil
  then show ?case by (simp add: line_bytes_def)
next
  case (Cons l ls)
  let ?data = "EncodePayload (chat_payload (cr_nick s) l)"
  let ?cs = "snd (encode_chunks L cs (chunks ?data))"
  let ?sc = "sc\<lparr>sc_session := (sc_session sc)\<lparr>enc := Some ?cs\<rparr>\<rparr>"
  let ?Q = "\<lambda>x u. x = Returns () \<and> carries L sid i k (tr u) \<and>
      payloads L i k (tr u) = payloads L i k (tr s) @ concat (fst (encode_chunks L cs (line_bytes (cr_nick s) (l # ls)))) \<and>
      ui_msgW u = ui_msgW s @ concat (map (chat_line ''yellow'' (cr_nick s)) (l # ls))"
  note step = SendMessage_open [OF Cons.prems(1-4) assms, of ?data]
  have rest: "wp (send_lines E L ls) ?Q
      (t\<lparr>ui_msgW := ui_msgW t @ chat_line ''yellow'' (cr_nick t) l\<rparr>)" (is "wp _ _ ?t")
    if t: "carries L sid i k (tr t)" "sent_on L sid cs ?data s t"
      "payloads L i k (tr t) = payloads L i k (tr s) @ concat (fst (encode_chunks L cs (chunks ?data)))" for t
  proof -
    note d = sent_onD [OF t(2) Cons.prems(1)] and f = chat_fields [OF sent_onD(3) [OF t(2) Cons.prems(1)]]
    have "one_stream L (sc_conn sc) sid i t"
      using Cons.prems(3) sent_onD(2) [OF t(2) Cons.prems(1)] by blast
    then have "wp (send_lines E L ls) (\<lambda>x u. x = Returns () \<and> carries L sid i k (tr u) \<and>
      payloads L i k (tr u) = payloads L i k (tr ?t) @ concat (fst (encode_chunks L ?cs (line_bytes (cr_nick ?t) ls))) \<and>
      ui_msgW u = ui_msgW ?t @ concat (map (chat_line ''yellow'' (cr_nick ?t)) ls)) ?t"
      using d t Cons.prems f by (intro Cons.IH [of ?t ?sc ?cs]) simp_all
    then show ?thesis
      using t f by (auto elim!: wp_mono simp: line_bytes_def encode_chunks_append)
  qed
  have "wp (SendMessage E L ?data sid) (\<lambda>_. wp (displaySelfMessage l) (\<lambda>_. wp (send_lines E L ls) ?Q)) s"
    by (rule wp_mono [OF step]) (simp only: displaySelfMessage_def wp_modify rest)
  then show ?case
    using Cons.prems(1,5) by (simp add: wp_handle_input wp_obind)
qed

text \<open>
  The read loop takes the next message off the stream; only the buffer of the connection and the
  reading half of the session change.
\<close>

lemma secure_stream_reader:
  "secure_stream L (ss'\<lparr>dec := dec ss, qseek := qseek ss, qbuf := qbuf ss\<rparr>) inp plain = secure_stream L ss inp plain"
  by (simp add: secure_stream_def queued_def split: option.split)

lemma only_read_fields:
  assumes "only_read a s t p"
  shows "get_buffer a t = p" "secureConnMap t = secureConnMap s" "relay_state.more t = relay_state.more s"
  using assms unfolding only_read_def by (cases s; cases t; simp)+

lemma readLoop_iter_next:
  assumes sc: "secureConnMap s (cr_roomName s) = Some sc" and len: "length msg < 2 ^ 32"
    and view: "secure_stream L (sc_session sc) (get_buffer (sc_conn sc) s) (EncodePayload msg @ rest)"
  shows "wp (readLoop_iter E L) (\<lambda>r t. r = Returns () \<and> cr_Messages t = Some msg \<and>
    cr_roomName t = cr_roomName s \<and> ui_msgW t = ui_msgW s \<and> cr_PeerList t = cr_PeerList s \<and>
    (\<exists>sc'. secureConnMap t (cr_roomName s) = Some sc' \<and>
       secure_stream L (sc_session sc') (get_buffer (sc_conn sc') t) rest)) s"
proof -
  let ?a = "sc_conn sc"
  have "only_read ?a s s (get_buffer ?a s)" by (simp add: only_read_def)
  with view have seen: "quiet_circuit.secure_seen ?a s L s (sc_session sc) (EncodePayload msg @ rest)"
    unfolding quiet_circuit.secure_seen_def by blast
  have read: "wp (ReadPayload (secure_ReadFull L (circuit_conn_io E L ?a))) (\<lambda>r (t, ss). r = Returns (msg, None) \<and>
      (\<exists>inp. only_read ?a s t inp \<and> secure_stream L ss inp rest)) (s, sc_session sc)"
    by (rule wp_mono [OF secure_source.ReadPayload_EncodePayload [where z = s and rest = rest, OF _ len]])
      (use seen in \<open>auto simp: quiet_circuit.secure_seen_def\<close>)
  then obtain t ss inp where run: "run_state (ReadPayload (secure_ReadFull L (circuit_conn_io E L ?a))) (s, sc_session sc) =
      (Returns (msg, None), (t, ss))" and t: "only_read ?a s t inp" "secure_stream L ss inp rest"
    by (auto simp: wp_def split: prod.splits)
  note f = only_read_fields [OF t(1)]
  show ?thesis
    using sc run f t(2) chat_fields [OF f(3)]
    by (auto simp: readLoop_iter_def GetCircuit_def GetSecureConn_def secure_ReadPayload_def store_reader_def wp_def
        store_secure_def secure_stream_reader get_buffer_def)
qed

lemma handle_message_shows:
  assumes "readable who l" and "cr_Messages s = Some (chat_payload who l)"
  shows "wp (handleEvents_iter E L SelMessage) (\<lambda>r t. r = Returns True \<and> relay_state.conns t = conns s \<and>
    secureConnMap t = secureConnMap s \<and> cr_roomName t = cr_roomName s \<and>
    ui_msgW t = ui_msgW s @ chat_line ''green'' who l \<and>
    set (cr_PeerList t) = insert who (set (cr_PeerList s))) s"
  using assms
  by (auto simp: handleEvents_iter_def handle_message_def readable_payload displayChatMessage_def Let_def isSave_iff wp_simps)

lemma show_messages_lines:
  "list_all (readable who) ls \<Longrightarrow> secureConnMap s (cr_roomName s) = Some sc \<Longrightarrow>
   secure_stream L (sc_session sc) (get_buffer (sc_conn sc) s)
     (concat (map (\<lambda>l. EncodePayload (chat_payload who l)) ls)) \<Longrightarrow>
   wp (show_messages E L (length ls)) (\<lambda>r t. r = Returns () \<and>
     ui_msgW t = ui_msgW s @ concat (map (chat_line ''green'' who) ls) \<and> 
     set (cr_PeerList t) = set (cr_PeerList s) \<union> (if ls = [] then {} else {who})) s"
proof (induction ls arbitrary: s sc)
  case (Cons l ls)
  then have "readable who l" by simp
  then have l: "readable who l" "length (chat_payload who l) < 2 ^ 32" by (simp, intro readable_payload)
  note read = readLoop_iter_next [OF Cons.prems(2) l(2), of L "concat (map (\<lambda>l. EncodePayload (chat_payload who l)) ls)"]
  let ?Q = "\<lambda>r t. r = Returns () \<and>
     ui_msgW t = ui_msgW s @ chat_line ''green'' who l @ concat (map (chat_line ''green'' who) ls) \<and>
     set (cr_PeerList t) = insert who (set (cr_PeerList s))"
  have rest: "wp (show_messages E L (length ls)) ?Q u"
    if "secureConnMap u (cr_roomName u) = Some sc'" "ui_msgW u = ui_msgW s @ chat_line ''green'' who l"
      "set (cr_PeerList u) = insert who (set (cr_PeerList s))"
      "secure_stream L (sc_session sc') (get_buffer (sc_conn sc') u) (concat (map (\<lambda>l. EncodePayload (chat_payload who l)) ls))"
    for u sc'
    using Cons.prems(1) that by (auto split: if_splits intro!: wp_mono [OF Cons.IH [OF _ that(1,4)]])
  have "wp (obind (handleEvents_iter E L SelMessage) (\<lambda>_. show_messages E L (length ls))) ?Q t"
    if "cr_Messages t = Some (chat_payload who l)" "cr_roomName t = cr_roomName s" "ui_msgW t = ui_msgW s"
      "cr_PeerList t = cr_PeerList s" "secureConnMap t (cr_roomName s) = Some sc'"
      "secure_stream L (sc_session sc') (get_buffer (sc_conn sc') t) (concat (map (\<lambda>l. EncodePayload (chat_payload who l)) ls))"
    for t sc'
    using that by (intro wp_obind_step [OF handle_message_shows [OF l(1) that(1)]])
      (auto intro!: rest [of _ sc'] simp: get_buffer_def)
  with Cons.prems(3) show ?case
    by (auto intro!: wp_obind_step [OF read])
qed simp

section \<open>Properties\<close>

text \<open>
  C18: in every state that a chat client can reach from its start, over all interleavings of the user,
  the event loop, the read loop, the event bus and the rest of the node, no peer is listed twice, at
  most 32 lines wait to be sent, and a line that waits is neither blank nor the command to quit, so
  such a line is never sent. What runs while the read loop waits is assumed to keep this.
\<close>

theorem chat_invariant:
  assumes "run_state (Chat E nick selfID room) s\<^sub>0 = (Returns (), s)" and "(chat_step E L)\<^sup>*\<^sup>* s t"
    and "relay_inv L s\<^sub>0" and "wait_ok L chat_inv E"
  shows "distinct (cr_PeerList t) \<and> length (ui_inputCh t) \<le> 32 \<and>
    (\<forall>l \<in> set (ui_inputCh t). l \<noteq> '''' \<and> l \<noteq> ''/quit'')"
proof -
  have "wp (Chat E nick selfID room) (\<lambda>r t. r = Returns () \<longrightarrow> chat_ok L t) s\<^sub>0"
    using assms(3) by (auto simp: Chat_def JoinChatRoom_def NewChatUI_def chat_ok_iff chat_inv_def wp_simps
        split: option.split)
  with assms(1) have "chat_ok L s" by (simp add: wp_def)
  with assms(2) have "chat_ok L t"
    by (induction rule: rtranclp_induct) (blast intro: chat_step_ok assms(4))+
  then show ?thesis by (simp add: chat_ok_iff chat_inv_def inputCap_def)
qed

text \<open>
  A peer can crash the chat of another. When the slice that the runtime makes of the sender's name
  has no room for eight bytes, as for an empty name, the message is shown and the next refresh of the
  list of peers panics.
\<close>

theorem nameless_peer_crashes:
  assumes "slice_cap E (length (cm_PeerID c)) < 8" and "chat_Unmarshal m chat_Reset = Returns (c, None)"
    and "cr_Messages s = Some m"
  shows "wp (handleEvents_iter E L SelMessage) (\<lambda>r t. r = Returns True \<and>
     ui_msgW t = ui_msgW s @ chat_line ''green'' (cm_PeerID c) (bytes_str (cm_Data c)) \<and>
     fst (run_state (handleEvents_iter E L SelTick) t) = Panics) s"
proof -
  have "idStrs E ps = Panics" if "cm_PeerID c \<in> set ps" for ps
    using that assms(1) by (induction ps) (auto simp: first8_def split: outcome.split)
  then show ?thesis
    using assms(2,3)
    by (auto simp: handleEvents_iter_def handle_message_def displayChatMessage_def refreshPeers_def Let_def
        isSave_iff wp_simps)
qed

text \<open>
  C36: a peer can crash the chat of another with one message. When the next payload of the secure
  connection is a message whose first field has a length that makes the index overflow, the read loop
  hands it to the event loop, and decoding it panics; nothing recovers, so the process ends.
\<close>

theorem malformed_message_crashes:
  assumes "overlong m" and "length m < 2 ^ 32"
    and "secureConnMap s (cr_roomName s) = Some sc"
    and "secure_stream L (sc_session sc) (get_buffer (sc_conn sc) s) (EncodePayload m @ rest)"
  shows "wp (obind (readLoop_iter E L) (\<lambda>_. handleEvents_iter E L SelMessage)) (\<lambda>r t. r = Panics) s"
proof -
  have panics: "chat_Unmarshal m c = Panics" for c
    using assms(1,2) by (intro overlong_panics) simp_all
  show ?thesis
    by (rule wp_obind_step [OF readLoop_iter_next [OF assms(3,2,4)]])
      (auto simp: handleEvents_iter_def handle_message_def panics wp_obind)
qed

end
