(* ===== verification/WN_Start.thy ===== *)
theory WN_Start
  imports WN_Chat
begin

text \<open>
  How a node comes to be: \<^verbatim>\<open>main.go\<close> (key type, account, white list, mode), \<^verbatim>\<open>network/host/host.go\<close>,
  \<^verbatim>\<open>network/node.go\<close>, the constructors of \<^verbatim>\<open>network/noise/noise.go\<close> and \<^verbatim>\<open>network/gossip/pubsub.go\<close>, and the
  clients of \<^verbatim>\<open>sdk/sdk.go\<close>. What libp2p answers while the pieces are made is the record \<open>host_lib\<close>: an
  error or nothing, and for the host its identity. A nil pointer that is dereferenced is a panic.
\<close>

section \<open>Configuration\<close>

record net_config =
  RendezvousString :: string
  ListenHost :: string
  ListenPort :: int
  BootStrapPeers :: string
  Mode :: service_mode
  WhiteList :: bool

text \<open>
  \<open>AddrInfoFromP2pAddr\<close> returns nil for an address without a peer; its error is ignored in both places.
\<close>

record host_lib =
  noise_New :: "p2p_priv \<Rightarrow> goerr option"
  multiaddr_New :: "string \<Rightarrow> goerr + string"
  AddrInfoFromP2pAddr :: "string \<Rightarrow> peer_info option"
  libp2p_New :: "net_config \<Rightarrow> p2p_priv \<Rightarrow> goerr + peer_id"
  kaddht_New :: "peer_id \<Rightarrow> peer_info list \<Rightarrow> goerr option"
  NewGossipSub :: "peer_id \<Rightarrow> goerr option"
  topic_Join :: "peer_id \<Rightarrow> goerr option"
  topic_Subscribe :: "peer_id \<Rightarrow> goerr option"
  dht_Bootstrap :: "peer_id \<Rightarrow> goerr option"

section \<open>The host\<close>

definition boot_info :: "host_lib \<Rightarrow> string \<Rightarrow> (goerr + peer_info) outcome" where
  "boot_info H addr =
     (case multiaddr_New H addr of
        Inl err \<Rightarrow> Returns (Inl err)
      | Inr maddr \<Rightarrow> (case AddrInfoFromP2pAddr H maddr of None \<Rightarrow> Panics | Some info \<Rightarrow> Returns (Inr info)))"

text \<open>The result is the identity of the host, and whether it has a routing table.\<close>

definition NewHost :: "host_lib \<Rightarrow> net_config \<Rightarrow> p2p_priv \<Rightarrow> (goerr + peer_id \<times> bool) outcome" where
  "NewHost H cfg priv =
     (case noise_New H priv of
        Some err \<Rightarrow> Returns (Inl err)
      | None \<Rightarrow>
          then_ok (if BootStrapPeers cfg \<noteq> ''''
                   then then_ok (boot_info H (BootStrapPeers cfg)) (\<lambda>bootinfo. Returns (Inr [bootinfo]))
                   else Returns (Inr []))
            (\<lambda>bootpeers.
               case libp2p_New H cfg priv of
                 Inl err \<Rightarrow> Returns (Inl err)
               | Inr h \<Rightarrow>
                   (if Mode cfg = ClientMode then Returns (Inr (h, False))
                    else (case kaddht_New H h (if Mode cfg = BootMode then [] else bootpeers) of
                            Some err \<Rightarrow> Returns (Inl err)
                          | None \<Rightarrow> Returns (Inr (h, True))))))"

section \<open>The services\<close>

record noise_service =
  ns_cfg :: relay_cfg
  ns_state :: service_state
  ns_handlers :: "string list"
  ns_bootstrap :: peer_id
  ns_known :: "peer_info list"

definition NewNoiseService ::
  "host_lib \<Rightarrow> net_config \<Rightarrow> peer_id \<Rightarrow> p2p_priv \<Rightarrow> account \<Rightarrow> (goerr + noise_service) outcome" where
  "NewNoiseService H cfg h key acc =
     (let service = \<lparr>ns_cfg = \<lparr>cfg_role = Mode cfg, cfg_hostID = h, cfg_privateKey = key,
                        cfg_account = pubKey acc, cfg_accountPriv = privKey acc\<rparr>,
                     ns_state = NewNode,
                     ns_handlers = [ACK_PROTOCOL, PROXY_PROTOCOL] @
                        (if Mode cfg \<noteq> BootMode then [RelayProtocol, CMD_PROTOCOL] else []),
                     ns_bootstrap = '''', ns_known = []\<rparr>
      in if BootStrapPeers cfg = '''' then Returns (Inr service)
         else then_ok (boot_info H (BootStrapPeers cfg)) (\<lambda>peerinfo.
                Returns (Inr (service\<lparr>ns_bootstrap := ai_ID peerinfo, ns_known := [peerinfo]\<rparr>))))"

definition NewDHTService :: "host_lib \<Rightarrow> peer_id \<Rightarrow> goerr option" where
  "NewDHTService H h =
     (case NewGossipSub H h of
        Some err \<Rightarrow> Some err
      | None \<Rightarrow> (case topic_Join H h of Some err \<Rightarrow> Some err | None \<Rightarrow> topic_Subscribe H h))"

record node =
  node_service :: noise_service
  node_DHT :: bool

text \<open>The public key of the account is asked for before the test whether there is an account.\<close>

definition network_NewNode ::
  "host_lib \<Rightarrow> 'l crypto_lib_scheme \<Rightarrow> net_config \<Rightarrow> account option \<Rightarrow> (goerr + node) outcome" where
  "network_NewNode H L cfg acc =
     (case acc of
        None \<Rightarrow> Panics
      | Some a \<Rightarrow>
          (case GetP2PPrivKey L acc of
             None \<Rightarrow> Returns (Inl ''gen PrivKey err in NewDummyHost'')
           | Some priv \<Rightarrow>
               then_ok (NewHost H cfg priv) (\<lambda>(h, dht).
               then_ok (NewNoiseService H cfg h priv a) (\<lambda>noiseService.
                 if Mode cfg = ClientMode then Returns (Inr \<lparr>node_service = noiseService, node_DHT = False\<rparr>)
                 else (case NewDHTService H h of
                         Some err \<Rightarrow> Returns (Inl err)
                       | None \<Rightarrow> Returns (Inr \<lparr>node_service = noiseService, node_DHT = True\<rparr>))))))"

text \<open>
  A node that runs: whether the gossip actor exists, whether the loop on negotiations was started, and
  the mode of its notifications. An error of the routing table is a panic.
\<close>

record running =
  run_node :: node
  run_gossip :: bool
  run_noiseLoop :: bool
  run_whiteList :: bool

definition InitDHT :: "host_lib \<Rightarrow> peer_id \<Rightarrow> goerr option" where
  "InitDHT H h = dht_Bootstrap H h"

definition node_Start :: "host_lib \<Rightarrow> net_config \<Rightarrow> node \<Rightarrow> running outcome" where
  "node_Start H cfg nd =
     (if Mode cfg = ClientMode
      then Returns \<lparr>run_node = nd, run_gossip = False, run_noiseLoop = False, run_whiteList = WhiteList cfg\<rparr>
      else (case InitDHT H (cfg_hostID (ns_cfg (node_service nd))) of
              Some err \<Rightarrow> Panics
            | None \<Rightarrow> Returns \<lparr>run_node = nd, run_gossip = True, run_noiseLoop = (Mode cfg = ServerMode),
                               run_whiteList = WhiteList cfg\<rparr>))"

section \<open>Clients of the SDK\<close>

definition client_config :: "string \<Rightarrow> net_config" where
  "client_config bootstrap = \<lparr>RendezvousString = ''whitenoise'', ListenHost = '''', ListenPort = 0,
     BootStrapPeers = bootstrap, Mode = ClientMode, WhiteList = False\<rparr>"

definition start_client ::
  "host_lib \<Rightarrow> 'l crypto_lib_scheme \<Rightarrow> net_config \<Rightarrow> account option \<Rightarrow> (goerr + running) outcome" where
  "start_client H L cfg acc =
     then_ok (network_NewNode H L cfg acc) (\<lambda>nd. and_then (node_Start H cfg nd) (\<lambda>r. Returns (Inr r)))"

definition NewClient ::
  "host_lib \<Rightarrow> 'l crypto_lib_scheme \<Rightarrow> string \<Rightarrow> account option \<Rightarrow> (goerr + running) outcome" where
  "NewClient H L bootstrap acc = start_client H L (client_config bootstrap) acc"

definition NewOneTimeClient ::
  "host_lib \<Rightarrow> 'l crypto_lib_scheme \<Rightarrow> string \<Rightarrow> int \<Rightarrow> bytes \<Rightarrow> (goerr + running) outcome" where
  "NewOneTimeClient H L bootstrap keyType rand =
     (case NewOneTimeAccount L keyType rand of
        Inl err \<Rightarrow> Returns (Inl err)
      | Inr acc \<Rightarrow> start_client H L (client_config bootstrap) (Some acc))"

section \<open>The command line\<close>

definition decode_keytype :: "string \<Rightarrow> int" where
  "decode_keytype s =
     (if s = ''ed25519'' then Ed25519 else if s = ''secp256k1'' then Secpk1 else if s = ''ecdsa'' then ECDSA
      else Ed25519)"

text \<open>The account of the key file, unless it is missing or of another type.\<close>

definition start_account ::
  "'l crypto_lib_scheme \<Rightarrow> leveldb \<Rightarrow> key_file \<Rightarrow> int \<Rightarrow> bytes \<Rightarrow> account option outcome" where
  "start_account L D F keyType rand =
     and_then (GetAccountFromFile L F) (\<lambda>acc.
       if acc = None \<or> KeyType (the acc) \<noteq> keyType
       then (if keyType \<in> {ECDSA, Ed25519, Secpk1}
             then and_then (GetAccount L D keyType rand) (\<lambda>(acc, db). Returns acc) else Panics)
       else Returns acc)"

text \<open>\<open>ReadFile\<close> and \<open>yaml.Unmarshal\<close> give the listed identifiers; every error is a panic.\<close>

record whitelist_file =
  wl_ReadFile :: "goerr + bytes"
  wl_Unmarshal :: "bytes \<Rightarrow> goerr + string list"

fun list_peers :: "'l crypto_lib_scheme \<Rightarrow> string list \<Rightarrow> peer_id set \<Rightarrow> peer_id set outcome" where
  "list_peers L [] peers = Returns peers"
| "list_peers L (c # cs) peers =
     and_then (WhiteNoiseIDfromString L c) (\<lambda>r.
       case r of
         Inl err \<Rightarrow> Panics
       | Inr whiteNoiseID \<Rightarrow>
           (case GetPeerID L whiteNoiseID of
              Inl err \<Rightarrow> Panics
            | Inr peerId \<Rightarrow> list_peers L cs (insert peerId peers)))"

definition InitWhiteList :: "'l crypto_lib_scheme \<Rightarrow> whitelist_file \<Rightarrow> peer_id set outcome" where
  "InitWhiteList L Y =
     (case wl_ReadFile Y of
        Inl err \<Rightarrow> Panics
      | Inr whitelistConfig \<Rightarrow>
          (case wl_Unmarshal Y whitelistConfig of Inl err \<Rightarrow> Panics | Inr ids \<Rightarrow> list_peers L ids {}))"

record flags =
  fl_port :: int
  fl_bootstrap :: string
  fl_client :: bool
  fl_boot :: bool
  fl_whitelist :: bool
  fl_keytype :: string

definition start_config :: "flags \<Rightarrow> net_config" where
  "start_config fl =
     (let cfg = \<lparr>RendezvousString = ''whitenoise'', ListenHost = ''127.0.0.1'', ListenPort = fl_port fl,
                 BootStrapPeers = fl_bootstrap fl, Mode = ServerMode, WhiteList = fl_whitelist fl\<rparr>;
          cfg = (if fl_client fl then cfg\<lparr>Mode := ClientMode\<rparr> else cfg)
      in if fl_boot fl then cfg\<lparr>Mode := BootMode\<rparr> else cfg)"

text \<open>
  \<open>sigs\<close> are the signals that arrive, of those the program asked for: the first one is printed and ends
  the wait, which goes on for ever without one. The node runs meanwhile.
\<close>

definition waitToExit :: "string list \<Rightarrow> string outcome" where
  "waitToExit sigs = (case sigs of [] \<Rightarrow> Hangs | sig # _ \<Rightarrow> Returns (''received exit signal:'' @ sig))"

text \<open>
  Without the flag the white list stays the nil map, which holds nothing. The result is the node that
  ran, its white list, and what was printed at the end.
\<close>

definition Start ::
  "host_lib \<Rightarrow> 'l crypto_lib_scheme \<Rightarrow> leveldb \<Rightarrow> key_file \<Rightarrow> whitelist_file \<Rightarrow> bytes \<Rightarrow> flags \<Rightarrow> string list \<Rightarrow>
   (running \<times> peer_id set \<times> string) outcome" where
  "Start H L D F Y rand fl sigs =
     (let cfg = start_config fl
      in and_then (if fl_whitelist fl then InitWhiteList L Y else Returns {}) (\<lambda>peers.
         and_then (start_account L D F (decode_keytype (fl_keytype fl)) rand) (\<lambda>acc.
         and_then (network_NewNode H L cfg acc) (\<lambda>r.
           case r of
             Inl err \<Rightarrow> Panics
           | Inr nd \<Rightarrow>
               and_then (node_Start H cfg nd) (\<lambda>r.
               and_then (waitToExit sigs) (\<lambda>out. Returns (r, peers, out)))))))"

text \<open>
  The start of a chat: the client asks the bootstrap node for peers, registers with one of them at
  random, and dials the other client when one is named; every error is a panic. The result is the
  session, empty for a client that waits to be called.
\<close>

definition chat_connect ::
  "nat \<Rightarrow> ('a service_state_scheme, 'e) service_env_scheme \<Rightarrow> noise_service \<Rightarrow> 'l crypto_lib_scheme \<Rightarrow> nat \<Rightarrow> string \<Rightarrow>
   ('a service_state_scheme, string outcome) state" where
  "chat_connect fuel E service L random n =
     obind (sdk_GetMainNetPeers E L (ns_bootstrap service) 10) (\<lambda>r.
       case r of
         Inl err \<Rightarrow> ret Panics
       | Inr peers \<Rightarrow>
           (if length peers = 0 then ret Panics
            else let entry = peers ! (random mod length peers)
                 in obind (sdk_Register E (ns_cfg service) L entry) (\<lambda>err.
                      if err \<noteq> None then ret Panics
                      else if n \<noteq> ''''
                      then obind (Dial fuel E (ns_cfg service) L n) (\<lambda>r.
                             case r of
                               Inl err \<Rightarrow> ret Panics
                             | Inr (conn, sessionID) \<Rightarrow> ret (Returns sessionID))
                      else ret (Returns ''''))))"

definition start_chat_session ::
  "nat \<Rightarrow> ('a chat_state_scheme, 'e) chat_env_scheme \<Rightarrow> noise_service \<Rightarrow> 'l crypto_lib_scheme \<Rightarrow> nat \<Rightarrow> string \<Rightarrow> string \<Rightarrow>
   ('a chat_state_scheme, unit outcome) state" where
  "start_chat_session fuel E service L random n nick =
     obind (chat_connect fuel E service L random n) (\<lambda>sessionID.
       Chat E nick (sdk_GetWhiteNoiseID (ns_cfg service) L) sessionID)"

definition NoChat :: "service_state \<Rightarrow> chat_state" where
  "NoChat s = service_state.extend s (chat_state.fields '''' '''' '''' [] None False '''' '''' '''' [] 0 '''' '''' False False)"

definition StartChat ::
  "nat \<Rightarrow> (chat_state, 'e) chat_env_scheme \<Rightarrow> host_lib \<Rightarrow> 'l crypto_lib_scheme \<Rightarrow> leveldb \<Rightarrow> key_file \<Rightarrow> bytes \<Rightarrow>
   string \<Rightarrow> string \<Rightarrow> nat \<Rightarrow> string \<Rightarrow> string \<Rightarrow> string list \<Rightarrow> (chat_state \<times> string) outcome" where
  "StartChat fuel E H L D F rand bootstrap keytype random n nick sigs =
     and_then (start_account L D F (decode_keytype keytype) rand) (\<lambda>acc.
     and_then (NewClient H L bootstrap acc) (\<lambda>r.
       case r of
         Inl err \<Rightarrow> Panics
       | Inr client \<Rightarrow>
           (let service = node_service (run_node client)
            in case run_state (start_chat_session fuel E service L random n nick) (NoChat (ns_state service)) of
                 (Returns _, s) \<Rightarrow> and_then (waitToExit sigs) (\<lambda>out. Returns (s, out))
               | (Panics, _) \<Rightarrow> Panics
               | (Hangs, _) \<Rightarrow> Hangs)))"

text \<open>
  The program itself: the error that \<open>Run\<close> of the command line library gives becomes the text on the
  standard error stream and the exit code.
\<close>

definition main :: "goerr option \<Rightarrow> string \<times> nat" where
  "main err = (case err of None \<Rightarrow> ([], 0) | Some e \<Rightarrow> (e @ [CHR 0x0A], 1))"

text \<open>The flags, each with its names, its usage and its default, and the commands.\<close>

datatype cli_value = CliInt int | CliString string | CliBool

record cli_flag =
  flag_Name :: string
  flag_Usage :: string
  flag_Value :: cli_value

definition PortFlag :: cli_flag where
  "PortFlag = \<lparr>flag_Name = ''port, p'', flag_Usage = '''', flag_Value = CliInt 3331\<rparr>"

definition BootStrapFlag :: cli_flag where
  "BootStrapFlag = \<lparr>flag_Name = ''bootstrap, b'', flag_Usage = ''PeerId of the node to bootstrap from.'',
     flag_Value = CliString ''''\<rparr>"

definition NodeFlag :: cli_flag where
  "NodeFlag = \<lparr>flag_Name = ''node, n'', flag_Usage = ''PeerId of the node to connect to.'', flag_Value = CliString ''''\<rparr>"

definition ModeFlag :: cli_flag where
  "ModeFlag = \<lparr>flag_Name = ''client, c'',
     flag_Usage = ''Build a client node if flag is on and MainNet Node by default.'', flag_Value = CliBool\<rparr>"

definition BootFlag :: cli_flag where
  "BootFlag = \<lparr>flag_Name = ''boot'',
     flag_Usage = ''Build a boot node if flag is on and MainNet Node by default.'', flag_Value = CliBool\<rparr>"

definition LogLevelFlag :: cli_flag where
  "LogLevelFlag = \<lparr>flag_Name = ''log, l'', flag_Usage = '''', flag_Value = CliInt 2\<rparr>"

definition NickFlag :: cli_flag where
  "NickFlag = \<lparr>flag_Name = ''nick'', flag_Usage = ''Set nick name for chat example client'',
     flag_Value = CliString ''Alice''\<rparr>"

definition WhiteListFlag :: cli_flag where
  "WhiteListFlag = \<lparr>flag_Name = ''whitelist'', flag_Usage = ''Only serves clients in the whitelist.yml'',
     flag_Value = CliBool\<rparr>"

definition AccountFromFileFlag :: cli_flag where
  "AccountFromFileFlag = \<lparr>flag_Name = ''account, acc'',
     flag_Usage = ''Load WhiteNoise account from key file at this path'', flag_Value = CliString ''''\<rparr>"

definition KeyFlag :: cli_flag where
  "KeyFlag = \<lparr>flag_Name = ''keytype, ktype'', flag_Usage = ''Set key type'', flag_Value = CliString ''ed25519''\<rparr>"

datatype cli_action = ActStart | ActStartChat

record cli_command =
  cli_Name :: string
  cli_Usage :: string
  cli_Action :: cli_action
  cli_Flags :: "cli_flag list"

definition initApp :: "cli_command list" where
  "initApp = [
     \<lparr>cli_Name = ''start'', cli_Usage = ''Start Service'', cli_Action = ActStart,
      cli_Flags = [PortFlag, BootStrapFlag, ModeFlag, LogLevelFlag, BootFlag, WhiteListFlag, AccountFromFileFlag, KeyFlag]\<rparr>,
     \<lparr>cli_Name = ''chat'', cli_Usage = ''Start chat'', cli_Action = ActStartChat,
      cli_Flags = [BootStrapFlag, NodeFlag, LogLevelFlag, NickFlag, AccountFromFileFlag, KeyFlag]\<rparr>]"

section \<open>Behaviour\<close>

text \<open>The libp2p key of an account is a key for the account's public key.\<close>

definition p2p_keys_ok :: "'l crypto_lib_scheme \<Rightarrow> account \<Rightarrow> bool" where
  "p2p_keys_ok L acc =
     (case privKey acc of
        Ed25519PrivateKey k \<Rightarrow> (\<forall>b sk. p2p_MarshalEd25519Private L k = Inr b \<and> p2p_UnmarshalPrivateKey L b = Inr sk \<longrightarrow>
          p2p_same L (pubKey acc) (priv_GetPublic L sk))
      | Secp256k1PrivateKey k \<Rightarrow> p2p_same L (pubKey acc) (priv_GetPublic L (p2p_PrivFromSecp256k1 L k))
      | ECDSAPrivateKey k \<Rightarrow> (\<forall>sk pk. p2p_ECDSAKeyPair L k = Inr (sk, pk) \<longrightarrow> p2p_same L (pubKey acc) (priv_GetPublic L sk)))"

lemma GetP2PPrivKey_same:
  "p2p_keys_ok L acc \<Longrightarrow> GetP2PPrivKey L (Some acc) = Some sk \<Longrightarrow> p2p_same L (pubKey acc) (priv_GetPublic L sk)"
  by (cases "privKey acc")
    (auto simp: p2p_keys_ok_def GetP2PPrivKey_def Let_def split: sum.splits prod.splits)

lemma NewHost_identity: "NewHost H cfg priv = Returns (Inr (h, dht)) \<Longrightarrow> libp2p_New H cfg priv = Inr h"
  by (cases "libp2p_New H cfg priv") (auto simp: NewHost_def then_ok_Inr split: option.splits if_splits)

lemma NewNoiseService_cfg:
  "NewNoiseService H cfg h key acc = Returns (Inr service) \<Longrightarrow> ns_cfg service = \<lparr>cfg_role = Mode cfg, cfg_hostID = h,
     cfg_privateKey = key, cfg_account = pubKey acc, cfg_accountPriv = privKey acc\<rparr> \<and> ns_state service = NewNode"
  by (auto simp: NewNoiseService_def Let_def then_ok_Inr split: if_splits)

lemma network_NewNode_service:
  assumes "network_NewNode H L cfg (Some acc) = Returns (Inr nd)"
  obtains priv h where "GetP2PPrivKey L (Some acc) = Some priv" and "libp2p_New H cfg priv = Inr h"
    and "ns_cfg (node_service nd) = \<lparr>cfg_role = Mode cfg, cfg_hostID = h, cfg_privateKey = priv,
      cfg_account = pubKey acc, cfg_accountPriv = privKey acc\<rparr>"
    and "ns_state (node_service nd) = NewNode" and "node_DHT nd = (Mode cfg \<noteq> ClientMode)"
  using assms
  by (auto simp: network_NewNode_def then_ok_Inr dest!: NewHost_identity NewNoiseService_cfg
      split: option.splits if_splits)

text \<open>Without an account the start crashes: the error for a missing key is never reached.\<close>

lemma nil_account_panics: "network_NewNode H L cfg None = Panics"
  by (simp add: network_NewNode_def)

lemma list_peers_Cons:
  "list_peers L (c # cs) W = Returns W' \<longleftrightarrow> (\<exists>i p. WhiteNoiseIDfromString L c = Returns (Inr i) \<and>
     GetPeerID L i = Inr p \<and> list_peers L cs (insert p W) = Returns W')"
  by (auto simp: and_then_def split: outcome.split sum.split)

lemma list_peers_spec:
  "list_peers L ids W = Returns W' \<Longrightarrow> p \<in> W' \<longleftrightarrow> p \<in> W \<or>
     (\<exists>c \<in> set ids. \<exists>i. WhiteNoiseIDfromString L c = Returns (Inr i) \<and> GetPeerID L i = Inr p)"
proof (induction ids arbitrary: W)
  case (Cons c cs)
  from Cons.prems obtain i q where "WhiteNoiseIDfromString L c = Returns (Inr i)" "GetPeerID L i = Inr q"
      "list_peers L cs (insert q W) = Returns W'"
    by (auto simp only: list_peers_Cons)
  with Cons.IH [of "insert q W"] show ?case by auto
qed simp

text \<open>
  The flag library splits a name at its commas and panics on a name that is defined twice; within a
  command no two flags share one. \<open>ctx.Int("port")\<close> and the others ask for names that exist.
\<close>

fun names_of :: "string \<Rightarrow> string \<Rightarrow> string list" where
  "names_of acc [] = [acc]"
| "names_of acc (c # cs) =
     (if c = CHR '','' then acc # names_of [] cs
      else if c = CHR '' '' \<and> acc = [] then names_of [] cs else names_of (acc @ [c]) cs)"

definition command_names :: "cli_command \<Rightarrow> string list" where
  "command_names c = concat (map (\<lambda>f. names_of [] (flag_Name f)) (cli_Flags c))"

lemmas flag_defs = PortFlag_def BootStrapFlag_def NodeFlag_def ModeFlag_def BootFlag_def LogLevelFlag_def NickFlag_def
  WhiteListFlag_def AccountFromFileFlag_def KeyFlag_def initApp_def

lemma flags_distinct: "list_all (\<lambda>c. distinct (command_names c)) initApp"
  by (simp add: command_names_def flag_defs)

section \<open>Properties\<close>


text \<open>
  C30: in white list mode a node closes exactly the connections of peers that are not listed: the
  list that is read at the start holds WhiteNoise identifiers, and a connection is kept when and only
  when one of them has the peer identifier of the remote host.
\<close>

theorem white_list_exact:
  assumes "InitWhiteList L Y = Returns W" and "wl_ReadFile Y = Inr b" and "wl_Unmarshal Y b = Inr ids"
  shows "wp (Connected E True W p addr) (\<lambda>_ t. closedConns t = closedConns s @
    (if \<exists>c \<in> set ids. \<exists>i. WhiteNoiseIDfromString L c = Returns (Inr i) \<and> GetPeerID L i = Inr p then [] else [p])) s"
proof -
  have "p \<in> W \<longleftrightarrow> (\<exists>c \<in> set ids. \<exists>i. WhiteNoiseIDfromString L c = Returns (Inr i) \<and> GetPeerID L i = Inr p)"
    using assms list_peers_spec [of L ids "{}" W p] by (simp add: InitWhiteList_def)
  then show ?thesis by (simp add: Connected_def wp_simps)
qed

end
