(* ===== verification/WN_Actors.thy ===== *)
theory WN_Actors
  imports WN_Start
begin

text \<open>
  How the actors of a node come to know each other: the functions \<open>Start\<close>, \<open>Pid\<close> and \<open>SetPid\<close> of the
  managers, \<open>Start\<close>, \<open>SetPid\<close> and \<open>SetNotify\<close> of \<^verbatim>\<open>network/noise/noise.go\<close>, \<open>Start\<close> and \<open>SetPid\<close> of
  \<^verbatim>\<open>network/gossip/pubsub.go\<close>, in the order in which \<^verbatim>\<open>network/node.go\<close> calls them. An actor is a process
  identifier, which says whose actor it is; a field that was not set is a nil pointer, and sending to
  nil is a panic of the actor library.
\<close>

datatype actor_of = AckActor | RelayActor | ProxyActor | CmdActor | GossipActor

type_synonym pid = "actor_of \<times> nat"

record actor_refs =
  spawned :: nat
  ack_ackPid :: "pid option"
  relay_relayPid :: "pid option"
  relay_ackPid :: "pid option"
  proxy_proxyPid :: "pid option"
  proxy_relayPid :: "pid option"
  proxy_ackPid :: "pid option"
  proxy_gossipPid :: "pid option"
  cmd_cmdPid :: "pid option"
  cmd_relayPid :: "pid option"
  cmd_ackPid :: "pid option"
  dht_gossipPid :: "pid option"
  dht_proxyPid :: "pid option"
  dht_relayPid :: "pid option"
  dht_cmdPid :: "pid option"
  notify_pids :: "(pid option \<times> pid option) option"
  noiseLoop :: bool

text \<open>The constructors leave every reference nil.\<close>

definition no_refs :: actor_refs where
  "no_refs = \<lparr>spawned = 0, ack_ackPid = None, relay_relayPid = None, relay_ackPid = None, proxy_proxyPid = None,
     proxy_relayPid = None, proxy_ackPid = None, proxy_gossipPid = None, cmd_cmdPid = None, cmd_relayPid = None,
     cmd_ackPid = None, dht_gossipPid = None, dht_proxyPid = None, dht_relayPid = None, dht_cmdPid = None,
     notify_pids = None, noiseLoop = False\<rparr>"

definition Spawn :: "actor_of \<Rightarrow> (actor_refs, pid) state" where
  "Spawn a = do {
     n \<leftarrow> gets spawned;
     modify (\<lambda>s. s\<lparr>spawned := n + 1\<rparr>);
     ret (a, n)
   }"

section \<open>The managers\<close>

definition ack_Start :: "(actor_refs, unit) state" where
  "ack_Start = do { p \<leftarrow> Spawn AckActor; modify (\<lambda>s. s\<lparr>ack_ackPid := Some p\<rparr>) }"

definition ack_Pid :: "(actor_refs, pid option) state" where
  "ack_Pid = gets ack_ackPid"

definition relay_Start :: "(actor_refs, unit) state" where
  "relay_Start = do { p \<leftarrow> Spawn RelayActor; modify (\<lambda>s. s\<lparr>relay_relayPid := Some p\<rparr>) }"

definition relay_Pid :: "(actor_refs, pid option) state" where
  "relay_Pid = gets relay_relayPid"

definition relay_SetPid :: "pid option \<Rightarrow> (actor_refs, unit) state" where
  "relay_SetPid ackPid = modify (\<lambda>s. s\<lparr>relay_ackPid := ackPid\<rparr>)"

definition proxy_Start :: "(actor_refs, unit) state" where
  "proxy_Start = do { p \<leftarrow> Spawn ProxyActor; modify (\<lambda>s. s\<lparr>proxy_proxyPid := Some p\<rparr>) }"

definition proxy_Pid :: "(actor_refs, pid option) state" where
  "proxy_Pid = gets proxy_proxyPid"

definition proxy_SetPid :: "pid option \<Rightarrow> pid option \<Rightarrow> pid option \<Rightarrow> (actor_refs, unit) state" where
  "proxy_SetPid relayPid ackPid gossipPid =
     modify (\<lambda>s. s\<lparr>proxy_relayPid := relayPid, proxy_ackPid := ackPid, proxy_gossipPid := gossipPid\<rparr>)"

definition cmd_Start :: "(actor_refs, unit) state" where
  "cmd_Start = do { p \<leftarrow> Spawn CmdActor; modify (\<lambda>s. s\<lparr>cmd_cmdPid := Some p\<rparr>) }"

definition cmd_Pid :: "(actor_refs, pid option) state" where
  "cmd_Pid = gets cmd_cmdPid"

definition cmd_SetPid :: "pid option \<Rightarrow> pid option \<Rightarrow> (actor_refs, unit) state" where
  "cmd_SetPid relayPid ackPid = modify (\<lambda>s. s\<lparr>cmd_relayPid := relayPid, cmd_ackPid := ackPid\<rparr>)"

definition dht_Start :: "host_lib \<Rightarrow> net_config \<Rightarrow> peer_id \<Rightarrow> (actor_refs, unit outcome) state" where
  "dht_Start H cfg h =
     (case InitDHT H h of
        Some err \<Rightarrow> ret Panics
      | None \<Rightarrow> do {
          (if Mode cfg = ServerMode then modify (\<lambda>s. s\<lparr>noiseLoop := True\<rparr>) else ret ());
          p \<leftarrow> Spawn GossipActor;
          modify (\<lambda>s. s\<lparr>dht_gossipPid := Some p\<rparr>);
          ret (Returns ())
        })"

definition dht_Pid :: "(actor_refs, pid option) state" where
  "dht_Pid = gets dht_gossipPid"

definition dht_SetPid :: "pid option \<Rightarrow> pid option \<Rightarrow> pid option \<Rightarrow> (actor_refs, unit) state" where
  "dht_SetPid proxyPid relayPid cmdPid =
     modify (\<lambda>s. s\<lparr>dht_proxyPid := proxyPid, dht_relayPid := relayPid, dht_cmdPid := cmdPid\<rparr>)"

section \<open>The services and the node\<close>

definition service_Start :: "(actor_refs, unit) state" where
  "service_Start = do { ack_Start; proxy_Start; relay_Start; cmd_Start }"

definition service_SetPid :: "pid option \<Rightarrow> (actor_refs, unit) state" where
  "service_SetPid gossipPid = do {
     relayPid \<leftarrow> relay_Pid;
     ackPid \<leftarrow> ack_Pid;
     proxy_SetPid relayPid ackPid gossipPid;
     relay_SetPid ackPid;
     cmd_SetPid relayPid ackPid
   }"

definition service_SetNotify :: "(actor_refs, unit) state" where
  "service_SetNotify = do {
     proxyPid \<leftarrow> proxy_Pid;
     relayPid \<leftarrow> relay_Pid;
     modify (\<lambda>s. s\<lparr>notify_pids := Some (proxyPid, relayPid)\<rparr>)
   }"

definition node_wire :: "host_lib \<Rightarrow> net_config \<Rightarrow> peer_id \<Rightarrow> (actor_refs, unit outcome) state" where
  "node_wire H cfg h =
     (if Mode cfg = ClientMode then do {
        service_Start;
        service_SetPid None;
        service_SetNotify;
        ret (Returns ())
      }
      else obind (dht_Start H cfg h) (\<lambda>_. do {
        service_Start;
        gossipPid \<leftarrow> dht_Pid;
        service_SetPid gossipPid;
        proxyPid \<leftarrow> proxy_Pid;
        relayPid \<leftarrow> relay_Pid;
        cmdPid \<leftarrow> cmd_Pid;
        dht_SetPid proxyPid relayPid cmdPid;
        service_SetNotify;
        ret (Returns ())
      }))"

lemmas actor_defs = Spawn_def ack_Start_def ack_Pid_def relay_Start_def relay_Pid_def relay_SetPid_def
  proxy_Start_def proxy_Pid_def proxy_SetPid_def cmd_Start_def cmd_Pid_def cmd_SetPid_def dht_Pid_def
  dht_SetPid_def service_Start_def service_SetPid_def service_SetNotify_def

text \<open>
  The coarser \<open>node_Start\<close> says of a running node whether it has a gossip actor, whether its loop on
  negotiations runs, and when the start panics.
\<close>

lemma node_Start_refined:
  "wp (node_wire H cfg (cfg_hostID (ns_cfg (node_service nd)))) (\<lambda>r s. case node_Start H cfg nd of
     Returns n \<Rightarrow> r = Returns () \<and> run_gossip n = (dht_gossipPid s \<noteq> None) \<and> run_noiseLoop n = noiseLoop s
   | Panics \<Rightarrow> r = Panics
   | Hangs \<Rightarrow> r = Hangs) no_refs"
  by (auto simp: node_wire_def node_Start_def dht_Start_def actor_defs wp_simps no_refs_def split: option.split)

text \<open>The reference is set, and to the actor of the given manager.\<close>

definition refers :: "actor_of \<Rightarrow> pid option \<Rightarrow> bool" where
  "refers a p = (case p of None \<Rightarrow> False | Some (b, n) \<Rightarrow> b = a)"

section \<open>Properties\<close>


text \<open>
  Between the moment when the gossip service starts its loop on negotiations and the call of \<open>SetPid\<close>,
  the loop runs with nil references.
\<close>

lemma noise_loop_before_refs:
  assumes "InitDHT H h = None" and "Mode cfg = ServerMode"
  shows "wp (dht_Start H cfg h) (\<lambda>r s. r = Returns () \<and> noiseLoop s \<and>
    dht_proxyPid s = None \<and> dht_relayPid s = None \<and> dht_cmdPid s = None) no_refs"
  using assms by (simp add: dht_Start_def actor_defs wp_simps no_refs_def)

end
