(* ===== verification/WN_Handshake.thy ===== *)
theory WN_Handshake
  imports WN_Manager
begin

text \<open>
  The handshake seen from both ends of a circuit. \<open>duplex\<close> is the contract of a connection whose peer
  answers: bytes that are there or still to arrive can be read, writes succeed. Under it the two
  branches of \<open>runHandshake\<close> in \<^verbatim>\<open>secure/handshake.go\<close> complete, given what the Noise XX pattern and the
  signature scheme promise; a circuit with a live peer satisfies it.
\<close>

section \<open>A connection whose peer answers\<close>

locale duplex =
  fixes conn :: "'s insecure_conn"
    and inbound :: "'s \<Rightarrow> bytes"
    and sent :: "'s \<Rightarrow> bytes"
    and live :: "'s \<Rightarrow> bool"
  assumes read_inbound: "live s \<Longrightarrow> n \<le> length (inbound s) \<Longrightarrow>
      wp (ic_ReadFull conn n) (\<lambda>r t. r = Returns (take n (inbound s), None) \<and>
        inbound t = drop n (inbound s) \<and> sent t = sent s \<and> live t) s"
    and write_live: "live s \<Longrightarrow>
      wp (ic_Write conn d) (\<lambda>r t. snd r = None \<and> inbound t = inbound s \<and> sent t = sent s @ d \<and> live t) s"

sublocale duplex \<subseteq> open_sink "ic_Write conn" sent live
  by unfold_locales (blast intro: wp_mono [OF write_live])+

text \<open>What a message gives the session that sends or reads it.\<close>

definition after_message :: "(cipher_state \<times> cipher_state) option \<Rightarrow> secure_session \<Rightarrow> secure_session" where
  "after_message css ss = (case css of None \<Rightarrow> ss | Some (cs1, cs2) \<Rightarrow> setCipherStates cs1 cs2 ss)"

lemma after_message_simps [simp]:
  "after_message None ss = ss" "after_message (Some (cs1, cs2)) ss = setCipherStates cs1 cs2 ss"
  by (simp_all add: after_message_def)

text \<open>
  One run of the Noise XX pattern between an initiator with key pair \<open>ki\<close> and a responder with key
  pair \<open>kr\<close>: the first message carries nothing, the second the responder's payload, the third the
  initiator's; each side then knows the other's static key and both hold the same two cipher states.
  The messages fit the 16-bit length.
\<close>

definition xx_run ::
  "'l noise_lib_scheme \<Rightarrow> dh_key \<Rightarrow> dh_key \<Rightarrow> bytes \<Rightarrow> bytes \<Rightarrow> bytes \<Rightarrow> bytes \<Rightarrow> bytes \<Rightarrow>
   cipher_state \<Rightarrow> cipher_state \<Rightarrow> bool" where
  "xx_run L ki kr pi pr m1 m2 m3 cs1 cs2 = (\<exists>i0 i1 i2 i3 r0 r1 r2 r3.
     NewHandshakeState L True ki = Inr i0 \<and> NewHandshakeState L False kr = Inr r0 \<and>
     hs_WriteMessage L i0 [] = (Inr (m1, None), i1) \<and> hs_ReadMessage L r0 m1 = (Inr ([], None), r1) \<and>
     hs_WriteMessage L r1 pr = (Inr (m2, None), r2) \<and> hs_ReadMessage L i1 m2 = (Inr (pr, None), i2) \<and>
     hs_WriteMessage L i2 pi = (Inr (m3, Some (cs1, cs2)), i3) \<and>
     hs_ReadMessage L r2 m3 = (Inr (pi, Some (cs1, cs2)), r3) \<and>
     hs_PeerStatic L i2 = dh_Public kr \<and> hs_PeerStatic L r3 = dh_Public ki \<and>
     list_all (\<lambda>m. length m \<le> MaxTransportMsgLength) [m1, m2, m3])"

text \<open>
  The documented behaviour of an identity key: its public part can be written and read back, it has
  a peer identifier, and what it signed verifies.
\<close>

definition identity_ok :: "'l noise_lib_scheme \<Rightarrow> p2p_priv \<Rightarrow> peer_id \<Rightarrow> bool" where
  "identity_ok L key i =
     ((\<forall>b. pub_Bytes L (priv_GetPublic L key) = Inr b \<longrightarrow> UnmarshalPublicKey L b = Inr (priv_GetPublic L key)) \<and>
      IDFromPublicKey L (priv_GetPublic L key) = Inr i \<and>
      (\<forall>m sig. priv_Sign L key m = Inr sig \<longrightarrow> pub_Verify L (priv_GetPublic L key) m sig = Inr True))"

lemma payload_accepted:
  assumes "generateHandshakePayload L kp other = Inr p" and "codec_ok (pb_NoisePayload L)"
    and "identity_ok L (localKey other) i" and "initiator ss \<Longrightarrow> remoteID ss = i"
  shows "handleRemoteHandshakePayload L p (dh_Public kp) ss =
    (None, ss\<lparr>remoteID := i, remoteKey := Some (priv_GetPublic L (localKey other))\<rparr>)"
proof -
  let ?pk = "priv_GetPublic L (localKey other)"
  obtain b sig where b: "pub_Bytes L ?pk = Inr b"
      "priv_Sign L (localKey other) (payloadSigPrefix @ dh_Public kp) = Inr sig"
      "Marshal (pb_NoisePayload L) \<lparr>nhp_IdentityKey = b, nhp_IdentitySig = sig, nhp_Data = []\<rparr> = (p, None)"
    using assms(1) by (auto simp: generateHandshakePayload_def split: sum.splits prod.splits option.splits)
  note u = codec_okD [OF assms(2) b(3)]
  from assms(3) b have "UnmarshalPublicKey L b = Inr ?pk" "IDFromPublicKey L ?pk = Inr i"
      "pub_Verify L ?pk (payloadSigPrefix @ dh_Public kp) sig = Inr True"
    unfolding identity_ok_def by blast+
  with u assms(4) show ?thesis by (auto simp: handleRemoteHandshakePayload_def)
qed

section \<open>Both branches of the handshake complete\<close>

context duplex
begin

lemma read_message:
  assumes "live s" and "inbound s = frame m @ rest" and "length m \<le> MaxTransportMsgLength"
    and "hs_ReadMessage L hs m = (Inr (p, css), hs')"
  shows "wp (readHandshakeMessage L conn hs ss) (\<lambda>r t. r = Returns (p, None, hs', after_message css ss) \<and>
     inbound t = rest \<and> sent t = sent s \<and> live t) s"
proof -
  have "wp (ic_ReadFull conn LengthPrefixLength) (\<lambda>r t. r = Returns (PutUint16 (of_nat (length m)), None) \<and>
     inbound t = m @ rest \<and> sent t = sent s \<and> live t) s"
    using read_inbound [OF assms(1), of LengthPrefixLength] assms(2)
    by (simp add: frame_def LengthPrefixLength_def)
  then have len: "wp (readNextInsecureMsgLen conn) (\<lambda>r t. r = Returns (length m, None) \<and>
     inbound t = m @ rest \<and> sent t = sent s \<and> live t) s"
    unfolding readNextInsecureMsgLen_def
    by (rule wp_obind_step) (auto simp: frame_length [OF assms(3), simplified])
  have msg: "wp (readNextMsgInsecure conn (length m)) (\<lambda>r u. r = Returns (m, None) \<and>
     inbound u = rest \<and> sent u = sent s \<and> live u) t"
    if "inbound t = m @ rest" "sent t = sent s" "live t" for t
    using read_inbound [OF that(3), of "length m"] that by (simp add: readNextMsgInsecure_def)
  show ?thesis
    unfolding readHandshakeMessage_def
    by (rule wp_obind_step [OF len])
      (auto intro!: wp_obind_step [OF msg] simp: assms(4) split: option.split)
qed

lemma send_message:
  assumes "live s" and "hs_WriteMessage L hs p = (Inr (m, css), hs')"
  shows "wp (sendHandshakeMessage L conn hs p ss) (\<lambda>r t. r = (None, hs', after_message css ss) \<and>
     inbound t = inbound s \<and> sent t = sent s @ frame m \<and> live t) s"
  unfolding sendHandshakeMessage_def assms(2) prod.case sum.case
  by (rule wp_bind_step [OF write_live [OF assms(1)]]) (auto split: option.split)

definition done_with ::
  "'l noise_lib_scheme \<Rightarrow> bytes \<Rightarrow> secure_session \<Rightarrow> peer_id \<Rightarrow> p2p_priv \<Rightarrow> cipher_state \<Rightarrow> cipher_state \<Rightarrow> 's \<Rightarrow>
   (goerr option \<times> secure_session) outcome \<Rightarrow> 's \<Rightarrow> bool" where
  "done_with L out ss i key cs1 cs2 s r t =
     (r = Returns (None, (setCipherStates cs1 cs2 ss)\<lparr>remoteID := i, remoteKey := Some (priv_GetPublic L key)\<rparr>) \<and>
      inbound t = [] \<and> sent t = sent s @ out \<and> live t)"

lemma initiator_completes:
  assumes "xx_run L ki kr pi pr m1 m2 m3 cs1 cs2" and "initiator ss" and "remoteID ss = i"
    and "generateHandshakePayload L ki ss = Inr pi" and "generateHandshakePayload L kr other = Inr pr"
    and "codec_ok (pb_NoisePayload L)" and "identity_ok L (localKey other) i"
    and "live s" and "inbound s = frame m2"
  shows "wp (runHandshake L conn (Inr ki) ss)
    (done_with L (frame m1 @ frame m3) ss i (localKey other) cs1 cs2 s) s"
proof -
  from assms(1) obtain i0 i1 i2 i3 where run: "NewHandshakeState L True ki = Inr i0"
      "hs_WriteMessage L i0 [] = (Inr (m1, None), i1)" "hs_ReadMessage L i1 m2 = (Inr (pr, None), i2)"
      "hs_WriteMessage L i2 pi = (Inr (m3, Some (cs1, cs2)), i3)" "hs_PeerStatic L i2 = dh_Public kr"
      "length m2 \<le> MaxTransportMsgLength"
    unfolding xx_run_def by auto
  let ?ss = "ss\<lparr>remoteID := i, remoteKey := Some (priv_GetPublic L (localKey other))\<rparr>"
  have accepted: "handleRemoteHandshakePayload L pr (hs_PeerStatic L i2) ss = (None, ?ss)"
    using payload_accepted [OF assms(5-7)] assms(3) by (simp add: run(5))
  have read: "wp (readHandshakeMessage L conn i1 ss) (\<lambda>r u. r = Returns (pr, None, i2, ss) \<and>
      inbound u = [] \<and> sent u = sent t \<and> live u) t" if "live t" "inbound t = frame m2" for t
    using read_message [OF that(1) _ run(6,3), of "[]" ss] that(2) by simp
  have cross: "setCipherStates cs1 cs2 ?ss =
      (setCipherStates cs1 cs2 ss)\<lparr>remoteID := i, remoteKey := Some (priv_GetPublic L (localKey other))\<rparr>"
    by (simp add: setCipherStates_def)
  show ?thesis
    using assms(2,4) run(1) unfolding runHandshake_def initiatorHandshake_def
    by (auto intro!: wp_bind_step [OF send_message [OF assms(8) run(2)]] wp_obind_step [OF read]
        wp_bind_step [OF send_message [OF _ run(4)]] simp: assms(9) accepted cross done_with_def
        wrap_err_def simp del: wp_bind)
qed

lemma responder_completes:
  assumes "xx_run L ki kr pi pr m1 m2 m3 cs1 cs2" and "\<not> initiator ss"
    and "generateHandshakePayload L kr ss = Inr pr" and "generateHandshakePayload L ki other = Inr pi"
    and "codec_ok (pb_NoisePayload L)" and "identity_ok L (localKey other) i"
    and "live s" and "inbound s = frame m1 @ frame m3"
  shows "wp (runHandshake L conn (Inr kr) ss) (done_with L (frame m2) ss i (localKey other) cs1 cs2 s) s"
proof -
  from assms(1) obtain r0 r1 r2 r3 where run: "NewHandshakeState L False kr = Inr r0"
      "hs_ReadMessage L r0 m1 = (Inr ([], None), r1)" "hs_WriteMessage L r1 pr = (Inr (m2, None), r2)"
      "hs_ReadMessage L r2 m3 = (Inr (pi, Some (cs1, cs2)), r3)" "hs_PeerStatic L r3 = dh_Public ki"
      "length m1 \<le> MaxTransportMsgLength" "length m3 \<le> MaxTransportMsgLength"
    unfolding xx_run_def by auto
  have accepted: "handleRemoteHandshakePayload L pi (hs_PeerStatic L r3) (setCipherStates cs1 cs2 ss) =
      (None, (setCipherStates cs1 cs2 ss)\<lparr>remoteID := i, remoteKey := Some (priv_GetPublic L (localKey other))\<rparr>)"
    using payload_accepted [OF assms(4-6), of "setCipherStates cs1 cs2 ss"] assms(2)
    by (simp add: run(5) setCipherStates_def)
  have read: "wp (readHandshakeMessage L conn r2 ss) (\<lambda>r u.
      r = Returns (pi, None, r3, setCipherStates cs1 cs2 ss) \<and> inbound u = [] \<and> sent u = sent t \<and> live u) t"
    if "live t" "inbound t = frame m3" for t
    using read_message [OF that(1) _ run(7,4), of "[]" ss] that(2) by simp
  show ?thesis
    using assms(2,3) run(1) unfolding runHandshake_def responderHandshake_def
    by (auto intro!: wp_obind_step [OF read_message [OF assms(7,8) run(6,2)]]
        wp_bind_step [OF send_message [OF _ run(3)]] wp_obind_step [OF read]
        simp: accepted done_with_def wrap_err_def simp del: wp_bind)
qed

end

section \<open>A circuit with a live peer\<close>

text \<open>\<open>io.ReadFull\<close> on a reader that delivers something whenever more is to come.\<close>

lemma ReadFull_delivers:
  assumes rd: "\<And>s n. I s \<Longrightarrow> 0 < n \<Longrightarrow> inb s \<noteq> [] \<Longrightarrow> wp (rd n) (\<lambda>r t. \<exists>x. r = Returns (x, None) \<and> x \<noteq> [] \<and>
      length x \<le> n \<and> inb s = x @ inb t \<and> out t = out s \<and> I t) s"
  shows "I s \<Longrightarrow> n \<le> length acc + length (inb s) \<Longrightarrow> length acc \<le> n \<Longrightarrow> n - length acc < fuel \<Longrightarrow>
    wp (ReadFull fuel rd n acc) (\<lambda>r t. r = Returns (acc @ take (n - length acc) (inb s), None) \<and>
      inb t = drop (n - length acc) (inb s) \<and> out t = out s \<and> I t) s"
proof (induction fuel arbitrary: acc s)
  case (Suc fuel)
  show ?case
  proof (cases "length acc < n")
    case True
    with Suc.prems have "inb s \<noteq> []" by auto
    note step = rd [OF Suc.prems(1) _ this, of "n - length acc"]
    have rec: "wp (ReadFull fuel rd n (acc @ x)) (\<lambda>r u.
        r = Returns (acc @ x @ take (n - (length acc + length x)) (inb t), None) \<and>
        inb u = drop (n - (length acc + length x)) (inb t) \<and> out u = out s \<and> I u) t"
      if "x \<noteq> []" "length x \<le> n - length acc" "inb s = x @ inb t" "out t = out s" "I t" for x t
    proof -
      have "n - length (acc @ x) < fuel" using Suc.prems(4) that(1) True by (cases x) auto
      then show ?thesis using Suc.IH [of t "acc @ x"] Suc.prems that True by simp
    qed
    show ?thesis
      using True unfolding ReadFull.simps
      by (auto intro!: wp_obind_step [OF step] rec)
  next
    case False
    with Suc.prems show ?thesis by (simp add: ReadFull_end_def)
  qed
qed simp

text \<open>
  The end of a circuit with one stream, and its incoming bytes: what is in the buffer and what is still
  to arrive. \<open>fut\<close> reads the latter from the part of the state that the relay manager does not touch.
  \<open>feeds\<close>: while a reader waits on an empty buffer and something is to arrive, some of it does, and the
  session stays as it is. The end has a connection, in the role of one of the two ends.
\<close>

definition at_end :: "nat \<Rightarrow> string \<Rightarrow> string \<Rightarrow> 'a relay_state_scheme \<Rightarrow> bool" where
  "at_end a sid i s =
     ((\<exists>sess. sessionMap s sid = Some sess \<and> Role sess \<in> {CallerRole, AnswerRole}) \<and>
      circuitConnMap s sid = Some a \<and> conn_exists a s \<and> \<not> closed (tr s) i)"

definition end_ready :: "'l lib_scheme \<Rightarrow> nat \<Rightarrow> string \<Rightarrow> string \<Rightarrow> nat \<Rightarrow> 'a relay_state_scheme \<Rightarrow> bool" where
  "end_ready L a sid i k s = (one_stream L a sid i s \<and> carries L sid i k (tr s) \<and> at_end a sid i s)"

definition incoming :: "('a \<Rightarrow> bytes) \<Rightarrow> nat \<Rightarrow> 'a relay_state_scheme \<Rightarrow> bytes" where
  "incoming fut a s = get_buffer a s @ fut (relay_state.more s)"

definition feeds ::
  "('a relay_state_scheme, 'e) relay_env_scheme \<Rightarrow> 'l lib_scheme \<Rightarrow> nat \<Rightarrow> string \<Rightarrow> string \<Rightarrow> nat \<Rightarrow> ('a \<Rightarrow> bytes) \<Rightarrow> bool" where
  "feeds E L a sid i k fut = (\<forall>s. end_ready L a sid i k s \<and> get_buffer a s = [] \<and> incoming fut a s \<noteq> [] \<longrightarrow>
     wp (buf_wait E a) (\<lambda>woken t. woken \<and> get_buffer a t \<noteq> [] \<and> incoming fut a t = incoming fut a s \<and>
       payloads L i k (tr t) = payloads L i k (tr s) \<and> end_ready L a sid i k t) s)"

definition circuit_live ::
  "('a relay_state_scheme, 'e) relay_env_scheme \<Rightarrow> 'l lib_scheme \<Rightarrow> nat \<Rightarrow> string \<Rightarrow> string \<Rightarrow> nat \<Rightarrow> ('a \<Rightarrow> bytes) \<Rightarrow>
   'a relay_state_scheme \<Rightarrow> bool" where
  "circuit_live E L a sid i k fut s =
     (end_ready L a sid i k s \<and> feeds E L a sid i k fut \<and> (\<forall>t j b. write_res E t j b = None))"

lemma set_buffer_frame [simp]:
  "tr (set_buffer a b s) = tr s" "relay_state.more (set_buffer a b s) = relay_state.more s"
  "end_ready L a sid i k (set_buffer a b s) = end_ready L a sid i k s"
  by (cases s, auto simp: set_buffer_def end_ready_def one_stream_def conn_is_def at_end_def conn_exists_def)+

lemma get_set_buffer [simp]: "end_ready L a sid i k s \<Longrightarrow> get_buffer a (set_buffer a b s) = b"
  by (simp add: end_ready_def one_stream_def conn_is_def get_buffer_def set_buffer_def)

text \<open>One read of a buffer that is not empty, or that fills while the reader waits.\<close>

lemma circuit_Read_delivers:
  assumes "circuit_live E L a sid i k fut s" and "0 < n" and "incoming fut a s \<noteq> []"
  shows "wp (circuit_Read E a n) (\<lambda>r t. \<exists>x. r = Returns (x, None) \<and> x \<noteq> [] \<and> length x \<le> n \<and>
    incoming fut a s = x @ incoming fut a t \<and> payloads L i k (tr t) = payloads L i k (tr s) \<and>
    circuit_live E L a sid i k fut t) s"
proof (cases "get_buffer a s = []")
  case False
  with assms show ?thesis
    by (auto simp: circuit_Read_def SafeBuffer_Read_def Buffer_Read_def circuit_live_def incoming_def)
next
  case True
  let ?s = "set_buffer a [] s"
  have "end_ready L a sid i k s" using assms(1) by (simp add: circuit_live_def)
  then have "end_ready L a sid i k ?s" "get_buffer a ?s = []" "incoming fut a ?s = incoming fut a s"
    using True by (simp_all add: incoming_def)
  with assms have "wp (buf_wait E a) (\<lambda>woken t. woken \<and> get_buffer a t \<noteq> [] \<and> incoming fut a t = incoming fut a s \<and>
      payloads L i k (tr t) = payloads L i k (tr s) \<and> end_ready L a sid i k t) ?s"
    unfolding circuit_live_def feeds_def by fastforce
  with True assms(1,2) show ?thesis
    by (auto simp: circuit_Read_def SafeBuffer_Read_def Buffer_Read_def EOF_def circuit_live_def incoming_def
        elim!: wp_mono) (metis append_assoc append_take_drop_id)
qed

lemma circuit_Write_succeeds:
  assumes "circuit_live E L a sid i k fut s"
  shows "wp (circuit_Write E L a d) (\<lambda>r t. r = (length d, None) \<and> incoming fut a t = incoming fut a s \<and>
    payloads L i k (tr t) = payloads L i k (tr s) @ d \<and> circuit_live E L a sid i k fut t) s"
proof -
  from assms have e: "one_stream L a sid i s" "\<And>t j b. write_res E t j b = None"
      "data_msg L sid (NewRelayMsg L d sid)" "payload L (NewRelayMsg L d sid) = d"
    by (auto simp: circuit_live_def end_ready_def one_stream_def data_msg_NewRelayMsg)
  show ?thesis
    unfolding wp_run circuit_Write_run [OF e(1,2)]
    using assms e by (cases s) (auto simp: circuit_live_def end_ready_def one_stream_def carries_def payloads_def
        incoming_def get_buffer_def at_end_def conn_exists_def closed_def)
qed

interpretation circuit_duplex: duplex "circuit_conn_io E L a" "incoming fut a" "\<lambda>s. payloads L i k (tr s)"
  "circuit_live E L a sid i k fut"
proof
  fix s :: "'a relay_state_scheme" and n d
  assume live: "circuit_live E L a sid i k fut s"
  show "wp (ic_Write (circuit_conn_io E L a) d) (\<lambda>r t. snd r = None \<and> incoming fut a t = incoming fut a s \<and>
      payloads L i k (tr t) = payloads L i k (tr s) @ d \<and> circuit_live E L a sid i k fut t) s"
    using circuit_Write_succeeds [OF live, of d] by (auto simp: circuit_conn_io_def elim!: wp_mono)
  assume n: "n \<le> length (incoming fut a s)"
  show "wp (ic_ReadFull (circuit_conn_io E L a) n) (\<lambda>r t. r = Returns (take n (incoming fut a s), None) \<and>
      incoming fut a t = drop n (incoming fut a s) \<and> payloads L i k (tr t) = payloads L i k (tr s) \<and>
      circuit_live E L a sid i k fut t) s"
    using ReadFull_delivers [OF circuit_Read_delivers live, where acc = "[]" and n = n and fuel = "Suc n"] n
    by (simp add: circuit_conn_io_def)
qed

section \<open>Both ends of a circuit\<close>

text \<open>
  An end of a circuit about to start its handshake with the key pair \<open>kp\<close>; and the handshake payload
  of an identity key, its public part with its signature of the Noise key.
\<close>

definition about_to_handshake ::
  "('a relay_state_scheme, 'e) relay_env_scheme \<Rightarrow> 'l lib_scheme \<Rightarrow> nat \<Rightarrow> string \<Rightarrow> string \<Rightarrow> nat \<Rightarrow> ('a \<Rightarrow> bytes) \<Rightarrow>
   dh_key \<Rightarrow> 'a relay_state_scheme \<Rightarrow> bool" where
  "about_to_handshake E L a sid i k fut kp s =
     (circuit_live E L a sid i k fut s \<and> secureConnMap s sid = None \<and>
      gen_keypair E (tr s) = Inr kp \<and> ctx_first E (tr s) = None)"

definition payload_for :: "'l noise_lib_scheme \<Rightarrow> dh_key \<Rightarrow> p2p_priv \<Rightarrow> bytes \<Rightarrow> bool" where
  "payload_for L kp key p = (\<exists>b sig. pub_Bytes L (priv_GetPublic L key) = Inr b \<and>
     priv_Sign L key (payloadSigPrefix @ dh_Public kp) = Inr sig \<and>
     Marshal (pb_NoisePayload L) \<lparr>nhp_IdentityKey = b, nhp_IdentitySig = sig, nhp_Data = []\<rparr> = (p, None))"

lemma payload_for_generate: "payload_for L kp (localKey ss) p \<Longrightarrow> generateHandshakePayload L kp ss = Inr p"
  by (auto simp: payload_for_def generateHandshakePayload_def)

definition fresh_session :: "bool \<Rightarrow> peer_id \<Rightarrow> p2p_priv \<Rightarrow> peer_id \<Rightarrow> secure_session" where
  "fresh_session init lID key remote = \<lparr>initiator = init, localID = lID, localKey = key, remoteID = remote,
     remoteKey = None, qseek = 0, qbuf = None, enc = None, dec = None\<rparr>"

lemma fresh_session_simps [simp]:
  "initiator (fresh_session init lID key remote) = init" "localKey (fresh_session init lID key remote) = key"
  "remoteID (fresh_session init lID key remote) = remote"
  by (simp_all add: fresh_session_def)

lemma wire_publish [simp]: "wire i (t @ [EPublish topic x]) = wire i t"
  by (simp add: wire_def)

text \<open>A handshake that completes is filed under the session.\<close>

lemma completed_filed:
  assumes "about_to_handshake E L a sid i k fut kp s"
    and "wp (runHandshake L (circuit_conn_io E L a) (Inr kp)
      (fresh_session init (cfg_hostID C) (cfg_privateKey C) remote))
      (\<lambda>r t. r = Returns (None, ss) \<and> incoming fut a t = [] \<and>
         payloads L i k (tr t) = payloads L i k (tr s) @ out \<and> circuit_live E L a sid i k fut t) s"
  shows "wp (obind (new_secure E C L a remote init) (file_secure a topic)) (\<lambda>x t. x = Returns None \<and>
     secureConnMap t sid = Some \<lparr>sc_conn = a, sc_session = ss\<rparr> \<and> incoming fut a t = [] \<and>
     payloads L i k (tr t) = payloads L i k (tr s) @ out \<and> circuit_live E L a sid i k fut t) s"
proof -
  have "wp (new_secure E C L a remote init) (\<lambda>r t. r = Returns (Some ss, None) \<and> incoming fut a t = [] \<and>
      payloads L i k (tr t) = payloads L i k (tr s) @ out \<and> circuit_live E L a sid i k fut t) s"
    using assms(1) unfolding new_secure_def NewSecureSession_def Let_def fresh_session_def [symmetric]
    by (auto simp: about_to_handshake_def intro!: wp_obind_step [OF assms(2)])
  then show ?thesis
    by (rule wp_obind_step) (auto simp: file_secure_def circuit_live_def end_ready_def one_stream_def conn_is_def
        store_secure_def incoming_def get_buffer_def payloads_def at_end_def conn_exists_def closed_def carries_def wp_simps)
qed

text \<open>Both ends together.\<close>

lemma handshake_completes:
  assumes "xx_run L ki kr pi pr m1 m2 m3 cs1 cs2" and "codec_ok (pb_NoisePayload L)"
    and caller: "about_to_handshake E L a sid i k fut ki s" "payload_for L ki (cfg_privateKey C) pi"
      "identity_ok L (cfg_privateKey C) p" "incoming fut a s = frame m2"
    and answer: "about_to_handshake E' L a' sid i' k' fut' kr r" "payload_for L kr (cfg_privateKey C') pr"
      "identity_ok L (cfg_privateKey C') q" "incoming fut' a' r = frame m1 @ frame m3"
    and dialled: "GetPeerID L (remoteWhiteNoiseId (conns s ! a)) = Inr q"
  shows "\<exists>ss ss'.
    wp (NewSecureConnCaller E C L a) (\<lambda>x t. x = Returns None \<and>
      secureConnMap t sid = Some \<lparr>sc_conn = a, sc_session = ss\<rparr> \<and> incoming fut a t = [] \<and>
      payloads L i k (tr t) = payloads L i k (tr s) @ frame m1 @ frame m3 \<and> circuit_live E L a sid i k fut t) s \<and>
    wp (NewSecureConnAnswer E' C' L a') (\<lambda>x t. x = Returns None \<and>
      secureConnMap t sid = Some \<lparr>sc_conn = a', sc_session = ss'\<rparr> \<and> incoming fut' a' t = [] \<and>
      payloads L i' k' (tr t) = payloads L i' k' (tr r) @ frame m2 \<and> circuit_live E' L a' sid i' k' fut' t) r \<and>
    enc ss = Some cs1 \<and> dec ss' = Some cs1 \<and> enc ss' = Some cs2 \<and> dec ss = Some cs2 \<and>
    qbuf ss = None \<and> qbuf ss' = None \<and> remoteID ss = q \<and> remoteID ss' = p \<and>
    remoteKey ss = Some (priv_GetPublic L (cfg_privateKey C')) \<and>
    remoteKey ss' = Some (priv_GetPublic L (cfg_privateKey C))"
proof -
  let ?c = "fresh_session True (cfg_hostID C) (cfg_privateKey C) q"
  let ?r = "fresh_session False (cfg_hostID C') (cfg_privateKey C') []"
  let ?ss = "(setCipherStates cs1 cs2 ?c)\<lparr>remoteID := q, remoteKey := Some (priv_GetPublic L (cfg_privateKey C'))\<rparr>"
  let ?ss' = "(setCipherStates cs1 cs2 ?r)\<lparr>remoteID := p, remoteKey := Some (priv_GetPublic L (cfg_privateKey C))\<rparr>"
  have gen: "generateHandshakePayload L ki ?c = Inr pi" "generateHandshakePayload L kr ?r = Inr pr"
    using caller(2) answer(2) by (simp_all add: payload_for_generate)
  have c: "circuit_live E L a sid i k fut s" "secureConnMap s sid = None" "conn_sessionId (conns s ! a) = sid"
    and r: "circuit_live E' L a' sid i' k' fut' r" "secureConnMap r sid = None" "conn_sessionId (conns r ! a') = sid"
    using caller(1) answer(1)
    by (auto simp: about_to_handshake_def circuit_live_def end_ready_def one_stream_def conn_is_def)
  have "wp (runHandshake L (circuit_conn_io E L a) (Inr ki) ?c) (\<lambda>x t. x = Returns (None, ?ss) \<and>
      incoming fut a t = [] \<and> payloads L i k (tr t) = payloads L i k (tr s) @ frame m1 @ frame m3 \<and>
      circuit_live E L a sid i k fut t) s"
    using circuit_duplex.initiator_completes [OF assms(1) _ _ gen assms(2) _ c(1) caller(4), of q] answer(3)
    by (auto simp: circuit_duplex.done_with_def elim!: wp_mono)
  then have "wp (NewSecureConnCaller E C L a) (\<lambda>x t. x = Returns None \<and>
      secureConnMap t sid = Some \<lparr>sc_conn = a, sc_session = ?ss\<rparr> \<and> incoming fut a t = [] \<and>
      payloads L i k (tr t) = payloads L i k (tr s) @ frame m1 @ frame m3 \<and> circuit_live E L a sid i k fut t) s"
    using completed_filed [OF caller(1)] c dialled by (simp add: NewSecureConnCaller_def)
  moreover have "wp (runHandshake L (circuit_conn_io E' L a') (Inr kr) ?r) (\<lambda>x t. x = Returns (None, ?ss') \<and>
      incoming fut' a' t = [] \<and> payloads L i' k' (tr t) = payloads L i' k' (tr r) @ frame m2 \<and>
      circuit_live E' L a' sid i' k' fut' t) r"
    using circuit_duplex.responder_completes [OF assms(1) _ gen(2,1) assms(2) _ r(1) answer(4), of p] caller(3)
    by (auto simp: circuit_duplex.done_with_def elim!: wp_mono)
  then have "wp (NewSecureConnAnswer E' C' L a') (\<lambda>x t. x = Returns None \<and>
      secureConnMap t sid = Some \<lparr>sc_conn = a', sc_session = ?ss'\<rparr> \<and> incoming fut' a' t = [] \<and>
      payloads L i' k' (tr t) = payloads L i' k' (tr r) @ frame m2 \<and> circuit_live E' L a' sid i' k' fut' t) r"
    using completed_filed [OF answer(1)] r by (simp add: NewSecureConnAnswer_def)
  ultimately show ?thesis
    by (intro exI [of _ ?ss] exI [of _ ?ss'])
      (simp add: setCipherStates_def, simp add: fresh_session_def)
qed

section \<open>Property\<close>

text \<open>
  C8: the handshake of a circuit completes on both ends and the ends agree. When each end reads what
  the other end writes, the caller dialled the identity of the answerer's key, writes succeed and the
  bytes arrive while the readers wait, then both \<open>NewSecureConnCaller\<close> and \<open>NewSecureConnAnswer\<close> return
  without an error and file a session; each end encrypts with the cipher state the other decrypts with,
  and each records the identity of the other. The messages each end is supposed to read are the ones
  the other is shown to write.
\<close>

theorem handshake_agreement:
  assumes "xx_run L ki kr pi pr m1 m2 m3 cs1 cs2" and "codec_ok (pb_NoisePayload L)"
    and caller: "about_to_handshake E L a sid i k fut ki s" "payload_for L ki (cfg_privateKey C) pi"
      "identity_ok L (cfg_privateKey C) p" "incoming fut a s = frame m2"
    and answer: "about_to_handshake E' L a' sid i' k' fut' kr r" "payload_for L kr (cfg_privateKey C') pr"
      "identity_ok L (cfg_privateKey C') q" "incoming fut' a' r = frame m1 @ frame m3"
    and dialled: "GetPeerID L (remoteWhiteNoiseId (conns s ! a)) = Inr q"
  shows "\<exists>ss ss'.
    wp (NewSecureConnCaller E C L a) (\<lambda>x t. x = Returns None \<and>
      secureConnMap t sid = Some \<lparr>sc_conn = a, sc_session = ss\<rparr> \<and> incoming fut a t = [] \<and>
      payloads L i k (tr t) = payloads L i k (tr s) @ frame m1 @ frame m3 \<and> circuit_live E L a sid i k fut t) s \<and>
    wp (NewSecureConnAnswer E' C' L a') (\<lambda>x t. x = Returns None \<and>
      secureConnMap t sid = Some \<lparr>sc_conn = a', sc_session = ss'\<rparr> \<and> incoming fut' a' t = [] \<and>
      payloads L i' k' (tr t) = payloads L i' k' (tr r) @ frame m2 \<and> circuit_live E' L a' sid i' k' fut' t) r \<and>
    enc ss = Some cs1 \<and> dec ss' = Some cs1 \<and> enc ss' = Some cs2 \<and> dec ss = Some cs2 \<and>
    qbuf ss = None \<and> qbuf ss' = None \<and> remoteID ss = q \<and> remoteID ss' = p \<and>
    remoteKey ss = Some (priv_GetPublic L (cfg_privateKey C')) \<and>
    remoteKey ss' = Some (priv_GetPublic L (cfg_privateKey C))"
  using assms by (rule handshake_completes)

end
