(* ===== verification/WN_Log.thy ===== *)
theory WN_Log
  imports WN_Prelude "HOL-Library.Multiset" "HOL-Library.AList"
begin

text \<open>
  \<^verbatim>\<open>common/log/log.go\<close>: levels and their names, which messages are written, the log file. A line handed
  to Go's logger is the call of \<open>fmt\<close> that makes its text, with its arguments; what \<open>fmt\<close> makes of it is
  left open. The environment gives the frames of the call stack, the number of the goroutine, the
  order in which a map is ranged over and the answers of the file system.
\<close>

section \<open>Strings\<close>

definition strings_HasPrefix :: "string \<Rightarrow> string \<Rightarrow> bool" where
  "strings_HasPrefix s p = (take (length p) s = p)"

text \<open>\<open>strings.LastIndex\<close>, with the indices to try; \<open>None\<close> is -1.\<close>

fun last_index :: "string \<Rightarrow> string \<Rightarrow> nat \<Rightarrow> nat option" where
  "last_index s sub 0 = (if strings_HasPrefix s sub then Some 0 else None)"
| "last_index s sub (Suc i) =
     (if strings_HasPrefix (drop (Suc i) s) sub then Some (Suc i) else last_index s sub i)"

definition strings_LastIndex :: "string \<Rightarrow> string \<Rightarrow> nat option" where
  "strings_LastIndex s sub = last_index s sub (length s)"

definition strings_Contains :: "string \<Rightarrow> string \<Rightarrow> bool" where
  "strings_Contains s sub = (strings_LastIndex s sub \<noteq> None)"

definition strings_TrimPrefix :: "string \<Rightarrow> string \<Rightarrow> string" where
  "strings_TrimPrefix s p = (if strings_HasPrefix s p then drop (length p) s else s)"

text \<open>\<open>strings.Split(s, ".")[0]\<close>, \<open>filepath.Base\<close> and \<open>filepath.Ext\<close> of a Unix path.\<close>

definition before_dot :: "string \<Rightarrow> string" where
  "before_dot s = takeWhile (\<lambda>c. c \<noteq> CHR ''.'') s"

definition filepath_Base :: "string \<Rightarrow> string" where
  "filepath_Base p =
     (if p = '''' then ''.''
      else let q = rev (dropWhile (\<lambda>c. c = CHR ''/'') (rev p))
           in if q = '''' then ''/'' else rev (takeWhile (\<lambda>c. c \<noteq> CHR ''/'') (rev q)))"

definition filepath_Ext :: "string \<Rightarrow> string" where
  "filepath_Ext p =
     (let last = rev (takeWhile (\<lambda>c. c \<noteq> CHR ''/'') (rev p))
      in if CHR ''.'' \<in> set last then CHR ''.'' # rev (takeWhile (\<lambda>c. c \<noteq> CHR ''.'') (rev last)) else '''')"

text \<open>\<open>strconv.Atoi\<close> on 64-bit integers; a number out of range is an error with the
  nearest number as its value, anything else that is not a number an error with the value 0.\<close>

definition is_digit :: "char \<Rightarrow> bool" where
  "is_digit c = (48 \<le> (of_char c :: nat) \<and> (of_char c :: nat) \<le> 57)"

definition digits_nat :: "string \<Rightarrow> nat" where
  "digits_nat = foldl (\<lambda>n c. 10 * n + (of_char c - 48)) 0"

definition strconv_Atoi :: "string \<Rightarrow> int \<times> goerr option" where
  "strconv_Atoi s =
     (let neg = strings_HasPrefix s ''-'';
          d = (if neg \<or> strings_HasPrefix s ''+'' then drop 1 s else s);
          v = int (digits_nat d)
      in if d = '''' \<or> \<not> list_all is_digit d then (0, Some ''invalid syntax'')
         else if \<not> neg \<and> 2 ^ 63 \<le> v then (2 ^ 63 - 1, Some ''value out of range'')
         else if neg \<and> 2 ^ 63 < v then (- (2 ^ 63), Some ''value out of range'')
         else (if neg then - v else v, None))"

section \<open>Levels\<close>

definition Color :: "string \<Rightarrow> string \<Rightarrow> string" where
  "Color code msg = [CHR 0x1B] @ ''['' @ code @ ''m'' @ msg @ [CHR 0x1B] @ ''[m''"

definition TraceLog :: int where "TraceLog = 0"
definition DebugLog :: int where "DebugLog = 1"
definition InfoLog :: int where "InfoLog = 2"
definition WarnLog :: int where "WarnLog = 3"
definition ErrorLog :: int where "ErrorLog = 4"
definition FatalLog :: int where "FatalLog = 5"
definition MaxLevelLog :: int where "MaxLevelLog = 6"

lemmas level_defs = TraceLog_def DebugLog_def InfoLog_def WarnLog_def ErrorLog_def FatalLog_def MaxLevelLog_def

definition levels :: "(int \<times> string) list" where
  "levels = [(DebugLog, Color ''0;32'' ''[DEBUG]''), (InfoLog, Color ''0;36'' ''[INFO ]''),
     (WarnLog, Color ''0;33'' ''[WARN ]''), (ErrorLog, Color ''0;31'' ''[ERROR]''),
     (FatalLog, Color ''1;35'' ''[FATAL]''), (TraceLog, Color ''0;34'' ''[TRACE]'')]"

definition NAME_PREFIX :: string where "NAME_PREFIX = ''LEVEL''"

definition LevelName :: "int \<Rightarrow> string" where
  "LevelName level = (case map_of levels level of Some name \<Rightarrow> name | None \<Rightarrow> NAME_PREFIX @ strconv_Itoa level)"

text \<open>The map of levels, in the order in which it is ranged over.\<close>

definition NameLevel :: "(int \<times> string) list \<Rightarrow> string \<Rightarrow> int" where
  "NameLevel ranged name =
     (case find (\<lambda>(k, v). v = name) ranged of
        Some (k, v) \<Rightarrow> k
      | None \<Rightarrow> (if strings_HasPrefix name NAME_PREFIX then fst (strconv_Atoi (drop (length NAME_PREFIX) name)) else 0))"

section \<open>The logger\<close>

text \<open>An argument of a call is a string or a value of another type.\<close>

datatype log_arg = ArgString string | ArgOther string

datatype log_text = Sprintln "log_arg list" | Sprintf string "log_arg list"

datatype file_stat = IsDir | IsFile | NotExist | StatErr goerr

datatype log_writer = Discard | Stdout | LogFile string

record logger =
  lg_level :: int
  lg_writers :: "log_writer list"
  lg_file :: "string option"
  lg_ignore :: "string list"

record log_state =
  Log :: logger
  ModuleLevel :: "(string \<times> int) list"
  ProcName :: string
  log_written :: "(log_writer list \<times> log_text) list"
  log_exited :: bool

record frame_info =
  fr_name :: string
  fr_file :: string
  fr_line :: int

text \<open>
  \<open>call_frame\<close> is the frame that \<open>runtime.Callers\<close> gives for the number of frames it is told to skip;
  \<open>range\<close> is the order of a map.
\<close>

record log_env =
  goroutine :: "64 word"
  stack_rest :: string
  call_frame :: "nat \<Rightarrow> frame_info"
  range_modules :: "(string \<times> int) list \<Rightarrow> (string \<times> int) list"
  output_err :: "log_text \<Rightarrow> goerr option"
  os_Stat :: "string \<Rightarrow> file_stat"
  os_MkdirAll :: "string \<Rightarrow> goerr option"
  os_OpenFile :: "string \<Rightarrow> goerr option"
  time_Now :: string
  file_Size :: "string \<Rightarrow> goerr + 64 word"
  file_Close :: "string \<Rightarrow> goerr option"

text \<open>
  The identifier of the goroutine, from the text of its stack trace, of which \<open>runtime.Stack\<close> gives as
  much as the buffer holds.
\<close>

definition runtime_Stack :: "log_env \<Rightarrow> nat \<Rightarrow> string" where
  "runtime_Stack E n = take n (''goroutine '' @ nat_digits (unat (goroutine E)) @ '' '' @ stack_rest E)"

definition strconv_ParseUint :: "string \<Rightarrow> 64 word \<times> goerr option" where
  "strconv_ParseUint s =
     (if s = '''' \<or> \<not> list_all is_digit s then (0, Some ''invalid syntax'')
      else if 2 ^ 64 \<le> digits_nat s then (- 1, Some ''value out of range'')
      else (of_nat (digits_nat s), None))"

definition GetGID :: "log_env \<Rightarrow> 64 word outcome" where
  "GetGID E =
     (let b = strings_TrimPrefix (runtime_Stack E 64) ''goroutine ''
      in if CHR '' '' \<in> set b then Returns (fst (strconv_ParseUint (takeWhile (\<lambda>c. c \<noteq> CHR '' '') b)))
         else Panics)"

text \<open>The package of a function. A name that ends in the name of the process panics.\<close>

definition pkg_name :: "string \<Rightarrow> string \<Rightarrow> string outcome" where
  "pkg_name procName nameFull =
     (if procName = '''' \<or> \<not> strings_Contains nameFull procName
      then Returns (before_dot (filepath_Base nameFull))
      else let start = the (strings_LastIndex nameFull procName) + length procName + 1
           in if start \<le> length nameFull then Returns (before_dot (drop start nameFull)) else Panics)"

definition pkg_tag :: "string \<Rightarrow> string \<Rightarrow> string outcome" where
  "pkg_tag procName nameFull =
     (case pkg_name procName nameFull of
        Returns p \<Rightarrow> Returns (Color ''0;36'' (''['' @ p @ '']''))
      | Panics \<Rightarrow> Panics | Hangs \<Rightarrow> Hangs)"

definition GetPkg :: "log_env \<Rightarrow> string \<Rightarrow> string outcome" where
  "GetPkg E procName = pkg_tag procName (fr_name (call_frame E 3))"

definition SetProcName :: "string \<Rightarrow> (log_state, unit) state" where
  "SetProcName name = modify (\<lambda>s. s\<lparr>ProcName := name\<rparr>)"

definition SetModuleLevel :: "string \<Rightarrow> int \<Rightarrow> (log_state, unit) state" where
  "SetModuleLevel name level = modify (\<lambda>s. s\<lparr>ModuleLevel := AList.update name level (ModuleLevel s)\<rparr>)"

definition log_New :: "log_writer list \<Rightarrow> int \<Rightarrow> string option \<Rightarrow> logger" where
  "log_New out level file = \<lparr>lg_level = level, lg_writers = out, lg_file = file, lg_ignore = []\<rparr>"

definition SetDebugLevel :: "int \<Rightarrow> logger \<Rightarrow> goerr option \<times> logger" where
  "SetDebugLevel level l =
     (if level > MaxLevelLog \<or> level < 0 then (Some ''Invalid Debug Level'', l)
      else (None, l\<lparr>lg_level := level\<rparr>))"

definition logger_Output :: "log_env \<Rightarrow> log_text \<Rightarrow> (log_state, goerr option outcome) state" where
  "logger_Output E txt = do {
     modify (\<lambda>s. s\<lparr>log_written := log_written s @ [(lg_writers (Log s), txt)]\<rparr>);
     ret (Returns (output_err E txt))
   }"

text \<open>\<open>a[4].(string)\<close>: out of range, or not a string.\<close>

definition arg_string :: "log_arg list \<Rightarrow> nat \<Rightarrow> string outcome" where
  "arg_string a i = (if i < length a then (case a ! i of ArgString s \<Rightarrow> Returns s | ArgOther _ \<Rightarrow> Panics) else Panics)"

text \<open>
  The loop over the module levels in \<open>Output\<close>, and in \<open>Outputf\<close> for the low levels: the first module
  whose name occurs in the text decides; \<open>otherwise\<close> is what follows the loop.
\<close>

fun by_module ::
  "string outcome \<Rightarrow> int \<Rightarrow> (log_state, goerr option outcome) state \<Rightarrow> (log_state, goerr option outcome) state \<Rightarrow>
   (string \<times> int) list \<Rightarrow> (log_state, goerr option outcome) state" where
  "by_module subject level out otherwise [] = otherwise"
| "by_module subject level out otherwise ((k, v) # ms) =
     (case subject of
        Returns x \<Rightarrow>
          (if strings_Contains x k then (if level \<ge> v then out else ret (Returns None))
           else by_module subject level out otherwise ms)
      | Panics \<Rightarrow> ret Panics
      | Hangs \<Rightarrow> ret Hangs)"

definition with_gid ::
  "log_env \<Rightarrow> (64 word \<Rightarrow> (log_state, 'a outcome) state) \<Rightarrow> (log_state, 'a outcome) state" where
  "with_gid E f = (case GetGID E of Returns gid \<Rightarrow> f gid | Panics \<Rightarrow> ret Panics | Hangs \<Rightarrow> ret Hangs)"

definition Output :: "log_env \<Rightarrow> int \<Rightarrow> log_arg list \<Rightarrow> (log_state, goerr option outcome) state" where
  "Output E level a = do {
     s \<leftarrow> gets id;
     with_gid E (\<lambda>gid. let ms = range_modules E (ModuleLevel s); gidStr = strconv_Itoa (uint gid)
      in if level \<le> DebugLog then
           (let a = [ArgString (LevelName level), ArgString ''GID'', ArgString (gidStr @ '','')] @ a;
                out = logger_Output E (Sprintln a)
            in by_module (arg_string a 4) level out (if level \<ge> lg_level (Log s) then out else ret (Returns None)) ms)
         else
           (case GetPkg E (ProcName s) of
              Returns pkgName \<Rightarrow>
                (let a = [ArgString (LevelName level), ArgString ''GID'', ArgString (gidStr @ '', '' @ pkgName)] @ a;
                     out = logger_Output E (Sprintln a)
                 in by_module (Returns pkgName) level out (if level \<ge> lg_level (Log s) then out else ret (Returns None)) ms)
            | Panics \<Rightarrow> ret Panics
            | Hangs \<Rightarrow> ret Hangs))
   }"

text \<open>
  In \<open>Outputf\<close> the loop for the high levels ends in its first round, whether the module matched or not.
\<close>

fun by_first_module ::
  "string \<Rightarrow> int \<Rightarrow> (log_state, goerr option outcome) state \<Rightarrow> (log_state, goerr option outcome) state \<Rightarrow>
   (string \<times> int) list \<Rightarrow> (log_state, goerr option outcome) state" where
  "by_first_module pkgName level out otherwise [] = otherwise"
| "by_first_module pkgName level out otherwise ((k, v) # ms) =
     (if strings_Contains pkgName k then (if level \<ge> v then out else ret (Returns None)) else ret (Returns None))"

definition Outputf :: "log_env \<Rightarrow> int \<Rightarrow> string \<Rightarrow> log_arg list \<Rightarrow> (log_state, goerr option outcome) state" where
  "Outputf E level format a = do {
     s \<leftarrow> gets id;
     with_gid E (\<lambda>gid. let ms = range_modules E (ModuleLevel s)
      in if level \<le> DebugLog then
           (let a = [ArgString (LevelName level), ArgString ''GID'', ArgOther (strconv_Itoa (uint gid))] @ a;
                out = logger_Output E (Sprintf (''%s %s %d, '' @ format @ [CHR 0x0A]) a)
            in by_module (arg_string a 4) level out (if level \<ge> lg_level (Log s) then out else ret (Returns None)) ms)
         else
           (case GetPkg E (ProcName s) of
              Returns pkgName \<Rightarrow>
                (let a = [ArgString (LevelName level), ArgString ''GID'', ArgOther (strconv_Itoa (uint gid)), ArgString pkgName] @ a;
                     out = logger_Output E (Sprintf (''%s %s %d, %s '' @ format @ [CHR 0x0A]) a)
                 in by_first_module pkgName level out (if level \<ge> lg_level (Log s) then out else ret (Returns None)) ms)
            | Panics \<Rightarrow> ret Panics
            | Hangs \<Rightarrow> ret Hangs))
   }"

text \<open>The methods and the functions of the package drop the error of \<open>Output\<close>.\<close>

definition dropping :: "(log_state, 'a outcome) state \<Rightarrow> (log_state, unit outcome) state" where
  "dropping m = obind m (\<lambda>_. ret (Returns ()))"

definition Logger_Trace :: "log_env \<Rightarrow> log_arg list \<Rightarrow> (log_state, unit outcome) state" where
  "Logger_Trace E a = dropping (Output E TraceLog a)"

definition Logger_Tracef :: "log_env \<Rightarrow> string \<Rightarrow> log_arg list \<Rightarrow> (log_state, unit outcome) state" where
  "Logger_Tracef E format a = dropping (Outputf E TraceLog format a)"

definition Logger_Debug :: "log_env \<Rightarrow> log_arg list \<Rightarrow> (log_state, unit outcome) state" where
  "Logger_Debug E a = dropping (Output E DebugLog a)"

definition Logger_Debugf :: "log_env \<Rightarrow> string \<Rightarrow> log_arg list \<Rightarrow> (log_state, unit outcome) state" where
  "Logger_Debugf E format a = dropping (Outputf E DebugLog format a)"

definition Logger_Info :: "log_env \<Rightarrow> log_arg list \<Rightarrow> (log_state, unit outcome) state" where
  "Logger_Info E a = dropping (Output E InfoLog a)"

definition Logger_Infof :: "log_env \<Rightarrow> string \<Rightarrow> log_arg list \<Rightarrow> (log_state, unit outcome) state" where
  "Logger_Infof E format a = dropping (Outputf E InfoLog format a)"

definition Logger_Warn :: "log_env \<Rightarrow> log_arg list \<Rightarrow> (log_state, unit outcome) state" where
  "Logger_Warn E a = dropping (Output E WarnLog a)"

definition Logger_Warnf :: "log_env \<Rightarrow> string \<Rightarrow> log_arg list \<Rightarrow> (log_state, unit outcome) state" where
  "Logger_Warnf E format a = dropping (Outputf E WarnLog format a)"

definition Logger_Error :: "log_env \<Rightarrow> log_arg list \<Rightarrow> (log_state, unit outcome) state" where
  "Logger_Error E a = dropping (Output E ErrorLog a)"

definition Logger_Errorf :: "log_env \<Rightarrow> string \<Rightarrow> log_arg list \<Rightarrow> (log_state, unit outcome) state" where
  "Logger_Errorf E format a = dropping (Outputf E ErrorLog format a)"

definition Logger_Fatal :: "log_env \<Rightarrow> log_arg list \<Rightarrow> (log_state, unit outcome) state" where
  "Logger_Fatal E a = dropping (Output E FatalLog a)"

definition Logger_Fatalf :: "log_env \<Rightarrow> string \<Rightarrow> log_arg list \<Rightarrow> (log_state, unit outcome) state" where
  "Logger_Fatalf E format a = dropping (Outputf E FatalLog format a)"

section \<open>The package's functions\<close>

definition AddIgnore :: "string \<Rightarrow> (log_state, unit) state" where
  "AddIgnore name =
     (if length name = 0 then ret ()
      else modify (\<lambda>s. s\<lparr>Log := (Log s)\<lparr>lg_ignore := lg_ignore (Log s) @ [name]\<rparr>\<rparr>))"

definition CleanIgnore :: "(log_state, unit) state" where
  "CleanIgnore = modify (\<lambda>s. s\<lparr>Log := (Log s)\<lparr>lg_ignore := []\<rparr>\<rparr>)"

text \<open>Nothing is written at this level, so that the call stack need not be looked at.\<close>

definition quiet :: "int \<Rightarrow> log_state \<Rightarrow> bool" where
  "quiet level s = (level < lg_level (Log s) \<and> length (ModuleLevel s) = 0)"

definition ignored :: "string \<Rightarrow> log_state \<Rightarrow> bool" where
  "ignored file s = list_ex (strings_Contains file) (lg_ignore (Log s))"

definition func_name :: "string \<Rightarrow> string" where
  "func_name nameFull = strings_TrimPrefix (filepath_Ext nameFull) ''.''"

definition log_Trace :: "log_env \<Rightarrow> log_arg list \<Rightarrow> (log_state, unit outcome) state" where
  "log_Trace E a = do {
     s \<leftarrow> gets id;
     (let f = call_frame E 2; fileName = filepath_Base (fr_file f)
      in if quiet TraceLog s then ret (Returns ())
         else (case pkg_tag (ProcName s) (fr_name f) of
                 Returns pkg \<Rightarrow> Logger_Trace E
                   ([ArgString pkg, ArgString (func_name (fr_name f) @ ''()''),
                     ArgString (fileName @ '':'' @ strconv_Itoa (fr_line f))] @ a)
               | Panics \<Rightarrow> ret Panics | Hangs \<Rightarrow> ret Hangs))
   }"

definition log_Tracef :: "log_env \<Rightarrow> string \<Rightarrow> log_arg list \<Rightarrow> (log_state, unit outcome) state" where
  "log_Tracef E format a = do {
     s \<leftarrow> gets id;
     (let f = call_frame E 2; fileName = filepath_Base (fr_file f)
      in if quiet TraceLog s then ret (Returns ())
         else (case pkg_tag (ProcName s) (fr_name f) of
                 Returns pkg \<Rightarrow> Logger_Tracef E (''%s %s() %s:%d '' @ format)
                   ([ArgString pkg, ArgString (func_name (fr_name f)), ArgString fileName,
                     ArgOther (strconv_Itoa (fr_line f))] @ a)
               | Panics \<Rightarrow> ret Panics | Hangs \<Rightarrow> ret Hangs))
   }"

definition log_Debug :: "log_env \<Rightarrow> log_arg list \<Rightarrow> (log_state, unit outcome) state" where
  "log_Debug E a = do {
     s \<leftarrow> gets id;
     (let f = call_frame E 2; fileName = filepath_Base (fr_file f)
      in if quiet DebugLog s then ret (Returns ())
         else if ignored (fr_file f) s then ret (Returns ())
         else (case pkg_tag (ProcName s) (fr_name f) of
                 Returns pkg \<Rightarrow> Logger_Debug E
                   ([ArgString pkg, ArgString (fr_name f),
                     ArgString (fileName @ '':'' @ strconv_Itoa (fr_line f))] @ a)
               | Panics \<Rightarrow> ret Panics | Hangs \<Rightarrow> ret Hangs))
   }"

definition log_Debugf :: "log_env \<Rightarrow> string \<Rightarrow> log_arg list \<Rightarrow> (log_state, unit outcome) state" where
  "log_Debugf E format a = do {
     s \<leftarrow> gets id;
     (let f = call_frame E 2; fileName = filepath_Base (fr_file f)
      in if quiet DebugLog s then ret (Returns ())
         else if ignored (fr_file f) s then ret (Returns ())
         else (case pkg_tag (ProcName s) (fr_name f) of
                 Returns pkg \<Rightarrow> Logger_Debugf E (''%s %s %s:%d '' @ format)
                   ([ArgString pkg, ArgString (fr_name f), ArgString fileName,
                     ArgOther (strconv_Itoa (fr_line f))] @ a)
               | Panics \<Rightarrow> ret Panics | Hangs \<Rightarrow> ret Hangs))
   }"

definition log_Info :: "log_env \<Rightarrow> log_arg list \<Rightarrow> (log_state, unit outcome) state" where
  "log_Info E a = Logger_Info E a"

definition log_Infof :: "log_env \<Rightarrow> string \<Rightarrow> log_arg list \<Rightarrow> (log_state, unit outcome) state" where
  "log_Infof E format a = Logger_Infof E format a"

definition log_Warn :: "log_env \<Rightarrow> log_arg list \<Rightarrow> (log_state, unit outcome) state" where
  "log_Warn E a = Logger_Warn E a"

definition log_Warnf :: "log_env \<Rightarrow> string \<Rightarrow> log_arg list \<Rightarrow> (log_state, unit outcome) state" where
  "log_Warnf E format a = Logger_Warnf E format a"

definition log_Error :: "log_env \<Rightarrow> log_arg list \<Rightarrow> (log_state, unit outcome) state" where
  "log_Error E a = Logger_Error E a"

definition log_Errorf :: "log_env \<Rightarrow> string \<Rightarrow> log_arg list \<Rightarrow> (log_state, unit outcome) state" where
  "log_Errorf E format a = Logger_Errorf E format a"

definition log_Fatal :: "log_env \<Rightarrow> log_arg list \<Rightarrow> (log_state, unit outcome) state" where
  "log_Fatal E a = Logger_Fatal E a"

definition log_Fatalf :: "log_env \<Rightarrow> string \<Rightarrow> log_arg list \<Rightarrow> (log_state, unit outcome) state" where
  "log_Fatalf E format a = Logger_Fatalf E format a"

section \<open>The log file\<close>

definition FileOpen :: "log_env \<Rightarrow> string \<Rightarrow> goerr + string" where
  "FileOpen E path =
     (let open_it = (let name = path @ time_Now E @ ''_LOG.log''
                     in case os_OpenFile E name of Some err \<Rightarrow> Inl err | None \<Rightarrow> Inr name)
      in case os_Stat E path of
           IsDir \<Rightarrow> open_it
         | IsFile \<Rightarrow> Inl (''open '' @ path @ '': not a directory'')
         | NotExist \<Rightarrow> (case os_MkdirAll E path of Some err \<Rightarrow> Inl err | None \<Rightarrow> open_it)
         | StatErr err \<Rightarrow> Inl err)"

text \<open>Where to log: the path of a directory, an open file, or something else; \<open>os.Exit\<close> ends the program.\<close>

datatype log_loc = LocPath string | LocFile log_writer | LocOther

fun log_writers :: "log_env \<Rightarrow> log_loc list \<Rightarrow> log_writer list \<Rightarrow> string option \<Rightarrow> (log_writer list \<times> string option) option" where
  "log_writers E [] ws file = Some (ws, file)"
| "log_writers E (LocPath p # ls) ws file =
     (case FileOpen E p of
        Inl err \<Rightarrow> None
      | Inr logFile \<Rightarrow> log_writers E ls (ws @ [LogFile logFile]) (Some logFile))"
| "log_writers E (LocFile w # ls) ws file = log_writers E ls (ws @ [w]) file"
| "log_writers E (LocOther # ls) ws file = None"

definition InitLog :: "log_env \<Rightarrow> int \<Rightarrow> log_loc list \<Rightarrow> (log_state, unit) state" where
  "InitLog E logLevel a =
     (case (if length a = 0 then Some ([Discard], None) else log_writers E a [] None) of
        None \<Rightarrow> modify (\<lambda>s. s\<lparr>log_exited := True\<rparr>)
      | Some (writers, logFile) \<Rightarrow>
          modify (\<lambda>s. s\<lparr>Log := log_New writers logLevel logFile, ModuleLevel := []\<rparr>))"

text \<open>What the package does when the program starts; it exits when the directory cannot be used.\<close>

definition PATH :: string where "PATH = ''./Log/''"

definition LogLevel :: int where "LogLevel = InfoLog"

definition log_init :: "log_env \<Rightarrow> (log_state, unit) state" where
  "log_init E = InitLog E LogLevel [LocPath PATH, LocFile Stdout]"

definition GetLogFileSize :: "log_env \<Rightarrow> logger \<Rightarrow> goerr + 64 word" where
  "GetLogFileSize E l = (case lg_file l of None \<Rightarrow> Inl ''invalid argument'' | Some f \<Rightarrow> file_Size E f)"

definition BYTE_TO_MB :: "64 word" where "BYTE_TO_MB = 1024 * 1024"
definition DEFAULT_MAX_LOG_SIZE :: "64 word" where "DEFAULT_MAX_LOG_SIZE = 20"

definition GetMaxLogChangeInterval :: "64 word \<Rightarrow> 64 word" where
  "GetMaxLogChangeInterval maxLogSize =
     (if maxLogSize \<noteq> 0 then maxLogSize * BYTE_TO_MB else DEFAULT_MAX_LOG_SIZE * BYTE_TO_MB)"

definition CheckIfNeedNewFile :: "log_env \<Rightarrow> logger \<Rightarrow> bool" where
  "CheckIfNeedNewFile E l =
     (let maxLogFileSize = GetMaxLogChangeInterval 0
      in case GetLogFileSize E l of
           Inl err \<Rightarrow> False
         | Inr logFileSize \<Rightarrow> (if sint logFileSize > sint maxLogFileSize then True else False))"

definition ClosePrintLog :: "log_env \<Rightarrow> logger \<Rightarrow> goerr option" where
  "ClosePrintLog E l = (case lg_file l of None \<Rightarrow> None | Some f \<Rightarrow> file_Close E f)"

section \<open>Numbers and their text\<close>

lemma of_char_digit: "n < 10 \<Longrightarrow> (of_char (char_of (48 + n :: nat)) :: nat) = 48 + n"
  by (simp add: of_char_of)

lemma is_digit_char: "n < 10 \<Longrightarrow> is_digit (char_of (48 + n :: nat))"
  unfolding is_digit_def of_char_digit by simp

lemma nat_digits_all: "list_all is_digit (nat_digits n)"
proof (induction n rule: nat_digits.induct)
  case (1 n)
  then show ?case by (subst nat_digits.simps) (simp add: is_digit_char)
qed

lemma nat_digits_nonempty [simp]: "nat_digits n \<noteq> ''''"
  by (subst nat_digits.simps) simp

lemma digits_nat_digits [simp]: "digits_nat (nat_digits n) = n"
proof (induction n rule: nat_digits.induct)
  case (1 n)
  then show ?case
    by (subst nat_digits.simps) (auto simp: digits_nat_def of_char_digit simp del: of_char_of)
qed

lemma digit_no_sign: "list_all is_digit s \<Longrightarrow> s \<noteq> '''' \<Longrightarrow>
    \<not> strings_HasPrefix s ''-'' \<and> \<not> strings_HasPrefix s ''+''"
  by (cases s) (auto simp: strings_HasPrefix_def is_digit_def)

lemma Atoi_Itoa:
  assumes "- (2 ^ 63) \<le> i" and "i < 2 ^ 63"
  shows "strconv_Atoi (strconv_Itoa i) = (i, None)"
proof (cases "i < 0")
  case True
  then show ?thesis
    using assms nat_digits_all [of "nat (- i)"]
    by (simp add: strconv_Itoa_def strconv_Atoi_def strings_HasPrefix_def Let_def)
next
  case False
  then show ?thesis
    using assms nat_digits_all [of "nat i"] digit_no_sign [OF nat_digits_all nat_digits_nonempty, of "nat i"]
    by (simp add: strconv_Itoa_def strconv_Atoi_def Let_def)
qed

text \<open>A 64-bit number has at most twenty digits, so the buffer of \<open>GetGID\<close> holds it whole.\<close>

lemma length_nat_digits: "n < 10 ^ Suc k \<Longrightarrow> length (nat_digits n) \<le> Suc k"
proof (induction k arbitrary: n)
  case (Suc k)
  then have "n div 10 < 10 ^ Suc k" by (simp add: div_less_iff_less_mult mult.commute)
  then show ?case using Suc.IH [of "n div 10"] by (subst nat_digits.simps) simp
qed (simp add: nat_digits.simps)

lemma GetGID_goroutine [simp]: "GetGID E = Returns (goroutine E)"
proof -
  let ?d = "nat_digits (unat (goroutine E))"
  have less: "unat (goroutine E) < 2 ^ 64" using unsigned_less [of "goroutine E", where 'a = nat] by simp
  then have "unat (goroutine E) < 10 ^ Suc 19" by simp
  then have len: "length ?d \<le> 20" using length_nat_digits [of _ 19] by simp
  have digits: "c \<noteq> CHR '' ''" if "c \<in> set ?d" for c
    using nat_digits_all [of "unat (goroutine E)"] that by (auto simp: list_all_iff is_digit_def)
  obtain k where k: "54 - length ?d = Suc k" using len by (cases "54 - length ?d") simp_all
  have stack: "strings_TrimPrefix (runtime_Stack E 64) ''goroutine '' =
      ?d @ '' '' @ take k (stack_rest E)"
    using len by (simp add: k runtime_Stack_def strings_TrimPrefix_def strings_HasPrefix_def)
  have "takeWhile (\<lambda>c. c \<noteq> CHR '' '') (?d @ '' '' @ take k (stack_rest E)) = ?d"
    using digits by (simp add: takeWhile_append2)
  then show ?thesis
    unfolding GetGID_def Let_def stack
    using nat_digits_all [of "unat (goroutine E)"] less
    by (simp add: strconv_ParseUint_def)
qed

lemma with_gid_goroutine [simp]: "with_gid E f = f (goroutine E)"
  by (simp add: with_gid_def)

section \<open>Which messages are written\<close>

text \<open>What the module levels are for: the level of the first module that matches, or that of the logger.\<close>

definition passes :: "(string \<times> int) list \<Rightarrow> string \<Rightarrow> int \<Rightarrow> int \<Rightarrow> bool" where
  "passes ms p level otherwise =
     (case find (\<lambda>(k, v). strings_Contains p k) ms of Some (k, v) \<Rightarrow> v \<le> level | None \<Rightarrow> otherwise \<le> level)"

lemma by_module_passes:
  "by_module (Returns p) level out (if otherwise \<le> level then out else ret (Returns None)) ms =
     (if passes ms p level otherwise then out else ret (Returns None))"
  by (induction ms) (auto simp: passes_def)

lemma Output_passes:
  assumes "DebugLog < level" and "GetPkg E (ProcName s) = Returns p"
  shows "run_state (Output E level a) s =
    (if passes (range_modules E (ModuleLevel s)) p level (lg_level (Log s))
     then run_state (logger_Output E (Sprintln ([ArgString (LevelName level), ArgString ''GID'',
       ArgString (strconv_Itoa (uint (goroutine E)) @ '', '' @ p)] @ a))) s
     else (Returns None, s))"
  using assms by (simp add: Output_def Let_def by_module_passes)

text \<open>The logger that every program starts with writes to a file as well as to the console.\<close>

lemma log_init_cases:
  "snd (run_state (log_init E) s) =
    (case FileOpen E PATH of
       Inl err \<Rightarrow> s\<lparr>log_exited := True\<rparr>
     | Inr f \<Rightarrow> s\<lparr>Log := log_New [LogFile f, Stdout] InfoLog (Some f), ModuleLevel := []\<rparr>)"
  by (simp add: log_init_def InitLog_def LogLevel_def split: sum.split)

section \<open>Properties\<close>

text \<open>
  The names of levels are read back: whatever the order in which the map of levels is ranged over,
  \<open>NameLevel\<close> returns every level from the name that \<open>LevelName\<close> gives it, the unknown levels included,
  whose names carry the number.
\<close>

theorem level_name_round_trip:
  assumes "- (2 ^ 63) \<le> level" and "level < 2 ^ 63" and "mset ranged = mset levels"
  shows "NameLevel ranged (LevelName level) = level"
proof -
  have r: "set ranged = set levels" using assms(3) by (rule mset_eq_setD)
  show ?thesis
  proof (cases "map_of levels level")
    case (Some name)
    then have "(level, name) \<in> set ranged" using r map_of_SomeD by fast
    then obtain k where "find (\<lambda>(k, v). v = name) ranged = Some (k, name)" "(k, name) \<in> set levels"
      using r by (cases "find (\<lambda>(k, v). v = name) ranged") (auto simp: find_None_iff find_Some_iff dest: nth_mem)
    moreover from this(2) map_of_SomeD [OF Some] have "k = level"
      by (auto simp: levels_def Color_def level_defs)
    ultimately show ?thesis using Some by (simp add: NameLevel_def LevelName_def)
  next
    case None
    have "find (\<lambda>(k, v). v = NAME_PREFIX @ strconv_Itoa level) ranged = None"
      using r by (auto simp: find_None_iff levels_def Color_def NAME_PREFIX_def)
    then show ?thesis
      using None Atoi_Itoa [OF assms(1,2)] by (simp add: NameLevel_def LevelName_def strings_HasPrefix_def)
  qed
qed

text \<open>
  C39: formatted messages are lost. When there are module levels and the first of them that the map
  gives does not match the package of a message, \<open>Outputf\<close> drops the message, however severe it is,
  where \<open>Output\<close> writes it whenever the module that matches, or else the logger, lets it pass.
\<close>

theorem printf_loses_messages:
  assumes "DebugLog < level" and "GetPkg E (ProcName s) = Returns p"
    and "range_modules E (ModuleLevel s) = m # ms" and "\<not> strings_Contains p (fst m)"
  shows "run_state (Outputf E level format a) s = (Returns None, s) \<and>
    (passes (m # ms) p level (lg_level (Log s)) \<longrightarrow>
       length (log_written (snd (run_state (Output E level a) s))) = length (log_written s) + 1)"
  using assms by (cases m) (auto simp: Outputf_def Let_def Output_passes logger_Output_def)

end
