(* ===== verification/WN_Store.thy ===== *)
theory WN_Store
  imports WN_Account WN_Log
begin

text \<open>
  The rest of \<^verbatim>\<open>common/store\<close>: the deletions, batches and prefix queries of \<^verbatim>\<open>leveldb.go\<close>, and the SQLite
  wrapper of \<^verbatim>\<open>sqlite.go\<close> and \<^verbatim>\<open>utils.go\<close>. What the databases answer is given by the environment. An
  iterator of LevelDB hands out slices of memory of its own, which it may use again for the next key:
  they are modelled as an address and a length, and the memory as a map from addresses to bytes.
\<close>

section \<open>LevelDB\<close>

record store_env = leveldb +
  has_err :: "string \<Rightarrow> goerr option"
  del_err :: "string \<Rightarrow> goerr option"
  write_err :: "store \<Rightarrow> goerr option"
  close_err :: "goerr option"
  iter_keys :: "store \<Rightarrow> string \<Rightarrow> string list \<times> goerr option"
  key_addr :: "nat \<Rightarrow> nat"

datatype batch_op = OpPut string bytes | OpDelete string

record level_store =
  ls_db :: store
  ls_batch :: "batch_op list option"

definition db_Has :: "store_env \<Rightarrow> store \<Rightarrow> string \<Rightarrow> bool \<times> goerr option" where
  "db_Has D db k = (case has_err D k of Some e \<Rightarrow> (False, Some e) | None \<Rightarrow> (db k \<noteq> None, None))"

definition db_Delete :: "store_env \<Rightarrow> store \<Rightarrow> string \<Rightarrow> store \<times> goerr option" where
  "db_Delete D db k = (case del_err D k of Some e \<Rightarrow> (db, Some e) | None \<Rightarrow> (db(k := None), None))"

definition db_Close :: "store_env \<Rightarrow> goerr option" where
  "db_Close D = close_err D"

text \<open>A method on a nil batch dereferences it; writing a nil batch is no error and does nothing.\<close>

definition NewBatch :: "level_store \<Rightarrow> level_store" where
  "NewBatch s = s\<lparr>ls_batch := Some []\<rparr>"

definition BatchPut :: "string \<Rightarrow> bytes \<Rightarrow> level_store \<Rightarrow> level_store outcome" where
  "BatchPut key value s =
     (case ls_batch s of None \<Rightarrow> Panics | Some b \<Rightarrow> Returns (s\<lparr>ls_batch := Some (b @ [OpPut key value])\<rparr>))"

definition BatchDelete :: "string \<Rightarrow> level_store \<Rightarrow> level_store outcome" where
  "BatchDelete key s =
     (case ls_batch s of None \<Rightarrow> Panics | Some b \<Rightarrow> Returns (s\<lparr>ls_batch := Some (b @ [OpDelete key])\<rparr>))"

fun apply_op :: "batch_op \<Rightarrow> store \<Rightarrow> store" where
  "apply_op (OpPut k v) db = db(k \<mapsto> v)"
| "apply_op (OpDelete k) db = db(k := None)"

definition db_Write :: "store_env \<Rightarrow> batch_op list option \<Rightarrow> store \<Rightarrow> store \<times> goerr option" where
  "db_Write D batch db =
     (case batch of
        None \<Rightarrow> (db, None)
      | Some ops \<Rightarrow> (case write_err D db of Some e \<Rightarrow> (db, Some e) | None \<Rightarrow> (fold apply_op ops db, None)))"

definition BatchCommit :: "store_env \<Rightarrow> level_store \<Rightarrow> goerr option \<times> level_store" where
  "BatchCommit D s =
     (case db_Write D (ls_batch s) (ls_db s) of
        (db, Some err) \<Rightarrow> (Some err, s\<lparr>ls_db := db\<rparr>)
      | (db, None) \<Rightarrow> (None, s\<lparr>ls_db := db, ls_batch := None\<rparr>))"

section \<open>Queries by prefix\<close>

type_synonym slice = "nat \<times> nat"

definition slice_get :: "(nat \<Rightarrow> string) \<Rightarrow> slice \<Rightarrow> string" where
  "slice_get mem sl = take (snd sl) (mem (fst sl))"

text \<open>The iterator puts the i-th key at the front of the memory that it uses for it.\<close>

definition put_key :: "string \<Rightarrow> nat \<Rightarrow> (nat \<Rightarrow> string) \<Rightarrow> nat \<Rightarrow> string" where
  "put_key k a mem = mem(a := k @ drop (length k) (mem a))"

fun query_loop ::
  "(nat \<Rightarrow> nat) \<Rightarrow> nat \<Rightarrow> string list \<Rightarrow> (nat \<Rightarrow> string) \<Rightarrow> slice list \<Rightarrow> slice list \<times> (nat \<Rightarrow> string)" where
  "query_loop addr i [] mem keys = (keys, mem)"
| "query_loop addr i (k # ks) mem keys =
     query_loop addr (Suc i) ks (put_key k (addr i) mem) (keys @ [(addr i, length k)])"

text \<open>The slices are read by the caller after the loop; a string is a copy made in the loop.\<close>

definition QueryKeysByPrefix :: "store_env \<Rightarrow> store \<Rightarrow> string \<Rightarrow> goerr + string list" where
  "QueryKeysByPrefix D db prefix =
     (case iter_keys D db prefix of
        (_, Some err) \<Rightarrow> Inl err
      | (ks, None) \<Rightarrow> (case query_loop (key_addr D) 0 ks (\<lambda>_. []) [] of (keys, mem) \<Rightarrow> Inr (map (slice_get mem) keys)))"

fun query_strings ::
  "(nat \<Rightarrow> nat) \<Rightarrow> nat \<Rightarrow> string list \<Rightarrow> (nat \<Rightarrow> string) \<Rightarrow> string list \<Rightarrow> string list" where
  "query_strings addr i [] mem keys = keys"
| "query_strings addr i (k # ks) mem keys =
     (let mem = put_key k (addr i) mem
      in query_strings addr (Suc i) ks mem (keys @ [slice_get mem (addr i, length k)]))"

definition QueryStringKeysByPrefix :: "store_env \<Rightarrow> store \<Rightarrow> string \<Rightarrow> goerr + string list" where
  "QueryStringKeysByPrefix D db prefix =
     (case iter_keys D db prefix of
        (_, Some err) \<Rightarrow> Inl err
      | (ks, None) \<Rightarrow> Inr (query_strings (key_addr D) 0 ks (\<lambda>_. []) []))"

section \<open>SQLite\<close>

text \<open>A connection counts the prepared statements that are open.\<close>

record sql_env =
  sql_Open :: "string \<Rightarrow> goerr option"
  sql_Exec :: "string \<Rightarrow> goerr option"
  sql_Prepare :: "string \<Rightarrow> goerr option"
  stmt_Exec :: "string \<Rightarrow> string list \<Rightarrow> goerr option"
  stmt_Query :: "string \<Rightarrow> string list \<Rightarrow> goerr + string list list"
  sql_Close :: "goerr option"

record sqlite =
  sl_path :: string
  sl_stmts :: nat

text \<open>
  \<open>fmt.Sprintf\<close> of a format without verbs appends its arguments as surplus ones.
\<close>

definition CreateTasks :: string where "CreateTasks = ''''"
definition ScriptCreateTables :: string where "ScriptCreateTables = ''''"

definition sprintf_plain :: "string \<Rightarrow> string \<Rightarrow> string" where
  "sprintf_plain format arg = format @ ''%!(EXTRA string='' @ arg @ '')''"

definition GetCreateTables :: string where
  "GetCreateTables = sprintf_plain ScriptCreateTables CreateTasks"

definition NewSQLiteStorage :: "sql_env \<Rightarrow> string \<Rightarrow> string \<Rightarrow> goerr + sqlite" where
  "NewSQLiteStorage Q databasePath createTableScript =
     (case strings_LastIndex databasePath ''.'' of
        None \<Rightarrow> Inl ''new sqlite database error: can't find \".\"''
      | Some i \<Rightarrow>
          (let statePath = take i databasePath @ ''-state.db''
           in case sql_Open Q statePath of
                Some err \<Rightarrow> Inl err
              | None \<Rightarrow>
           (case sql_Exec Q ''PRAGMA synchronous = NORMAL'' of
              Some err \<Rightarrow> Inl err
            | None \<Rightarrow>
           (case sql_Exec Q ''PRAGMA journal_mode=WAL'' of
              Some err \<Rightarrow> Inl err
            | None \<Rightarrow>
           (case sql_Exec Q GetCreateTables of
              Some err \<Rightarrow> Inl err
            | None \<Rightarrow>
           (if length createTableScript > 0
            then (case sql_Exec Q createTableScript of
                    Some err \<Rightarrow> Inl err
                  | None \<Rightarrow> Inr \<lparr>sl_path = statePath, sl_stmts = 0\<rparr>)
            else Inr \<lparr>sl_path = statePath, sl_stmts = 0\<rparr>))))))"

definition sqlite_Exec :: "sql_env \<Rightarrow> string \<Rightarrow> string list \<Rightarrow> sqlite \<Rightarrow> (bool \<times> goerr option) \<times> sqlite" where
  "sqlite_Exec Q query args db =
     (case sql_Prepare Q query of
        Some err \<Rightarrow> ((False, Some err), db)
      | None \<Rightarrow>
          (let opened = db\<lparr>sl_stmts := sl_stmts db + 1\<rparr>
           in case stmt_Exec Q query args of
                Some err \<Rightarrow> ((False, Some err), opened)
              | None \<Rightarrow> ((True, None), opened\<lparr>sl_stmts := sl_stmts opened - 1\<rparr>)))"

definition sqlite_Query :: "sql_env \<Rightarrow> string \<Rightarrow> string list \<Rightarrow> sqlite \<Rightarrow> (goerr + string list list) \<times> sqlite" where
  "sqlite_Query Q query args db =
     (case sql_Prepare Q query of
        Some err \<Rightarrow> (Inl err, db)
      | None \<Rightarrow>
          (let opened = db\<lparr>sl_stmts := sl_stmts db + 1\<rparr>; rows = stmt_Query Q query args
           in (rows, opened\<lparr>sl_stmts := sl_stmts opened - 1\<rparr>)))"

definition sqlite_Close :: "sql_env \<Rightarrow> goerr option" where
  "sqlite_Close Q = sql_Close Q"

section \<open>Behaviour\<close>

text \<open>The memory that is read back in the same round holds the key.\<close>

lemma query_strings_keys: "query_strings addr i ks mem keys = keys @ ks"
  by (induction ks arbitrary: i mem keys) (simp_all add: Let_def slice_get_def put_key_def)

lemma query_loop_slices:
  "fst (query_loop addr i ks mem keys) = keys @ map (\<lambda>j. (addr (i + j), length (ks ! j))) [0..<length ks]"
proof (induction ks arbitrary: i mem keys)
  case (Cons k ks)
  have "[0..<length (k # ks)] = 0 # map Suc [0..<length ks]"
    by (simp add: map_Suc_upt upt_conv_Cons del: upt_Suc)
  then show ?case by (simp add: Cons.IH comp_def)
qed simp

text \<open>Memory that is used for one key only keeps it.\<close>

lemma query_loop_other:
  "(\<And>j. j < length ks \<Longrightarrow> addr (i + j) \<noteq> a) \<Longrightarrow> snd (query_loop addr i ks mem keys) a = mem a"
proof (induction ks arbitrary: i mem keys)
  case (Cons k ks)
  have "addr (Suc i + j) \<noteq> a" if "j < length ks" for j using Cons.prems [of "Suc j"] that by simp
  moreover have "addr i \<noteq> a" using Cons.prems [of 0] by simp
  ultimately show ?case by (simp add: Cons.IH put_key_def)
qed simp

text \<open>Memory that is used for every key holds the last one, when they are equally long.\<close>

lemma query_loop_reused:
  "(\<And>j. addr j = a) \<Longrightarrow> list_all (\<lambda>k. length k = n) ks \<Longrightarrow> length (mem a) \<le> n \<Longrightarrow>
   snd (query_loop addr i ks mem keys) a = (if ks = [] then mem a else last ks)"
  by (induction ks arbitrary: i mem keys) (auto simp: put_key_def)

section \<open>Properties\<close>

text \<open>
  The two queries by prefix differ. \<open>QueryStringKeysByPrefix\<close> returns the keys that the iterator
  visits. \<open>QueryKeysByPrefix\<close> keeps the iterator's own slices: when it uses the same memory for every
  key, as it may, equally long keys all read as the last one.
\<close>

theorem query_keys_overwritten:
  assumes "iter_keys D db prefix = (ks, None)" and "\<And>j. key_addr D j = a" and "list_all (\<lambda>k. length k = n) ks"
  shows "QueryStringKeysByPrefix D db prefix = Inr ks \<and>
    QueryKeysByPrefix D db prefix = Inr (replicate (length ks) (last ks))"
proof -
  let ?r = "query_loop (key_addr D) 0 ks (\<lambda>_. []) []"
  have len: "length (ks ! j) = n" if "j < length ks" for j
    using assms(3) that by (simp add: list_all_length)
  have mem: "snd ?r a = last ks" if "ks \<noteq> []"
    using query_loop_reused [OF assms(2,3), where mem = "\<lambda>_. []" and i = 0 and keys = "[]"] that by simp
  have last: "length (last ks) = n" if "ks \<noteq> []"
    using assms(3) last_in_set [OF that] by (simp add: list_all_iff)
  have "slice_get (snd ?r) (key_addr D (0 + j), length (ks ! j)) = last ks" if "j < length ks" for j
  proof -
    from that have "ks \<noteq> []" by auto
    then show ?thesis using mem last len [OF that] by (simp add: slice_get_def assms(2))
  qed
  then have "map (slice_get (snd ?r)) (fst ?r) = replicate (length ks) (last ks)"
    unfolding query_loop_slices by (intro nth_equalityI) simp_all
  then show ?thesis
    using assms(1) by (simp add: QueryKeysByPrefix_def QueryStringKeysByPrefix_def query_strings_keys case_prod_unfold)
qed

text \<open>
  C40: the SQLite storage never opens. Its own script for creating tables is what \<open>fmt\<close> makes of an
  empty format with an argument too many, \<open>%!(EXTRA string=)\<close>; SQLite rejects it, so that
  \<open>NewSQLiteStorage\<close> fails for every path and every script.
\<close>

theorem sqlite_never_opens:
  assumes "sql_Exec Q ''%!(EXTRA string=)'' = Some e"
  shows "\<exists>err. NewSQLiteStorage Q path script = Inl err"
proof -
  have "GetCreateTables = ''%!(EXTRA string=)''"
    by (simp add: GetCreateTables_def sprintf_plain_def CreateTasks_def ScriptCreateTables_def)
  then show ?thesis
    using assms by (simp add: NewSQLiteStorage_def Let_def split: option.split)
qed

end
