(* ===== verification/WN_Circuit.thy ===== *)
theory WN_Circuit
  imports WN_Relay
begin

text \<open>
  How a circuit comes about, and what its middle does. One link is made by two nodes:
  \<open>NewSessionToPeer\<close> of \<^verbatim>\<open>relay/manager.go\<close> opens a stream and sends two messages over it, and
  \<open>RelayStreamHandler\<close> with its inbound loop (\<^verbatim>\<open>relay.go\<close>) reads them at the other end. A circuit is five
  links between six nodes; its four inner nodes are then hops, which pass data on unchanged in both
  directions. It is complete when the probes of its two sides have met at the joint node and its
  answer has reached both ends.
\<close>

section \<open>Hops\<close>

text \<open>
  A node in the middle of a circuit, as it is when the data of one message arrives: its environment,
  configuration and state, the stream it reads from and the stream on the other side. What it
  passes on are the messages it adds to the other stream while its loop reads the given ones.
\<close>

record hop =
  hop_env :: "relay_state relay_env"
  hop_cfg :: relay_cfg
  hop_state :: relay_state
  hop_in :: wn_stream
  hop_out :: wn_stream

definition hop_ok :: "string \<Rightarrow> hop \<Rightarrow> bool" where
  "hop_ok sid h =
     ((\<exists>sess. sessionMap (hop_state h) sid = Some sess \<and> Role sess \<notin> {CallerRole, AnswerRole} \<and>
        GetPattern sess (StreamId (hop_in h)) = Inr (hop_out h)) \<and>
      (\<forall>t i b. write_res (hop_env h) t i b = None) \<and> \<not> closed (tr (hop_state h)) (StreamId (hop_in h)))"

definition passed_on :: "'l crypto_lib_scheme \<Rightarrow> hop \<Rightarrow> bytes list \<Rightarrow> bytes list" where
  "passed_on L h bs =
     (let i = StreamId (hop_out h);
          t = snd (run_state (RelayInboundHandler (hop_env h) (hop_cfg h) L (hop_in h) (map Inr bs)) (hop_state h))
      in drop (length (wire i (tr (hop_state h)))) (wire i (tr t)))"

lemma passed_on_same:
  assumes "hop_ok sid h" and "list_all (data_msg L sid) bs"
  shows "passed_on L h bs = bs"
proof -
  from assms(1) obtain sess where sess: "sessionMap (hop_state h) sid = Some sess"
      "Role sess \<notin> {CallerRole, AnswerRole}" "GetPattern sess (StreamId (hop_in h)) = Inr (hop_out h)"
      "\<And>t i b. write_res (hop_env h) t i b = None" "\<not> closed (tr (hop_state h)) (StreamId (hop_in h))"
    by (auto simp: hop_ok_def)
  show ?thesis
    unfolding passed_on_def Let_def RelayInboundHandler_forward [OF assms(2) sess]
    by (simp add: wire_writes)
qed

lemma fold_passed_on:
  "list_all (hop_ok sid) hops \<Longrightarrow> list_all (data_msg L sid) bs \<Longrightarrow> fold (passed_on L) hops bs = bs"
  by (induction hops) (simp_all add: passed_on_same [of sid])

section \<open>One link\<close>

text \<open>
  The session of a node after it was asked to join one more stream. \<open>steady\<close>: while a node waits for an
  acknowledgement, which comes and is positive, its other goroutines leave alone the session of this
  circuit and the streams \<open>J\<close> of the circuit.
\<close>

definition joined :: "wn_stream \<Rightarrow> string \<Rightarrow> session_role \<Rightarrow> session option \<Rightarrow> session" where
  "joined st sid role v =
     AddStream st (case v of Some sess \<Rightarrow> sess | None \<Rightarrow> \<lparr>sess_Id = sid, Pair = [], Role = role\<rparr>)"

definition steady :: "('a relay_state_scheme, 'e) env_scheme \<Rightarrow> string \<Rightarrow> string set \<Rightarrow> bool" where
  "steady E sid J = (\<forall>i s. wp (await E i) (\<lambda>r t. (\<exists>res. r = Some res \<and> res_Ok res) \<and>
     sessionMap t sid = sessionMap s sid \<and>
     (\<forall>j\<in>J. wire j (tr t) = wire j (tr s) \<and> closed (tr t) j = closed (tr s) j)) s)"

definition link_msgs :: "'l lib_scheme \<Rightarrow> string \<Rightarrow> session_role \<Rightarrow> bytes list" where
  "link_msgs L sid role = [NewRelayWake L, fst (NewSetSessionIDCommand L sid role)]"

definition accept ::
  "('a relay_state_scheme, 'e) env_scheme \<Rightarrow> relay_cfg \<Rightarrow> 'l crypto_lib_scheme \<Rightarrow> wn_stream \<Rightarrow> bytes list \<Rightarrow>
   ('a relay_state_scheme, unit) state" where
  "accept E C L st bs = do {
     RelayStreamHandler st;
     RelayInboundHandler E C L st (map Inr bs)
   }"

lemma SetSessionId_joins:
  assumes "streamMap s (StreamId st) = Some info" and "si_stream info = st"
    and "\<And>t j b. write_res E t j b = None" and "steady E sid J"
  shows "wp (SetSessionId E L sid (StreamId st) r q) (\<lambda>err t. err = None \<and>
     sessionMap t sid = Some (joined st sid r (sessionMap s sid)) \<and>
     (\<forall>j\<in>J. closed (tr t) j = closed (tr s) j \<and>
        wire j (tr t) = wire j (tr s) @ (if j = StreamId st then [fst (NewSetSessionIDCommand L sid q)] else []))) s"
proof -
  obtain data i where m: "NewSetSessionIDCommand L sid q = (data, i)" by (metis prod.collapse)
  have waited: "wp (await E i) (\<lambda>r t. (\<exists>res. r = Some res \<and> res_Ok res) \<and>
     sessionMap t sid = sessionMap u sid \<and>
     (\<forall>j\<in>J. wire j (tr t) = wire j (tr u) \<and> closed (tr t) j = closed (tr u) j)) u" for u
    using assms(4) by (simp add: steady_def)
  show ?thesis
    using assms(1-3)
    by (auto simp: SetSessionId_def GetStream_def m wp_simps make_chan_def RequestAck_def GetSession_def
        AddSessionId_def AddStreamSessionID_def joined_def table_defs SetSessionID_def NewSession_def closed_def
        split: option.splits intro!: wp_mono [OF waited])
qed

lemma NewSessionToPeer_joins:
  assumes "\<And>t. open_res E t peer RelayProtocol = Inr st" and "\<And>t j b. write_res E t j b = None"
    and "steady E sid J" and "StreamId st \<in> J"
  shows "wp (NewSessionToPeer E L peer sid r q) (\<lambda>err t. err = None \<and>
     sessionMap t sid = Some (joined st sid r (sessionMap s sid)) \<and>
     (\<forall>j\<in>J. closed (tr t) j = closed (tr s) j \<and>
        wire j (tr t) = wire j (tr s) @ (if j = StreamId st then link_msgs L sid q else []))) s"
proof -
  let ?s = "(store_stream (StreamId st) \<lparr>si_stream = st, si_sessionID = ''''\<rparr> s)
    \<lparr>tr := tr s @ [EOpen peer RelayProtocol (StreamId st), EWrite (StreamId st) (NewRelayWake L)],
     jobs := jobs s @ [InboundJob st]\<rparr>"
  have new: "run_state (NewRelayStream E L peer) s = (Inr (StreamId st), ?s)"
    using assms(1,2) by (cases s) (simp add: NewRelayStream_def NewStream_def WriteMsg_def emit_def
        mgr_AddStream_def spawn_def table_defs)
  have "streamMap ?s (StreamId st) = Some \<lparr>si_stream = st, si_sessionID = ''''\<rparr>" by (simp add: table_defs)
  from SetSessionId_joins [OF this _ assms(2,3), where L = L and r = r and q = q] assms(4) show ?thesis
    by (auto simp: NewSessionToPeer_def wp_run new table_defs closed_def wire_def link_msgs_def)
qed

text \<open>The other end: the messages are read, the stream joins the session, and an acknowledgement is on its way.\<close>

lemma link_msgs_read:
  assumes "marshals (pb_Relay L)" and "marshals (pb_SetSessionIdMsg L)"
  obtains b d where "Unmarshal (pb_Relay L) (NewRelayWake L) = (sealed_relay L Relaytype_Wake [], None)"
    and "NewSetSessionIDCommand L sid q = (b, relay_Id (sealed_relay L Relaytype_SetSessionId d))"
    and "Unmarshal (pb_Relay L) b = (sealed_relay L Relaytype_SetSessionId d, None)"
    and "Unmarshal (pb_SetSessionIdMsg L) d = (\<lparr>ssm_SessionId = sid, ssm_Role = word_of_int q\<rparr>, None)"
proof -
  have rt: "Unmarshal c (fst (Marshal c m)) = (m, None)" if "marshals c" for c :: "'m codec" and m
    using that unfolding marshals_def codec_ok_def by (metis prod.collapse)
  show thesis
    by (rule that [where d = "fst (Marshal (pb_SetSessionIdMsg L) \<lparr>ssm_SessionId = sid, ssm_Role = word_of_int q\<rparr>)"
          and b = "fst (Marshal (pb_Relay L) (sealed_relay L Relaytype_SetSessionId
             (fst (Marshal (pb_SetSessionIdMsg L) \<lparr>ssm_SessionId = sid, ssm_Role = word_of_int q\<rparr>))))"])
      (simp_all add: NewRelayWake_def NewSetSessionIDCommand_def Let_def rt assms)
qed

lemma sint_role [simp]:
  "sint (word_of_int EntryRole :: 32 word) = EntryRole" "sint (word_of_int JointRole :: 32 word) = JointRole"
  "sint (word_of_int RelayRole :: 32 word) = RelayRole" "sint (word_of_int AnswerRole :: 32 word) = AnswerRole"
  by (simp_all add: role_defs)

definition link_ack :: "'l lib_scheme \<Rightarrow> string \<Rightarrow> session_role \<Rightarrow> pb_ack" where
  "link_ack L sid role = \<lparr>ack_CommandId = snd (NewSetSessionIDCommand L sid role), ack_Result = True, ack_Data = []\<rparr>"

lemma handleSetSession_joins:
  assumes "Unmarshal (pb_SetSessionIdMsg L) (relay_Data r) = (m, None)"
    and "cfg_role C = ClientMode \<longrightarrow> sint (ssm_Role m) = AnswerRole"
    and "\<And>sess. sessionMap s (ssm_SessionId m) = Some sess \<Longrightarrow>
      Role sess \<noteq> EntryRole \<or> sint (ssm_Role m) \<noteq> RelayRole"
  shows "wp (handleSetSession E C L r st) (\<lambda>err t. err = None \<and> tr t = tr s \<and> probeMap t = probeMap s \<and>
     sessionMap t (ssm_SessionId m) =
       Some (joined st (ssm_SessionId m) (sint (ssm_Role m)) (sessionMap s (ssm_SessionId m))) \<and>
     ackMail t = ackMail s @ [ReqAck (set_session_ack r True []) (RemotePeer st)] \<and>
     (cfg_role C = ClientMode \<longrightarrow> circuitConnMap t (ssm_SessionId m) \<noteq> None)) s"
proof (cases "cfg_role C = ClientMode")
  case False
  then show ?thesis
    using handleSetSession_join [OF assms(1), of C s E st] assms(3) by (simp add: wp_run joined_def)
next
  case True
  with assms show ?thesis
    by (auto simp: handleSetSession_def Let_def RequestAck_def GetSession_def AddCircuitConnAnswer_def NewCircuitConn_def
      AddSessionId_def mgr_AddStream_def AddStreamSessionID_def table_defs set_session_ack_def
      SetSessionID_def NewSession_def joined_def role_defs wp_simps split: option.split)
qed

lemma accept_joins:
  assumes "marshals (pb_Relay L)" and "marshals (pb_SetSessionIdMsg L)"
    and "q \<in> {EntryRole, JointRole, RelayRole, AnswerRole}" and "cfg_role C = ClientMode \<longrightarrow> q = AnswerRole"
    and "\<not> closed (tr s) (StreamId st)"
    and "\<And>sess. sessionMap s sid = Some sess \<Longrightarrow> Role sess \<noteq> EntryRole \<or> q \<noteq> RelayRole"
  shows "wp (accept E C L st (link_msgs L sid q)) (\<lambda>_ t. tr t = tr s \<and> probeMap t = probeMap s \<and>
     sessionMap t sid = Some (joined st sid q (sessionMap s sid)) \<and>
     ackMail t = ackMail s @ [ReqAck (link_ack L sid q) (RemotePeer st)] \<and>
     (cfg_role C = ClientMode \<longrightarrow> circuitConnMap t sid \<noteq> None)) s"
proof -
  obtain b d where msg: "Unmarshal (pb_Relay L) (NewRelayWake L) = (sealed_relay L Relaytype_Wake [], None)"
      "NewSetSessionIDCommand L sid q = (b, relay_Id (sealed_relay L Relaytype_SetSessionId d))"
      "Unmarshal (pb_Relay L) b = (sealed_relay L Relaytype_SetSessionId d, None)"
      "Unmarshal (pb_SetSessionIdMsg L) d = (\<lparr>ssm_SessionId = sid, ssm_Role = word_of_int q\<rparr>, None)"
    using link_msgs_read [OF assms(1,2)] .
  have q: "sint (word_of_int q :: 32 word) = q" using assms(3) by auto
  let ?s = "(store_stream (StreamId st) \<lparr>si_stream = st, si_sessionID = ''''\<rparr> s)\<lparr>jobs := jobs s @ [InboundJob st]\<rparr>"
  have start: "run_state (RelayStreamHandler st) s = ((), ?s)"
    by (cases s) (simp add: RelayStreamHandler_def mgr_AddStream_def spawn_def table_defs)
  have s: "sessionMap ?s = sessionMap s" "tr ?s = tr s" "ackMail ?s = ackMail s" "probeMap ?s = probeMap s" by (simp_all add: table_defs)
  have set: "wp (handleSetSession E C L (sealed_relay L Relaytype_SetSessionId d) st) (\<lambda>err t. tr t = tr s \<and> probeMap t = probeMap s \<and>
     sessionMap t sid = Some (joined st sid q (sessionMap s sid)) \<and>
     ackMail t = ackMail s @ [ReqAck (link_ack L sid q) (RemotePeer st)] \<and>
     (cfg_role C = ClientMode \<longrightarrow> circuitConnMap t sid \<noteq> None)) ?s"
    using handleSetSession_joins [where C = C and s = ?s and E = E and st = st and L = L and
        r = "sealed_relay L Relaytype_SetSessionId d" and m = "\<lparr>ssm_SessionId = sid, ssm_Role = word_of_int q\<rparr>"]
      msg(4) assms(4,6)
    unfolding s by (auto simp: q link_ack_def set_session_ack_def msg(2) elim!: wp_mono)
  have "wp (accept E C L st (link_msgs L sid q)) Q s =
      wp (handleSetSession E C L (sealed_relay L Relaytype_SetSessionId d) st) (\<lambda>_ t. Q () t) ?s" for Q
    using assms(5) s(2)
    by (simp add: accept_def wp_def start link_msgs_def inbound_iter_def inbound_msg_def msg split: prod.split)
  with set show ?thesis by simp
qed

section \<open>Six nodes\<close>

record party =
  p_env :: "relay_state relay_env"
  p_cfg :: relay_cfg
  p_state :: relay_state

text \<open>
  One link: the first node opens the stream \<open>st\<close>, and the second reads from its end \<open>st'\<close> what the first
  wrote to it. \<open>None\<close> when \<open>NewSessionToPeer\<close> reports an error.
\<close>

definition link ::
  "'l crypto_lib_scheme \<Rightarrow> string \<Rightarrow> session_role \<Rightarrow> session_role \<Rightarrow> wn_stream \<times> wn_stream \<Rightarrow> party \<Rightarrow> party \<Rightarrow>
   (party \<times> party) option" where
  "link L sid r q w p p' =
     (let i = StreamId (fst w); s = p_state p
      in case run_state (NewSessionToPeer (p_env p) L (RemotePeer (fst w)) sid r q) s of
           (Some err, t) \<Rightarrow> None
         | (None, t) \<Rightarrow>
             (let bs = drop (length (wire i (tr s))) (wire i (tr t));
                  t' = snd (run_state (accept (p_env p') (p_cfg p') L (snd w) bs) (p_state p'))
              in Some (p\<lparr>p_state := t\<rparr>, p'\<lparr>p_state := t'\<rparr>)))"

definition ready_party :: "string \<Rightarrow> wn_stream list \<Rightarrow> party \<Rightarrow> bool" where
  "ready_party sid sts p =
     (steady (p_env p) sid (StreamId ` set sts) \<and> (\<forall>t i b. write_res (p_env p) t i b = None) \<and>
      list_all (\<lambda>st. \<not> closed (tr (p_state p)) (StreamId st)) sts)"

definition opens :: "wn_stream \<Rightarrow> party \<Rightarrow> bool" where
  "opens st p = (\<forall>t. open_res (p_env p) t (RemotePeer st) RelayProtocol = Inr st)"

definition sess_of :: "string \<Rightarrow> party \<Rightarrow> session option" where
  "sess_of sid p = sessionMap (p_state p) sid"

text \<open>What a link changes of what a circuit depends on.\<close>

lemma link_made:
  assumes "marshals (pb_Relay L)" and "marshals (pb_SetSessionIdMsg L)"
    and "ready_party sid sts p" and "ready_party sid sts' p'" and "fst w \<in> set sts" and "snd w \<in> set sts'"
    and "opens (fst w) p" and "q \<in> {EntryRole, JointRole, RelayRole, AnswerRole}"
    and "cfg_role (p_cfg p') = ClientMode \<longrightarrow> q = AnswerRole"
    and "\<And>sess. sess_of sid p' = Some sess \<Longrightarrow> Role sess \<noteq> EntryRole \<or> q \<noteq> RelayRole"
  shows "\<exists>P P'. link L sid r q w p p' = Some (P, P') \<and>
    sess_of sid P = Some (joined (fst w) sid r (sess_of sid p)) \<and>
    sess_of sid P' = Some (joined (snd w) sid q (sess_of sid p')) \<and>
    ready_party sid sts P \<and> ready_party sid sts' P' \<and>
    probeMap (p_state P') = probeMap (p_state p') \<and>
    p_env P = p_env p \<and> p_cfg P = p_cfg p \<and> p_env P' = p_env p' \<and> p_cfg P' = p_cfg p' \<and>
    ReqAck (link_ack L sid q) (RemotePeer (snd w)) \<in> set (ackMail (p_state P')) \<and>
    (cfg_role (p_cfg p') = ClientMode \<longrightarrow> circuitConnMap (p_state P') sid \<noteq> None)"
proof -
  let ?J = "StreamId ` set sts" and ?i = "StreamId (fst w)"
  obtain err t where run: "run_state (NewSessionToPeer (p_env p) L (RemotePeer (fst w)) sid r q) (p_state p) = (err, t)"
    by fastforce
  have "wp (NewSessionToPeer (p_env p) L (RemotePeer (fst w)) sid r q) (\<lambda>err t. err = None \<and>
     sessionMap t sid = Some (joined (fst w) sid r (sessionMap (p_state p) sid)) \<and>
     (\<forall>j\<in>?J. closed (tr t) j = closed (tr (p_state p)) j \<and>
        wire j (tr t) = wire j (tr (p_state p)) @ (if j = ?i then link_msgs L sid q else []))) (p_state p)"
    using assms(3,5,7) by (intro NewSessionToPeer_joins) (auto simp: ready_party_def opens_def)
  from wpD [OF this run] have opened: "err = None" "sessionMap t sid = Some (joined (fst w) sid r (sess_of sid p))"
      "\<And>st. st \<in> set sts \<Longrightarrow> closed (tr t) (StreamId st) = closed (tr (p_state p)) (StreamId st)"
      "wire ?i (tr t) = wire ?i (tr (p_state p)) @ link_msgs L sid q"
    using assms(5) by (auto simp: sess_of_def)
  let ?t = "snd (run_state (accept (p_env p') (p_cfg p') L (snd w) (link_msgs L sid q)) (p_state p'))"
  have "\<not> closed (tr (p_state p')) (StreamId (snd w))"
    using assms(4,6) by (auto simp: ready_party_def list_all_iff)
  from accept_joins [OF assms(1,2,8,9) this, where E = "p_env p'" and sid = sid] assms(10)
  have accepted: "tr ?t = tr (p_state p')" "probeMap ?t = probeMap (p_state p')" "sessionMap ?t sid = Some (joined (snd w) sid q (sess_of sid p'))"
      "ackMail ?t = ackMail (p_state p') @ [ReqAck (link_ack L sid q) (RemotePeer (snd w))]"
      "cfg_role (p_cfg p') = ClientMode \<longrightarrow> circuitConnMap ?t sid \<noteq> None"
    by (auto simp: wp_run sess_of_def)
  have "link L sid r q w p p' = Some (p\<lparr>p_state := t\<rparr>, p'\<lparr>p_state := ?t\<rparr>)"
    by (simp add: link_def run opened(1,4))
  moreover have "ready_party sid sts (p\<lparr>p_state := t\<rparr>)" "ready_party sid sts' (p'\<lparr>p_state := ?t\<rparr>)"
    using assms(3,4) opened(3) accepted(1) by (auto simp: ready_party_def list_all_iff)
  ultimately show ?thesis
    using opened(2) accepted(2-5) by (auto simp: sess_of_def)
qed

text \<open>
  The six nodes of a circuit and the two ends of each of its links, each named after its node and the
  node it leads to: caller, entry, joint, relay, exit, answerer.
\<close>

record nodes =
  n_caller :: party
  n_entry :: party
  n_joint :: party
  n_relay :: party
  n_exit :: party
  n_answer :: party

record route =
  ce :: wn_stream
  ec :: wn_stream
  ej :: wn_stream
  je :: wn_stream
  jr :: wn_stream
  rj :: wn_stream
  rx :: wn_stream
  xr :: wn_stream
  xa :: wn_stream
  ax :: wn_stream

text \<open>
  The links in the order in which the code makes them: \<open>NewCircuit\<close> on the caller, \<open>HandleNewCircuit\<close> on
  the entry, \<open>handleGossipMsg\<close> twice on the exit, and the command \<open>SessionExpend\<close> on the relay node.
\<close>

definition build_circuit :: "'l crypto_lib_scheme \<Rightarrow> string \<Rightarrow> route \<Rightarrow> nodes \<Rightarrow> nodes option" where
  "build_circuit L sid w n =
     Option.bind (link L sid CallerRole EntryRole (ce w, ec w) (n_caller n) (n_entry n)) (\<lambda>(c, e).
     Option.bind (link L sid EntryRole JointRole (ej w, je w) e (n_joint n)) (\<lambda>(e, j).
     Option.bind (link L sid ExitRole AnswerRole (xa w, ax w) (n_exit n) (n_answer n)) (\<lambda>(x, a).
     Option.bind (link L sid ExitRole RelayRole (xr w, rx w) x (n_relay n)) (\<lambda>(x, r).
     Option.bind (link L sid RelayRole JointRole (rj w, jr w) r j) (\<lambda>(r, j).
     Some \<lparr>n_caller = c, n_entry = e, n_joint = j, n_relay = r, n_exit = x, n_answer = a\<rparr>)))))"

definition hop_of :: "party \<Rightarrow> wn_stream \<Rightarrow> wn_stream \<Rightarrow> hop" where
  "hop_of p st st' = \<lparr>hop_env = p_env p, hop_cfg = p_cfg p, hop_state = p_state p, hop_in = st, hop_out = st'\<rparr>"

definition forward_hops :: "route \<Rightarrow> nodes \<Rightarrow> hop list" where
  "forward_hops w n = [hop_of (n_entry n) (ec w) (ej w), hop_of (n_joint n) (je w) (jr w),
     hop_of (n_relay n) (rj w) (rx w), hop_of (n_exit n) (xr w) (xa w)]"

definition backward_hops :: "route \<Rightarrow> nodes \<Rightarrow> hop list" where
  "backward_hops w n = [hop_of (n_exit n) (xa w) (xr w), hop_of (n_relay n) (rx w) (rj w),
     hop_of (n_joint n) (jr w) (je w), hop_of (n_entry n) (ej w) (ec w)]"

text \<open>
  The nodes before the circuit exists: none has its session; the four inner ones are servers; each
  opens the streams it has to when asked, and the ends of the streams at a node have two names.
\<close>

definition before_circuit :: "string \<Rightarrow> route \<Rightarrow> nodes \<Rightarrow> bool" where
  "before_circuit sid w n =
     (list_all (\<lambda>p. sess_of sid p = None) [n_caller n, n_entry n, n_joint n, n_relay n, n_exit n, n_answer n] \<and>
      list_all (\<lambda>p. cfg_role (p_cfg p) = ServerMode) [n_entry n, n_joint n, n_relay n, n_exit n] \<and>
      cfg_role (p_cfg (n_answer n)) = ClientMode \<and> probeMap (p_state (n_joint n)) sid = None \<and>
      ready_party sid [ce w] (n_caller n) \<and> ready_party sid [ec w, ej w] (n_entry n) \<and>
      ready_party sid [je w, jr w] (n_joint n) \<and> ready_party sid [rj w, rx w] (n_relay n) \<and>
      ready_party sid [xr w, xa w] (n_exit n) \<and> ready_party sid [ax w] (n_answer n) \<and>
      opens (ce w) (n_caller n) \<and> opens (ej w) (n_entry n) \<and> opens (xa w) (n_exit n) \<and> opens (xr w) (n_exit n) \<and>
      opens (rj w) (n_relay n) \<and>
      StreamId (ec w) \<noteq> StreamId (ej w) \<and> StreamId (je w) \<noteq> StreamId (jr w) \<and>
      StreamId (rj w) \<noteq> StreamId (rx w) \<and> StreamId (xr w) \<noteq> StreamId (xa w))"

lemma role_neq: "JointRole \<noteq> EntryRole"
  by (simp add: role_defs)

lemma joined_first [simp]: "joined st sid r None = \<lparr>sess_Id = sid, Pair = [st], Role = r\<rparr>"
  by (simp add: joined_def AddStream_def IsReady_def)

lemma joined_second [simp]:
  "joined st sid r (Some \<lparr>sess_Id = i, Pair = [st'], Role = q\<rparr>) = \<lparr>sess_Id = i, Pair = [st', st], Role = q\<rparr>"
  by (simp add: joined_def AddStream_def IsReady_def)

lemma joined_pair_hop:
  assumes "sess_of sid p = Some \<lparr>sess_Id = sid, Pair = [st, st'], Role = r\<rparr>" and "r \<notin> {CallerRole, AnswerRole}"
    and "StreamId st \<noteq> StreamId st'" and "ready_party sid sts p" and "{st, st'} \<subseteq> set sts"
  shows "hop_ok sid (hop_of p st st')" and "hop_ok sid (hop_of p st' st)"
  using assms by (auto simp: hop_ok_def hop_of_def sess_of_def GetPattern_pair ready_party_def list_all_iff)

section \<open>Completing a circuit\<close>

text \<open>
  What a node does with the messages of one stream: the inbound loop, then the goroutines it started
  for success messages. \<open>new_on\<close> is what a node wrote to a stream between two states.
\<close>

fun run_successes ::
  "('a relay_state_scheme, 'e) relay_env_scheme \<Rightarrow> relay_cfg \<Rightarrow> 'l crypto_lib_scheme \<Rightarrow> job list \<Rightarrow>
   ('a relay_state_scheme, unit outcome) state" where
  "run_successes E C L [] = ret (Returns ())"
| "run_successes E C L (SuccessJob r st d # js) =
     obind (handleCircuitSuccess E C L r st d) (\<lambda>_. run_successes E C L js)"
| "run_successes E C L (InboundJob st # js) = run_successes E C L js"

definition reads_all ::
  "('a relay_state_scheme, 'e) relay_env_scheme \<Rightarrow> relay_cfg \<Rightarrow> 'l crypto_lib_scheme \<Rightarrow> wn_stream \<Rightarrow> bytes list \<Rightarrow>
   ('a relay_state_scheme, unit outcome) state" where
  "reads_all E C L st bs = do {
     n \<leftarrow> gets (\<lambda>s. length (jobs s));
     RelayInboundHandler E C L st (map Inr bs);
     js \<leftarrow> gets jobs;
     modify (\<lambda>s. s\<lparr>jobs := take n js\<rparr>);
     run_successes E C L (drop n js)
   }"

definition feed :: "'l crypto_lib_scheme \<Rightarrow> wn_stream \<Rightarrow> bytes list \<Rightarrow> party \<Rightarrow> party" where
  "feed L st bs p = p\<lparr>p_state := snd (run_state (reads_all (p_env p) (p_cfg p) L st bs) (p_state p))\<rparr>"

definition send_probe :: "'l lib_scheme \<Rightarrow> string \<Rightarrow> party \<Rightarrow> party" where
  "send_probe L sid p =
     p\<lparr>p_state := snd (run_state (SendRelay (p_env p) L sid (fst (NewProbeSignal L sid))) (p_state p))\<rparr>"

definition new_on :: "wn_stream \<Rightarrow> party \<Rightarrow> party \<Rightarrow> bytes list" where
  "new_on st p p' = drop (length (wire (StreamId st) (tr (p_state p)))) (wire (StreamId st) (tr (p_state p')))"

text \<open>
  The entry and the exit send their probes, as \<open>announce_circuit\<close> and \<open>finish_exit\<close> do; the joint node
  reads the one from the entry and the one that the relay node passed on. The result is what then
  arrives at the caller and at the answerer.
\<close>

definition complete_circuit :: "'l crypto_lib_scheme \<Rightarrow> string \<Rightarrow> route \<Rightarrow> nodes \<Rightarrow> bytes list \<times> bytes list" where
  "complete_circuit L sid w n =
     (let e = send_probe L sid (n_entry n);
          x = send_probe L sid (n_exit n);
          r = feed L (rx w) (new_on (xr w) (n_exit n) x) (n_relay n);
          j' = feed L (je w) (new_on (ej w) (n_entry n) e) (n_joint n);
          j = feed L (jr w) (new_on (rj w) (n_relay n) r) j';
          e' = feed L (ej w) (new_on (je w) (n_joint n) j) e;
          r' = feed L (rj w) (new_on (jr w) (n_joint n) j) r;
          x' = feed L (xr w) (new_on (rx w) r r') x
      in (new_on (ec w) e e', new_on (xa w) x x'))"

text \<open>A node that only wrote to some of its streams.\<close>

definition wrote :: "wn_stream list \<Rightarrow> bytes \<Rightarrow> party \<Rightarrow> party" where
  "wrote sts b p = p\<lparr>p_state := (p_state p)\<lparr>tr := tr (p_state p) @ map (\<lambda>st. EWrite (StreamId st) b) sts\<rparr>\<rparr>"

lemma wrote_simps [simp]:
  "sess_of sid (wrote sts b p) = sess_of sid p" "p_env (wrote sts b p) = p_env p" "p_cfg (wrote sts b p) = p_cfg p"
  "ready_party sid ss (wrote sts b p) = ready_party sid ss p"
  "probeMap (p_state (wrote sts b p)) = probeMap (p_state p)"
  by (auto simp: wrote_def sess_of_def ready_party_def closed_def list_all_iff)

lemma wire_map_writes:
  "wire i (t @ map (\<lambda>st. EWrite (StreamId st) b) sts) = wire i t @ replicate (length (filter (\<lambda>st. StreamId st = i) sts)) b"
  by (induction sts arbitrary: t) (simp_all add: wire_def)

lemma new_on_wrote [simp]:
  "new_on st p (wrote sts b p) = replicate (length (filter (\<lambda>x. StreamId x = StreamId st) sts)) b"
  by (simp add: new_on_def wrote_def wire_map_writes)

lemma wire_tr: "wire i (tr (p_state (wrote sts b p))) =
    wire i (tr (p_state p)) @ replicate (length (filter (\<lambda>st. StreamId st = i) sts)) b"
  by (simp add: wrote_def wire_map_writes)

text \<open>The two messages.\<close>

lemma marshals_read: "marshals c \<Longrightarrow> Marshal c m = (fst (Marshal c m), None)"
    "marshals c \<Longrightarrow> Unmarshal c (fst (Marshal c m)) = (m, None)"
  unfolding marshals_def codec_ok_def by (metis prod.collapse)+

lemma probe_read:
  assumes "marshals (pb_Relay L)" and "marshals (pb_ProbeSignal L)"
  obtains d where "Unmarshal (pb_Relay L) (fst (NewProbeSignal L sid)) = (sealed_relay L Relaytype_Probe d, None)"
    and "Unmarshal (pb_ProbeSignal L) d = (\<lparr>ps_SessionId = sid, ps_Data = Sum256 L (str_bytes sid)\<rparr>, None)"
proof -
  obtain d where d: "Marshal (pb_ProbeSignal L) \<lparr>ps_SessionId = sid, ps_Data = Sum256 L (str_bytes sid)\<rparr> = (d, None)"
    using marshals_read(1) [OF assms(2)] by blast
  obtain b where b: "Marshal (pb_Relay L) (sealed_relay L Relaytype_Probe d) = (b, None)"
    using marshals_read(1) [OF assms(1)] by blast
  have "NewProbeSignal L sid = (b, None)" by (simp add: NewProbeSignal_def d b)
  then show thesis
    using that [of d] assms codec_okD [OF _ d] codec_okD [OF _ b] by (simp add: marshals_def)
qed

lemma success_read:
  assumes "marshals (pb_Relay L)" and "marshals (pb_CircuitSuccess L)"
  obtains d where "Unmarshal (pb_Relay L) (NewCircuitSuccess L sid) = (sealed_relay L Relaytype_Success d, None)"
    and "Unmarshal (pb_CircuitSuccess L) d = (\<lparr>cs_SessionId = sid\<rparr>, None)"
  using that marshals_read(2) [OF assms(2)] marshals_read(2) [OF assms(1)] by (simp add: NewCircuitSuccess_def Let_def)

text \<open>What the four inner nodes do with them.\<close>

lemma SendRelay_writes:
  assumes "sess_of sid p = Some sess" and "Pair sess \<noteq> []" and "ready_party sid sts p"
  shows "p\<lparr>p_state := snd (run_state (SendRelay (p_env p) L sid b) (p_state p))\<rparr> = wrote (Pair sess) b p"
proof -
  have "\<And>t i d. write_res (p_env p) t i d = None" using assms(3) by (simp add: ready_party_def)
  then have all: "run_state (send_pair (p_env p) b ps) u = (None, u\<lparr>tr := tr u @ map (\<lambda>st. EWrite (StreamId st) b) ps\<rparr>)"
    for ps and u :: relay_state by (induction ps arbitrary: u) (simp_all add: WriteMsg_def emit_def)
  show ?thesis
    using assms(1,2) by (simp add: SendRelay_def GetSession_def GetPair_def sess_of_def all close_on_error_def wrote_def)
qed

lemma send_probe_writes:
  "sess_of sid p = Some sess \<Longrightarrow> Pair sess \<noteq> [] \<Longrightarrow> ready_party sid sts p \<Longrightarrow>
   send_probe L sid p = wrote (Pair sess) (fst (NewProbeSignal L sid)) p"
  unfolding send_probe_def by (rule SendRelay_writes)

lemma feed_one:
  assumes "\<not> closed (tr (p_state p)) (StreamId st)"
    and "run_state (inbound_msg (p_env p) (p_cfg p) L st b) (p_state p) = ((), t)" and "jobs t = jobs (p_state p)"
  shows "feed L st [b] p = p\<lparr>p_state := t\<rparr>"
  using assms by (simp add: feed_def reads_all_def inbound_iter_def)

lemma feed_probe:
  assumes "marshals (pb_Relay L)" and "marshals (pb_ProbeSignal L)" and "ready_party sid sts p" and "st \<in> set sts"
    and "sess_of sid p = Some sess" and "Role sess \<noteq> JointRole" and "GetPattern sess (StreamId st) = Inr q"
  shows "feed L st [fst (NewProbeSignal L sid)] p = wrote [q] (fst (NewProbeSignal L sid)) p"
proof -
  obtain d where d: "Unmarshal (pb_Relay L) (fst (NewProbeSignal L sid)) = (sealed_relay L Relaytype_Probe d, None)"
      "Unmarshal (pb_ProbeSignal L) d = (\<lparr>ps_SessionId = sid, ps_Data = Sum256 L (str_bytes sid)\<rparr>, None)"
    using probe_read [OF assms(1,2)] .
  have "run_state (inbound_msg (p_env p) (p_cfg p) L st (fst (NewProbeSignal L sid))) (p_state p) =
      ((), (p_state p)\<lparr>tr := tr (p_state p) @ [EWrite (StreamId q) (fst (NewProbeSignal L sid))]\<rparr>)"
    using assms(3,5-7) GetPattern_member [OF assms(7)]
    by (simp add: inbound_msg_def d handleRelayProbe_def GetSession_def sess_of_def forward_to_partner_def
        WriteMsg_def emit_def ready_party_def)
  then show ?thesis
    using assms(3,4) by (subst feed_one) (auto simp: ready_party_def list_all_iff wrote_def)
qed

lemma feed_success:
  assumes "marshals (pb_Relay L)" and "marshals (pb_CircuitSuccess L)" and "ready_party sid sts p" and "st \<in> set sts"
    and "sess_of sid p = Some sess" and "Role sess \<notin> {CallerRole, AnswerRole}" and "GetPattern sess (StreamId st) = Inr q"
  shows "feed L st [NewCircuitSuccess L sid] p = wrote [q] (NewCircuitSuccess L sid) p"
proof -
  obtain d where d: "Unmarshal (pb_Relay L) (NewCircuitSuccess L sid) = (sealed_relay L Relaytype_Success d, None)"
      "Unmarshal (pb_CircuitSuccess L) d = (\<lparr>cs_SessionId = sid\<rparr>, None)"
    using success_read [OF assms(1,2)] .
  have "\<not> closed (tr (p_state p)) (StreamId st)" "\<And>t i b. write_res (p_env p) t i b = None"
    using assms(3,4) by (auto simp: ready_party_def list_all_iff)
  then show ?thesis
    using assms(5-7) GetPattern_member [OF assms(7)]
    by (cases "p_state p") (simp add: feed_def reads_all_def inbound_iter_def inbound_msg_def d spawn_def handleCircuitSuccess_def
        GetSession_def sess_of_def forward_to_partner_def WriteMsg_def emit_def wrote_def obind_def)
qed

text \<open>The joint node keeps the first probe and answers the second on both streams.\<close>

definition probed :: "'l lib_scheme \<Rightarrow> string \<Rightarrow> party \<Rightarrow> party" where
  "probed L sid p = p\<lparr>p_state := (p_state p)\<lparr>probeMap := (probeMap (p_state p))
     (sid \<mapsto> \<lparr>probe_SessionId = sid, probe_Rand = Sum256 L (str_bytes sid)\<rparr>)\<rparr>\<rparr>"

lemma probed_simps [simp]:
  "sess_of i (probed L sid p) = sess_of i p" "ready_party i ss (probed L sid p) = ready_party i ss p"
  "tr (p_state (probed L sid p)) = tr (p_state p)" "p_env (probed L sid p) = p_env p"
  "probeMap (p_state (probed L sid p)) sid = Some \<lparr>probe_SessionId = sid, probe_Rand = Sum256 L (str_bytes sid)\<rparr>"
  by (simp_all add: probed_def sess_of_def ready_party_def)

lemma new_on_probed [simp]: "new_on st p (wrote sts b (probed L sid p)) = new_on st p (wrote sts b p)"
  by (simp add: new_on_def wire_tr)

lemma feed_joint:
  assumes "marshals (pb_Relay L)" and "marshals (pb_ProbeSignal L)" and "ready_party sid sts p"
    and "st \<in> set sts" and "st' \<in> set sts" and "sess_of sid p = Some sess" and "Role sess = JointRole"
    and "Pair sess \<noteq> []" and "probeMap (p_state p) sid = None"
  shows "feed L st' [fst (NewProbeSignal L sid)] (feed L st [fst (NewProbeSignal L sid)] p) =
    wrote (Pair sess) (NewCircuitSuccess L sid) (probed L sid p)"
proof -
  obtain d where d: "Unmarshal (pb_Relay L) (fst (NewProbeSignal L sid)) = (sealed_relay L Relaytype_Probe d, None)"
      "Unmarshal (pb_ProbeSignal L) d = (\<lparr>ps_SessionId = sid, ps_Data = Sum256 L (str_bytes sid)\<rparr>, None)"
    using probe_read [OF assms(1,2)] .
  have open': "\<not> closed (tr (p_state p)) (StreamId st)" "\<not> closed (tr (p_state p)) (StreamId st')"
    using assms(3-5) by (auto simp: ready_party_def list_all_iff)
  have first: "feed L st [fst (NewProbeSignal L sid)] p = probed L sid p"
    using assms(6,7,9) open'
    by (subst feed_one) (auto simp: inbound_msg_def d handleRelayProbe_def GetSession_def sess_of_def store_probe_def
        Let_def probed_def)
  let ?s = "p_state (probed L sid p)"
  have send: "probed L sid p\<lparr>p_state := snd (run_state (SendRelay (p_env p) L sid (NewCircuitSuccess L sid)) ?s)\<rparr> =
      wrote (Pair sess) (NewCircuitSuccess L sid) (probed L sid p)"
    using SendRelay_writes [of sid "probed L sid p" sess sts L] assms(3,6,8) by simp
  have "run_state (inbound_msg (p_env (probed L sid p)) (p_cfg (probed L sid p)) L st' (fst (NewProbeSignal L sid))) ?s =
      ((), snd (run_state (SendRelay (p_env p) L sid (NewCircuitSuccess L sid)) ?s))"
    using assms(6,7) by (simp add: inbound_msg_def d handleRelayProbe_def GetSession_def Let_def sess_of_def probed_def
        split: prod.split)
  moreover have "jobs (snd (run_state (SendRelay (p_env p) L sid (NewCircuitSuccess L sid)) ?s)) = jobs ?s"
    using arg_cong [OF send, of "\<lambda>p. jobs (p_state p)"] by (simp add: wrote_def)
  ultimately show ?thesis
    unfolding first send [symmetric] using open' by (intro feed_one) simp_all
qed

text \<open>At an end of the circuit the success message starts the handshake.\<close>

lemma feed_end:
  assumes "marshals (pb_Relay L)" and "marshals (pb_CircuitSuccess L)" and "ready_party sid sts p" and "st \<in> set sts"
    and "sess_of sid p = Some sess" and "Role sess \<in> {CallerRole, AnswerRole}" and "circuitConnMap (p_state p) sid = Some a"
  shows "feed L st [NewCircuitSuccess L sid] p = p\<lparr>p_state := snd (run_state (do {
      make_ready sid a;
      (if Role sess = CallerRole then NewSecureConnCaller (p_env p) (p_cfg p) L a
       else NewSecureConnAnswer (p_env p) (p_cfg p) L a)
    }) (p_state p))\<rparr>"
proof -
  obtain d where d: "Unmarshal (pb_Relay L) (NewCircuitSuccess L sid) = (sealed_relay L Relaytype_Success d, None)"
      "Unmarshal (pb_CircuitSuccess L) d = (\<lparr>cs_SessionId = sid\<rparr>, None)"
    using success_read [OF assms(1,2)] .
  have "\<not> closed (tr (p_state p)) (StreamId st)"
    using assms(3,4) by (auto simp: ready_party_def list_all_iff)
  moreover have "p_state p\<lparr>jobs := jobs (p_state p)\<rparr> = p_state p" by simp
  ultimately show ?thesis
    using assms(5-7)
    by (auto simp: feed_def reads_all_def inbound_iter_def inbound_msg_def d spawn_def handleCircuitSuccess_def
        GetSession_def sess_of_def obind_def role_defs split: prod.split outcome.split)
qed

section \<open>Properties\<close>

text \<open>A circuit that is put together: what each node knows of it.\<close>

definition circuit_up :: "string \<Rightarrow> route \<Rightarrow> nodes \<Rightarrow> bool" where
  "circuit_up sid w n =
     (sess_of sid (n_caller n) = Some \<lparr>sess_Id = sid, Pair = [ce w], Role = CallerRole\<rparr> \<and>
      sess_of sid (n_entry n) = Some \<lparr>sess_Id = sid, Pair = [ec w, ej w], Role = EntryRole\<rparr> \<and>
      sess_of sid (n_joint n) = Some \<lparr>sess_Id = sid, Pair = [je w, jr w], Role = JointRole\<rparr> \<and>
      sess_of sid (n_relay n) = Some \<lparr>sess_Id = sid, Pair = [rx w, rj w], Role = RelayRole\<rparr> \<and>
      sess_of sid (n_exit n) = Some \<lparr>sess_Id = sid, Pair = [xa w, xr w], Role = ExitRole\<rparr> \<and>
      sess_of sid (n_answer n) = Some \<lparr>sess_Id = sid, Pair = [ax w], Role = AnswerRole\<rparr> \<and>
      ready_party sid [ce w] (n_caller n) \<and> ready_party sid [ec w, ej w] (n_entry n) \<and>
      ready_party sid [je w, jr w] (n_joint n) \<and> ready_party sid [rj w, rx w] (n_relay n) \<and>
      ready_party sid [xr w, xa w] (n_exit n) \<and> ready_party sid [ax w] (n_answer n) \<and>
      circuitConnMap (p_state (n_answer n)) sid \<noteq> None \<and> probeMap (p_state (n_joint n)) sid = None \<and>
      StreamId (ec w) \<noteq> StreamId (ej w) \<and> StreamId (je w) \<noteq> StreamId (jr w) \<and>
      StreamId (rj w) \<noteq> StreamId (rx w) \<and> StreamId (xr w) \<noteq> StreamId (xa w))"

lemma circuit_up_hops: "circuit_up sid w n \<Longrightarrow> list_all (hop_ok sid) (forward_hops w n @ backward_hops w n)"
  unfolding circuit_up_def
  using joined_pair_hop [of sid "n_entry n" "ec w" "ej w" EntryRole "[ec w, ej w]"]
    joined_pair_hop [of sid "n_joint n" "je w" "jr w" JointRole "[je w, jr w]"]
    joined_pair_hop [of sid "n_relay n" "rx w" "rj w" RelayRole "[rj w, rx w]"]
    joined_pair_hop [of sid "n_exit n" "xa w" "xr w" ExitRole "[xr w, xa w]"]
  by (auto simp: forward_hops_def backward_hops_def role_defs)

text \<open>
  C4: the links the code makes put a circuit together. From six nodes that do not know the session,
  when acknowledgements come and are positive, the five links succeed; afterwards each of the four
  nodes in between has a session that pairs its two streams, the ends have one stream each and the
  answerer a circuit connection, and whatever data one end writes passes the four nodes unchanged,
  in either direction.
\<close>

theorem circuit_built:
  assumes "marshals (pb_Relay L)" and "marshals (pb_SetSessionIdMsg L)" and "before_circuit sid w n"
  shows "\<exists>m. build_circuit L sid w n = Some m \<and>
    circuit_up sid w m \<and> list_all (hop_ok sid) (forward_hops w m @ backward_hops w m) \<and>
    (\<forall>bs. list_all (data_msg L sid) bs \<longrightarrow>
       fold (passed_on L) (forward_hops w m) bs = bs \<and> fold (passed_on L) (backward_hops w m) bs = bs)"
proof -
  note made = link_made [OF assms(1,2)]
  note b = assms(3) [unfolded before_circuit_def]
  obtain c e where 1: "link L sid CallerRole EntryRole (ce w, ec w) (n_caller n) (n_entry n) = Some (c, e)"
      "sess_of sid c = Some \<lparr>sess_Id = sid, Pair = [ce w], Role = CallerRole\<rparr>"
      "sess_of sid e = Some \<lparr>sess_Id = sid, Pair = [ec w], Role = EntryRole\<rparr>"
      "ready_party sid [ce w] c" "ready_party sid [ec w, ej w] e" "p_env e = p_env (n_entry n)"
    using made [of sid "[ce w]" "n_caller n" "[ec w, ej w]" "n_entry n" "(ce w, ec w)" EntryRole CallerRole] b by auto
  obtain E j where 2: "link L sid EntryRole JointRole (ej w, je w) e (n_joint n) = Some (E, j)"
      "sess_of sid E = Some \<lparr>sess_Id = sid, Pair = [ec w, ej w], Role = EntryRole\<rparr>"
      "sess_of sid j = Some \<lparr>sess_Id = sid, Pair = [je w], Role = JointRole\<rparr>"
      "ready_party sid [ec w, ej w] E" "ready_party sid [je w, jr w] j" "p_cfg j = p_cfg (n_joint n)"
      "probeMap (p_state j) = probeMap (p_state (n_joint n))"
    using made [of sid "[ec w, ej w]" e "[je w, jr w]" "n_joint n" "(ej w, je w)" JointRole EntryRole] b 1
    by (auto simp: opens_def)
  obtain x a where 3: "link L sid ExitRole AnswerRole (xa w, ax w) (n_exit n) (n_answer n) = Some (x, a)"
      "sess_of sid x = Some \<lparr>sess_Id = sid, Pair = [xa w], Role = ExitRole\<rparr>"
      "sess_of sid a = Some \<lparr>sess_Id = sid, Pair = [ax w], Role = AnswerRole\<rparr>"
      "ready_party sid [xr w, xa w] x" "ready_party sid [ax w] a" "p_env x = p_env (n_exit n)" "circuitConnMap (p_state a) sid \<noteq> None"
    using made [of sid "[xr w, xa w]" "n_exit n" "[ax w]" "n_answer n" "(xa w, ax w)" AnswerRole ExitRole] b by auto
  obtain X r where 4: "link L sid ExitRole RelayRole (xr w, rx w) x (n_relay n) = Some (X, r)"
      "sess_of sid X = Some \<lparr>sess_Id = sid, Pair = [xa w, xr w], Role = ExitRole\<rparr>"
      "sess_of sid r = Some \<lparr>sess_Id = sid, Pair = [rx w], Role = RelayRole\<rparr>"
      "ready_party sid [xr w, xa w] X" "ready_party sid [rj w, rx w] r" "p_env r = p_env (n_relay n)"
    using made [of sid "[xr w, xa w]" x "[rj w, rx w]" "n_relay n" "(xr w, rx w)" RelayRole ExitRole] b 3
    by (auto simp: opens_def)
  obtain R J where 5: "link L sid RelayRole JointRole (rj w, jr w) r j = Some (R, J)"
      "sess_of sid R = Some \<lparr>sess_Id = sid, Pair = [rx w, rj w], Role = RelayRole\<rparr>"
      "sess_of sid J = Some \<lparr>sess_Id = sid, Pair = [je w, jr w], Role = JointRole\<rparr>"
      "ready_party sid [rj w, rx w] R" "ready_party sid [je w, jr w] J" "probeMap (p_state J) = probeMap (p_state j)"
    using made [of sid "[rj w, rx w]" r "[je w, jr w]" j "(rj w, jr w)" JointRole RelayRole] b 2 4
    by (auto simp: opens_def role_neq)
  let ?m = "\<lparr>n_caller = c, n_entry = E, n_joint = J, n_relay = R, n_exit = X, n_answer = a\<rparr>"
  have "build_circuit L sid w n = Some ?m"
    by (simp add: build_circuit_def 1(1) 2(1) 3(1) 4(1) 5(1))
  moreover have up: "circuit_up sid w ?m"
    using b 1 2 3 4 5 by (simp add: circuit_up_def)
  have hops: "list_all (hop_ok sid) (forward_hops w ?m)" "list_all (hop_ok sid) (backward_hops w ?m)"
    using circuit_up_hops [OF up] by simp_all
  ultimately show ?thesis
    using up fold_passed_on [OF hops(1), of L] fold_passed_on [OF hops(2), of L] by (intro exI [of _ ?m]) simp
qed

text \<open>
  C5: a circuit that is put together completes. When the entry and the exit send their probes, the
  joint node answers both sides, and what arrives at the caller and at the answerer is the success
  message and nothing else of the joint node's; reading it, each end marks its connection as ready
  and starts its half of the handshake.
\<close>

theorem circuit_completed:
  assumes "marshals (pb_Relay L)" and "marshals (pb_ProbeSignal L)" and "marshals (pb_CircuitSuccess L)"
    and "circuit_up sid w n" and "circuitConnMap (p_state (n_caller n)) sid = Some a"
    and "circuitConnMap (p_state (n_answer n)) sid = Some b"
  shows "complete_circuit L sid w n = ([NewCircuitSuccess L sid], [NewCircuitSuccess L sid]) \<and>
    p_state (feed L (ce w) [NewCircuitSuccess L sid] (n_caller n)) =
      snd (run_state (do { make_ready sid a; NewSecureConnCaller (p_env (n_caller n)) (p_cfg (n_caller n)) L a })
        (p_state (n_caller n))) \<and>
    p_state (feed L (ax w) [NewCircuitSuccess L sid] (n_answer n)) =
      snd (run_state (do { make_ready sid b; NewSecureConnAnswer (p_env (n_answer n)) (p_cfg (n_answer n)) L b })
        (p_state (n_answer n)))"
proof -
  let ?pr = "fst (NewProbeSignal L sid)" and ?su = "NewCircuitSuccess L sid"
  note u = assms(4) [unfolded circuit_up_def]
  let ?e = "wrote [ec w, ej w] ?pr (n_entry n)" and ?x = "wrote [xa w, xr w] ?pr (n_exit n)"
    and ?r = "wrote [rj w] ?pr (n_relay n)" and ?j = "wrote [je w, jr w] ?su (probed L sid (n_joint n))"
  have distinct: "StreamId (ec w) \<noteq> StreamId (ej w)" "StreamId (je w) \<noteq> StreamId (jr w)"
      "StreamId (rj w) \<noteq> StreamId (rx w)" "StreamId (xr w) \<noteq> StreamId (xa w)"
    using u by simp_all
  have probes: "send_probe L sid (n_entry n) = ?e" "send_probe L sid (n_exit n) = ?x"
    using u send_probe_writes [of sid "n_entry n" _ _ L] send_probe_writes [of sid "n_exit n" _ _ L] by force+
  have r: "feed L (rx w) [?pr] (n_relay n) = ?r"
    using u by (intro feed_probe [OF assms(1,2)]) (auto simp: GetPattern_pair role_defs)
  have j: "feed L (jr w) [?pr] (feed L (je w) [?pr] (n_joint n)) = ?j"
    using u by (subst feed_joint [OF assms(1,2)]) auto
  have e': "feed L (ej w) [?su] ?e = wrote [ec w] ?su ?e"
    using u by (intro feed_success [OF assms(1,3)]) (auto simp: GetPattern_pair role_defs)
  have r': "feed L (rj w) [?su] ?r = wrote [rx w] ?su ?r"
    using u by (intro feed_success [OF assms(1,3)]) (auto simp: GetPattern_pair role_defs)
  have x': "feed L (xr w) [?su] ?x = wrote [xa w] ?su ?x"
    using u by (intro feed_success [OF assms(1,3)]) (auto simp: GetPattern_pair role_defs)
  have "complete_circuit L sid w n = ([?su], [?su])"
    using distinct distinct [THEN not_sym] by (simp add: complete_circuit_def Let_def probes r j e' r' x')
  moreover have "p_state (feed L (ce w) [?su] (n_caller n)) =
      snd (run_state (do { make_ready sid a; NewSecureConnCaller (p_env (n_caller n)) (p_cfg (n_caller n)) L a })
        (p_state (n_caller n)))"
    using u by (subst feed_end [OF assms(1,3) _ _ _ _ assms(5)]) auto
  moreover have "p_state (feed L (ax w) [?su] (n_answer n)) =
      snd (run_state (do { make_ready sid b; NewSecureConnAnswer (p_env (n_answer n)) (p_cfg (n_answer n)) L b })
        (p_state (n_answer n)))"
    using u by (subst feed_end [OF assms(1,3) _ _ _ _ assms(6)]) (auto simp: role_defs)
  ultimately show ?thesis by blast
qed

end
