(* ===== verification/WN_Demo.thy ===== *)
theory WN_Demo
  imports WN_Actors WN_Handshake WN_Store WN_Circuit
begin

text \<open>
  An instance of the third-party interface and of the environment, to show that what the theorems
  suppose of them can hold: self-delimiting encodings for the messages that have to be read back,
  encodings with a fixed answer for the others, a cipher that appends an empty tag, keys that
  serialise as themselves, and a network on which every call succeeds.
\<close>

section \<open>Encodings\<close>

definition put_bytes :: "bytes \<Rightarrow> bytes" where
  "put_bytes xs = concat (map (\<lambda>x. [1, x]) xs) @ [0]"

fun get_bytes :: "bytes \<Rightarrow> bytes \<times> bytes" where
  "get_bytes (t # x # r) =
     (if t = 0 then ([], x # r) else (case get_bytes r of (xs, rest) \<Rightarrow> (x # xs, rest)))"
| "get_bytes [t] = ([], [])"
| "get_bytes [] = ([], [])"

lemma get_put_bytes [simp]: "get_bytes (put_bytes xs @ r) = (xs, r)"
proof (induction xs)
  case Nil
  then show ?case by (cases r) (simp_all add: put_bytes_def)
qed (simp add: put_bytes_def)

definition put_string :: "string \<Rightarrow> bytes" where
  "put_string s = put_bytes (str_bytes s)"

definition get_string :: "bytes \<Rightarrow> string \<times> bytes" where
  "get_string b = (case get_bytes b of (x, r) \<Rightarrow> (bytes_str x, r))"

lemma get_put_string [simp]: "get_string (put_string s @ r) = (s, r)"
  by (simp add: get_string_def put_string_def)

lemma get_put_string_end [simp]: "get_string (put_string s) = (s, [])"
  using get_put_string [of s "[]"] by simp

definition put_word :: "32 word \<Rightarrow> bytes" where
  "put_word w = PutUint32 w"

definition get_word :: "bytes \<Rightarrow> 32 word \<times> bytes" where
  "get_word b = (Uint32 (take 4 b), drop 4 b)"

lemma get_put_word [simp]: "get_word (put_word w @ r) = (w, r)"
  by (simp add: get_word_def put_word_def)

fun put_type :: "relaytype \<Rightarrow> bytes" where
  "put_type Relaytype_SetSessionId = [0]"
| "put_type Relaytype_Ack = [1]"
| "put_type Relaytype_Data = [2]"
| "put_type Relaytype_Disconnect = [3]"
| "put_type Relaytype_Wake = [4]"
| "put_type Relaytype_Probe = [5]"
| "put_type Relaytype_Success = [6]"
| "put_type (Relaytype_other w) = 7 # put_word w"

definition get_type :: "bytes \<Rightarrow> relaytype \<times> bytes" where
  "get_type b =
     (let t = hd b; r = tl b
      in if t = 0 then (Relaytype_SetSessionId, r) else if t = 1 then (Relaytype_Ack, r)
         else if t = 2 then (Relaytype_Data, r) else if t = 3 then (Relaytype_Disconnect, r)
         else if t = 4 then (Relaytype_Wake, r) else if t = 5 then (Relaytype_Probe, r)
         else if t = 6 then (Relaytype_Success, r)
         else (case get_word r of (w, r') \<Rightarrow> (Relaytype_other w, r')))"

lemma get_put_type [simp]: "get_type (put_type t @ r) = (t, r)"
  by (cases t) (simp_all add: get_type_def)

definition relay_codec :: "relay codec" where
  "relay_codec = \<lparr>Marshal = (\<lambda>m. (put_type (relay_Type m) @ put_string (relay_Id m) @ relay_Data m, None)),
     Unmarshal = (\<lambda>b. case get_type b of (t, r) \<Rightarrow> (case get_string r of (i, d) \<Rightarrow>
       (\<lparr>relay_Id = i, relay_Type = t, relay_Data = d\<rparr>, None)))\<rparr>"

definition relay_msg_codec :: "relay_msg codec" where
  "relay_msg_codec = \<lparr>Marshal = (\<lambda>m. (put_string (rm_SessionId m) @ rm_Data m, None)),
     Unmarshal = (\<lambda>b. case get_string b of (i, d) \<Rightarrow> (\<lparr>rm_SessionId = i, rm_Data = d\<rparr>, None))\<rparr>"

definition account_codec :: "pb_account codec" where
  "account_codec = \<lparr>Marshal = (\<lambda>m. (put_word (pba_Type m) @ put_bytes (pba_PrivateKey m) @ pba_PublicKey m, None)),
     Unmarshal = (\<lambda>b. case get_word b of (t, r) \<Rightarrow> (case get_bytes r of (k, p) \<Rightarrow>
       (\<lparr>pba_Type = t, pba_PrivateKey = k, pba_PublicKey = p\<rparr>, None)))\<rparr>"

lemma codecs_marshal [simp]:
  "marshals relay_codec" "marshals relay_msg_codec" "marshals account_codec"
  by (simp_all add: marshals_def codec_ok_def relay_codec_def relay_msg_codec_def account_codec_def)

text \<open>An encoding that writes nothing and always reads the same message.\<close>

definition fixed :: "'m \<Rightarrow> 'm codec" where
  "fixed m = \<lparr>Marshal = (\<lambda>_. ([], None)), Unmarshal = (\<lambda>_. (m, None))\<rparr>"

lemma fixed_simps [simp]: "Marshal (fixed m) x = ([], None)" "Unmarshal (fixed m) b = (m, None)"
  by (simp_all add: fixed_def)

section \<open>Libraries\<close>

definition demo_lib :: crypto_lib where
  "demo_lib = \<lparr>Sum256 = (\<lambda>b. b), base58_Encode = bytes_str, base58_Decode = (\<lambda>s. Inr (str_bytes s)),
     peer_String = (\<lambda>p. p), peer_Decode = (\<lambda>s. (s, None)), ParseDuration = (\<lambda>_. (0, None)),
     pb_Relay = relay_codec,
     pb_SetSessionIdMsg = fixed \<lparr>ssm_SessionId = ''sid'', ssm_Role = 3\<rparr>,
     pb_RelayMsg = relay_msg_codec,
     pb_ProbeSignal = fixed \<lparr>ps_SessionId = ''sid'', ps_Data = []\<rparr>,
     pb_Disconnect = fixed \<lparr>dis_SessionId = ''sid'', dis_ErrCode = 0\<rparr>,
     pb_CircuitSuccess = fixed \<lparr>cs_SessionId = ''sid''\<rparr>,
     pb_Ack = fixed \<lparr>ack_CommandId = ''cmd'', ack_Result = True, ack_Data = []\<rparr>,
     pb_Request = fixed \<lparr>req_ReqId = ''req'', req_From = ''p'', req_Reqtype = Reqtype_NewProxy, req_Data = []\<rparr>,
     pb_NewCircuit = fixed \<lparr>nc_From = ''from'', nc_To = ''to'', nc_SessionId = ''sid''\<rparr>,
     pb_NewProxy = fixed \<lparr>np_Time = '''', np_WhiteNoiseID = ''''\<rparr>,
     pb_Decrypt = fixed \<lparr>dec_Destination = '''', dec_Cypher = []\<rparr>,
     pb_UnRegister = fixed \<lparr>ur_SessionID = []\<rparr>,
     pb_NegPlaintext = fixed \<lparr>npl_SessionId = ''sid'', npl_Neg = []\<rparr>,
     pb_MainNetPeers = fixed \<lparr>mnp_Max = 1\<rparr>, pb_PeersList = fixed \<lparr>pl_Peers = []\<rparr>,
     pb_Command = fixed \<lparr>cmd_CommandId = ''cmd'', cmd_Type = Cmdtype_SessionExPend, cmd_From = ''p'', cmd_Data = []\<rparr>,
     pb_SessionExpend = fixed \<lparr>se_SessionId = ''sid'', se_PeerId = ''p''\<rparr>,
     pb_Negotiate = fixed \<lparr>neg_Join = ''j'', neg_SessionId = ''sid'', neg_Destination = ''to'', neg_Sig = []\<rparr>,
     pb_EncryptedNeg = fixed \<lparr>en_Des = ''to'', en_Cypher = []\<rparr>,
     pb_NoisePayload = fixed \<lparr>nhp_IdentityKey = [], nhp_IdentitySig = [], nhp_Data = []\<rparr>,
     pb_Account = account_codec,
     cs_Encrypt = (\<lambda>cs p. (p @ replicate 16 0, cs)),
     cs_Decrypt = (\<lambda>cs c. (Inr (take (length c - 16) c), cs)),
     NewHandshakeState = (\<lambda>_ _. Inr []),
     hs_WriteMessage = (\<lambda>hs _. (Inr ([], None), hs)), hs_ReadMessage = (\<lambda>hs _. (Inr ([], None), hs)),
     hs_PeerStatic = (\<lambda>_. []), priv_GetPublic = (\<lambda>k. k), priv_Sign = (\<lambda>_ _. Inr []),
     pub_Bytes = (\<lambda>k. Inr k), UnmarshalPublicKey = (\<lambda>b. Inr b), IDFromPublicKey = (\<lambda>_. Inr ''p''),
     pub_Verify = (\<lambda>_ _ _. Inr True),
     ed_GenerateKey = (\<lambda>b. Inr (b, b)), ed_Public = (\<lambda>k. k), Sum512 = (\<lambda>b. b),
     kyber_Scalar = (\<lambda>b. Inr b), kyber_Point = (\<lambda>b. Inr b), kyber_MulBase = (\<lambda>b. b),
     kyber_Encrypt = (\<lambda>_ m. Inr m), kyber_Decrypt = (\<lambda>_ c. Inr c), ecdsa_GenerateKey = (\<lambda>b. Inr b),
     btcec_NewPrivateKey = Inr [], ec_Public = (\<lambda>k. k),
     nc_MarshalPublicKey = (\<lambda>p. p), nc_UnmarshalPublicKey = (\<lambda>b. Some b),
     x509_MarshalECPrivateKey = (\<lambda>k. Inr k), x509_ParseECPrivateKey = (\<lambda>b. Inr b),
     x509_MarshalPKIX = (\<lambda>p. Inr []), x509_ParsePKIX = (\<lambda>b. Inr (Some b)),
     btcec_Serialize = (\<lambda>p. p), btcec_Parse = (\<lambda>b. Inr b),
     btcec_PrivSerialize = (\<lambda>k. k), btcec_PrivFromBytes = (\<lambda>b. Some b),
     ecies_Encrypt = (\<lambda>_ m _. Inr m), ecies_Decrypt = (\<lambda>_ c. Inr c),
     p2p_UnmarshalEd25519 = (\<lambda>b. Inr b), p2p_UnmarshalECDSA = (\<lambda>b. Inr b), p2p_FromSecp256k1 = (\<lambda>p. p),
     p2p_Kind = (\<lambda>_. P2P_Ed25519), p2p_Raw = (\<lambda>k. Inr k),
     p2p_MarshalEd25519Private = (\<lambda>k. Inr k), p2p_UnmarshalPrivateKey = (\<lambda>b. Inr b),
     p2p_ECDSAKeyPair = (\<lambda>k. Inr (k, k)), p2p_PrivFromSecp256k1 = (\<lambda>k. k),
     pem_Encode = bytes_str, pem_Decode = (\<lambda>s. Some (str_bytes s))\<rparr>"

lemma demo_fields [simp]:
  "Sum256 demo_lib b = b" "base58_Encode demo_lib b = bytes_str b" "base58_Decode demo_lib t = Inr (str_bytes t)"
  "peer_String demo_lib p = p" "peer_Decode demo_lib t = (t, None)" "ParseDuration demo_lib t = (0, None)"
  "pb_Relay demo_lib = relay_codec" "pb_RelayMsg demo_lib = relay_msg_codec"
  "pb_SetSessionIdMsg demo_lib = fixed \<lparr>ssm_SessionId = ''sid'', ssm_Role = 3\<rparr>"
  "pb_ProbeSignal demo_lib = fixed \<lparr>ps_SessionId = ''sid'', ps_Data = []\<rparr>"
  "pb_Disconnect demo_lib = fixed \<lparr>dis_SessionId = ''sid'', dis_ErrCode = 0\<rparr>"
  "pb_CircuitSuccess demo_lib = fixed \<lparr>cs_SessionId = ''sid''\<rparr>"
  "pb_Ack demo_lib = fixed \<lparr>ack_CommandId = ''cmd'', ack_Result = True, ack_Data = []\<rparr>"
  "pb_NewCircuit demo_lib = fixed \<lparr>nc_From = ''from'', nc_To = ''to'', nc_SessionId = ''sid''\<rparr>"
  "pb_SessionExpend demo_lib = fixed \<lparr>se_SessionId = ''sid'', se_PeerId = ''p''\<rparr>"
  "pb_EncryptedNeg demo_lib = fixed \<lparr>en_Des = ''to'', en_Cypher = []\<rparr>"
  "cs_Encrypt demo_lib cs b = (b @ replicate 16 0, cs)"
  by (simp_all add: demo_lib_def)

lemma str_bytes_inverse [simp]: "str_bytes (bytes_str b) = b"
proof -
  have "of_char (char_of (unat x) :: char) = x" for x :: byte
  proof -
    have "of_char (char_of (unat x) :: char) = (of_nat (unat x mod 256) :: byte)"
      using of_char_of [of "unat x"] by (metis of_nat_of_char)
    then show ?thesis using unsigned_less [of x, where ?'a = nat] by simp
  qed
  then show ?thesis by (simp add: str_bytes_def bytes_str_def comp_def)
qed

lemma length_bytes_str [simp]: "length (bytes_str b) = length b"
  by (simp add: bytes_str_def)

lemma demo_lib_ok [simp]: "aead_ok demo_lib" "base58_ok demo_lib" "keys_ok demo_lib"
  "codec_ok (pb_Account demo_lib)"
  using codecs_marshal(3)
  by (simp_all add: demo_lib_def aead_ok_def base58_ok_def keys_ok_def TagSize_def marshals_def)

section \<open>A network on which everything succeeds\<close>

definition demo_stream :: wn_stream where
  "demo_stream = \<lparr>StreamId = ''new'', RemotePeer = ''r''\<rparr>"

definition demo_env :: "'a net_state_scheme service_env" where
  "demo_env = \<lparr>write_res = (\<lambda>_ _ _. None), open_res = (\<lambda>_ _ _. Inr demo_stream), fut_late = (\<lambda>_. False),
     await = (\<lambda>_. ret None), buf_wait = (\<lambda>_. ret False),
     gen_keypair = (\<lambda>_. Inr \<lparr>dh_Private = [], dh_Public = []\<rparr>), ctx_first = (\<lambda>_. None),
     ListPeers = (\<lambda>_. []), FindLocal = (\<lambda>_ p. \<lparr>ai_ID = p, ai_Addrs = []\<rparr>), publish_res = (\<lambda>_ _. None),
     rand_Int = (\<lambda>_. 0), rand_Reader = (\<lambda>_. []), Range_sessions = (\<lambda>_. []), NewMultiaddr = (\<lambda>a. Inr a),
     UnixNano = (\<lambda>_. 0), sleep = emit EFuture, timed_out = (\<lambda>t. 3 \<le> length t),
     time_Until = (\<lambda>_ _. 1), ps_AddAddr = (\<lambda>p a _ ps. ps(p := ps p @ [a])), ps_AddAddrs = (\<lambda>p as ps. ps(p := ps p @ as)),
     ps_ClearAddrs = (\<lambda>p ps. ps(p := []))\<rparr>"

lemma demo_env_simps [simp]:
  "write_res demo_env t i b = None" "open_res demo_env t p q = Inr demo_stream" "fut_late demo_env t = False"
  "await demo_env i = ret None" "buf_wait demo_env a = ret False" "ListPeers demo_env t = []"
  "gen_keypair demo_env t = Inr \<lparr>dh_Private = [], dh_Public = []\<rparr>" "ctx_first demo_env t = None"
  "publish_res demo_env t b = None" "rand_Int demo_env t = 0" "sleep demo_env = emit EFuture"
  "timed_out demo_env t = (3 \<le> length t)"
  by (simp_all add: demo_env_def)

lemma demo_env_ok [simp]: "await_ok L P demo_env" "wait_ok L P demo_env"
  by (simp_all add: await_ok_def wait_ok_def keeps_return)

section \<open>Streams and sessions\<close>

definition st_a :: wn_stream where "st_a = \<lparr>StreamId = ''a'', RemotePeer = ''pa''\<rparr>"
definition st_b :: wn_stream where "st_b = \<lparr>StreamId = ''b'', RemotePeer = ''pb''\<rparr>"
definition st_c :: wn_stream where "st_c = \<lparr>StreamId = ''c'', RemotePeer = ''pc''\<rparr>"

lemma st_simps [simp]: "StreamId st_a = ''a''" "StreamId st_b = ''b''" "StreamId st_c = ''c''"
  "RemotePeer st_a = ''pa''" "RemotePeer st_b = ''pb''" "RemotePeer st_c = ''pc''"
  by (simp_all add: st_a_def st_b_def st_c_def)

definition demo_session :: "wn_stream list \<Rightarrow> session_role \<Rightarrow> session" where
  "demo_session p r = \<lparr>sess_Id = ''sid'', Pair = p, Role = r\<rparr>"

lemma demo_session_simps [simp]: "sess_Id (demo_session p r) = ''sid''" "Pair (demo_session p r) = p"
  "Role (demo_session p r) = r"
  by (simp_all add: demo_session_def)

text \<open>A node with one session.\<close>

definition demo_node :: "wn_stream list \<Rightarrow> session_role \<Rightarrow> service_state" where
  "demo_node p r = NewNode\<lparr>sessionMap := [''sid'' \<mapsto> demo_session p r]\<rparr>"

lemma demo_node_simps [simp]:
  "sessionMap (demo_node p r) = [''sid'' \<mapsto> demo_session p r]" "tr (demo_node p r) = []"
  "relayMail (demo_node p r) = []" "gossipMail (demo_node p r) = []" "proxyMail (demo_node p r) = []"
  "probeMap (demo_node p r) = (\<lambda>_. None)" "clientWNMap (demo_node p r) = (\<lambda>_. None)"
  "clientPeerMap (demo_node p r) = (\<lambda>_. None)" "TaskMap (demo_node p r) = (\<lambda>_. None)"
  "circuitConnMap (demo_node p r) = (\<lambda>_. None)"  "secureConnMap (demo_node p r) = (\<lambda>_. None)"
  by (simp_all add: demo_node_def NewNode_def)

definition demo_cfg :: "service_mode \<Rightarrow> relay_cfg" where
  "demo_cfg m = \<lparr>cfg_role = m, cfg_hostID = ''h'', cfg_privateKey = [], cfg_account = Ed25519PublicKey [],
     cfg_accountPriv = Ed25519PrivateKey []\<rparr>"

lemma demo_cfg_simps [simp]: "cfg_role (demo_cfg m) = m" "cfg_hostID (demo_cfg m) = ''h''"
  by (simp_all add: demo_cfg_def)

section \<open>A chat client\<close>

definition demo_chat_env :: "chat_state chat_env" where
  "demo_chat_env = service_env.extend demo_env (chat_env.fields (\<lambda>_. None) (\<lambda>n. if n = 0 then 0 else 32))"

lemma demo_chat_env_simps [simp]:
  "write_res demo_chat_env t i b = None" "buf_wait demo_chat_env a = ret False"
  "SubscribeOnce demo_chat_env x = None" "slice_cap demo_chat_env n = (if n = 0 then 0 else 32)"
  by (simp_all add: demo_chat_env_def service_env.defs chat_env.defs demo_env_def)

lemma demo_chat_wait [simp]: "wait_ok L P demo_chat_env"
  by (simp add: wait_ok_def keeps_return)

text \<open>A chat client called bob at an end of a circuit.\<close>

definition demo_chat :: chat_state where
  "demo_chat = service_state.extend NewNode (chat_state.fields ''me'' ''bob'' ''sid'' [] None False [] [] [] [] 0 [] [] False True)"

lemma demo_chat_simps [simp]:
  "tr demo_chat = []" "cr_nick demo_chat = ''bob''" "cr_roomName demo_chat = ''sid''" "cr_PeerList demo_chat = []"
  "ui_msgW demo_chat = []"
  by (simp_all add: demo_chat_def service_state.defs chat_state.defs NewNode_def)

lemma demo_chat_inv [simp]: "relay_inv L demo_chat"
  by (simp add: demo_chat_def service_state.defs chat_state.defs NewNode_def relay_inv_def entries_defs)

section \<open>Six nodes\<close>

definition set_session_codec :: "set_session_id_msg codec" where
  "set_session_codec = \<lparr>Marshal = (\<lambda>m. (put_word (ssm_Role m) @ put_string (ssm_SessionId m), None)),
     Unmarshal = (\<lambda>b. case get_word b of (r, b) \<Rightarrow> (\<lparr>ssm_SessionId = fst (get_string b), ssm_Role = r\<rparr>, None))\<rparr>"

definition probe_codec :: "probe_signal codec" where
  "probe_codec = \<lparr>Marshal = (\<lambda>m. (put_string (ps_SessionId m) @ ps_Data m, None)),
     Unmarshal = (\<lambda>b. case get_string b of (i, d) \<Rightarrow> (\<lparr>ps_SessionId = i, ps_Data = d\<rparr>, None))\<rparr>"

definition success_codec :: "circuit_success codec" where
  "success_codec = \<lparr>Marshal = (\<lambda>m. (put_string (cs_SessionId m), None)),
     Unmarshal = (\<lambda>b. (\<lparr>cs_SessionId = fst (get_string b)\<rparr>, None))\<rparr>"

definition demo_link_lib :: crypto_lib where
  "demo_link_lib = demo_lib\<lparr>pb_SetSessionIdMsg := set_session_codec, pb_ProbeSignal := probe_codec,
     pb_CircuitSuccess := success_codec\<rparr>"

lemma demo_link_marshals [simp]:
  "marshals (pb_Relay demo_link_lib)" "marshals (pb_SetSessionIdMsg demo_link_lib)"
  "marshals (pb_ProbeSignal demo_link_lib)" "marshals (pb_CircuitSuccess demo_link_lib)"
proof -
  show "marshals (pb_Relay demo_link_lib)" by (simp add: demo_link_lib_def)
  show "marshals (pb_SetSessionIdMsg demo_link_lib)" "marshals (pb_ProbeSignal demo_link_lib)"
    "marshals (pb_CircuitSuccess demo_link_lib)"
    by (simp_all add: demo_link_lib_def set_session_codec_def probe_codec_def success_codec_def marshals_def codec_ok_def)
qed

text \<open>A node that names its streams after itself and the peer they lead to.\<close>

definition demo_party :: "string \<Rightarrow> service_mode \<Rightarrow> party" where
  "demo_party name mode = \<lparr>p_env = \<lparr>write_res = (\<lambda>_ _ _. None),
       open_res = (\<lambda>_ p _. Inr \<lparr>StreamId = name @ p, RemotePeer = p\<rparr>), fut_late = (\<lambda>_. False),
       await = (\<lambda>_. ret (Some \<lparr>res_Ok = True, res_Data = []\<rparr>)), buf_wait = (\<lambda>_. ret False),
       gen_keypair = (\<lambda>_. Inr \<lparr>dh_Private = [], dh_Public = []\<rparr>), ctx_first = (\<lambda>_. None)\<rparr>,
     p_cfg = demo_cfg mode, p_state = NewRelayMsgManager\<rparr>"

definition demo_nodes :: nodes where
  "demo_nodes = \<lparr>n_caller = demo_party ''c'' ClientMode, n_entry = demo_party ''e'' ServerMode,
     n_joint = demo_party ''j'' ServerMode, n_relay = demo_party ''r'' ServerMode,
     n_exit = demo_party ''x'' ServerMode, n_answer = demo_party ''a'' ClientMode\<rparr>"

definition demo_route :: route where
  "demo_route = (let st = (\<lambda>a b. \<lparr>StreamId = a @ b, RemotePeer = b\<rparr>) in
     \<lparr>ce = st ''c'' ''e'', ec = st ''e'' ''c'', ej = st ''e'' ''j'', je = st ''j'' ''e'', jr = st ''j'' ''r'',
      rj = st ''r'' ''j'', rx = st ''r'' ''x'', xr = st ''x'' ''r'', xa = st ''x'' ''a'', ax = st ''a'' ''x''\<rparr>)"

lemma demo_before: "before_circuit ''sid'' demo_route demo_nodes"
  by (simp add: before_circuit_def demo_nodes_def demo_route_def Let_def demo_party_def sess_of_def ready_party_def
      opens_def steady_def wp_simps closed_def NewRelayMsgManager_def)

text \<open>The same nodes with the circuit put together, and a connection of each end.\<close>

definition demo_joined :: "string \<Rightarrow> service_mode \<Rightarrow> wn_stream list \<Rightarrow> session_role \<Rightarrow> party" where
  "demo_joined name mode sts r = (demo_party name mode)\<lparr>p_state := NewRelayMsgManager
     \<lparr>sessionMap := [''sid'' \<mapsto> \<lparr>sess_Id = ''sid'', Pair = sts, Role = r\<rparr>], circuitConnMap := [''sid'' \<mapsto> 0]\<rparr>\<rparr>"

definition demo_circuit :: nodes where
  "demo_circuit = (let w = demo_route in
     \<lparr>n_caller = demo_joined ''c'' ClientMode [ce w] CallerRole, n_entry = demo_joined ''e'' ServerMode [ec w, ej w] EntryRole,
      n_joint = demo_joined ''j'' ServerMode [je w, jr w] JointRole, n_relay = demo_joined ''r'' ServerMode [rx w, rj w] RelayRole,
      n_exit = demo_joined ''x'' ServerMode [xa w, xr w] ExitRole, n_answer = demo_joined ''a'' ClientMode [ax w] AnswerRole\<rparr>)"

lemma demo_up: "circuit_up ''sid'' demo_route demo_circuit"
  by (simp add: circuit_up_def demo_circuit_def demo_joined_def demo_route_def Let_def demo_party_def sess_of_def
      ready_party_def steady_def wp_simps closed_def NewRelayMsgManager_def)

end
