(* ===== verification/WN_Witnesses.thy ===== *)
theory WN_Witnesses
  imports WN_Demo
begin

text \<open>
  Each property with a hypothesis applied at a concrete input that satisfies it.
\<close>

section \<open>Sessions, acknowledgements, identifiers, accounts\<close>

theorem partner_mutual_witness:
  "\<exists>u. GetPattern (demo_session [st_a, st_b] JointRole) (StreamId st_b) = Inr u \<and> StreamId u = ''a'' \<and>
     u \<in> set [st_a, st_b] \<and> StreamId st_b \<noteq> ''a''"
  using partner_mutual [of "demo_session [st_a, st_b] JointRole" "''a''" st_b]
  by (simp add: GetPattern_pair)

definition demo_task :: task where "demo_task = \<lparr>task_Id = ''cmd'', task_Channel = 0\<rparr>"

theorem ack_actor_invariant_witness:
  "ack_inv (snd (run_state (ack_Receive demo_env demo_lib (ReqAddTask demo_task)) (NewNode\<lparr>next_chan := 1\<rparr>)))"
  by (rule ack_actor_invariant) (simp_all add: ack_inv_def fresh_task_def NewNode_def demo_task_def)

text \<open>The race after the task was filed, found by handler 0 and delivered.\<close>

definition demo_race :: race where
  "demo_race = \<lparr>owner = Got \<lparr>res_Ok = True, res_Data = []\<rparr>, filing = Filed, handler = (\<lambda>_. Idle)(0 := Done)\<rparr>"

theorem ack_delivered_once_witness: "\<forall>i. handler demo_race i = Done \<longleftrightarrow> i = 0"
proof -
  let ?r = "\<lparr>res_Ok = True, res_Data = []\<rparr>"
  let ?s1 = "race_init\<lparr>filing := Filed\<rparr>"
  let ?s2 = "?s1\<lparr>handler := (handler ?s1)(0 := Sending ?r)\<rparr>"
  have a: "race_step race_init ?s1" by (rule race_step.filed) (simp add: race_init_def)
  have b: "race_step ?s1 ?s2" by (rule race_step.found) (simp_all add: race_init_def)
  have c: "race_step ?s2 (?s2\<lparr>owner := Got ?r, handler := (handler ?s2)(0 := Done)\<rparr>)"
    by (rule race_step.receive) (simp_all add: race_init_def)
  have d: "?s2\<lparr>owner := Got ?r, handler := (handler ?s2)(0 := Done)\<rparr> = demo_race"
    by (simp add: race_init_def demo_race_def)
  have "race_reachable demo_race"
    unfolding race_reachable_def
    by (rule rtranclp.rtrancl_into_rtrancl [OF rtranclp.rtrancl_into_rtrancl [OF r_into_rtranclp [of race_step, OF a] b] c [unfolded d]])
  from ack_delivered_once [OF this, THEN conjunct1]
  have "handler demo_race i = Done \<and> handler demo_race 0 = Done \<longrightarrow> i = 0" for i by blast
  moreover have "handler demo_race 0 = Done" by (simp add: demo_race_def)
  ultimately show ?thesis by metis
qed

theorem ack_unknown_panics_witness:
  "fst (run_state (AckStreamHandler demo_lib st_a (Inr [])) NewNode) = Panics"
  by (rule ack_unknown_panics) (simp_all add: NewNode_def)

theorem send_ack_panics_witness:
  "fst (run_state (SendAck (demo_env\<lparr>open_res := (\<lambda>_ _ _. Inl ''no route'')\<rparr>) demo_lib
     \<lparr>ack_CommandId = ''cmd'', ack_Result = True, ack_Data = []\<rparr> ''pa'') NewNode) = Panics"
  by (subst send_ack_panics [where e = "''no route''"]) simp_all

theorem id_well_formed_witness:
  "\<exists>i. WhiteNoiseIDfromString demo_lib ''1key'' = Returns (Inr i) \<and> length i = 34 \<and> uint (i ! 0) = Secpk1 \<and>
     (\<exists>rest. id_String demo_lib i = CHR ''1'' # rest)"
proof -
  let ?i = "make_id Secpk1 (str_bytes ''key'')"
  have i: "WhiteNoiseIDfromString demo_lib ''1key'' = Returns (Inr ?i)" by (simp add: WhiteNoiseIDfromString_def)
  have "char_of (48 + nat Secpk1) = CHR ''1''" by (simp add: Secpk1_def char_of_def bit_0)
  with id_well_formed [of demo_lib "''1key''" ?i, OF disjI1, OF i] i show ?thesis
    by (intro exI [of _ ?i]) (simp del: id_String_def)
qed

theorem clamp_is_x25519_witness: "bit (clamp (replicate 32 255) ! 31) 6"
  using clamp_is_x25519 [of "replicate 32 255"] by simp

definition demo_account :: account where
  "demo_account = \<lparr>KeyType = ECDSA, pubKey = ECDSAPublicKey (Some [1]), privKey = ECDSAPrivateKey [1]\<rparr>"

definition demo_stored :: store where
  "demo_stored = [''default'' \<mapsto> fst (Marshal account_codec \<lparr>pba_Type = word_of_int ECDSA,
     pba_PrivateKey = [1], pba_PublicKey = [1]\<rparr>)]"

definition demo_db :: leveldb where
  "demo_db = \<lparr>OpenFile = (\<lambda>_. Inr demo_stored), RecoverFile = (\<lambda>_. Inl []), put_err = (\<lambda>_. None), get_err = (\<lambda>_. None)\<rparr>"

theorem account_round_trip_witness:
  "InsertOrUpdateAccount demo_lib demo_db demo_account (\<lambda>_. None) = (demo_stored, None) \<and>
   GetAccount demo_lib demo_db ECDSA [] = Returns (Some demo_account, demo_stored)"
proof -
  have r: "InsertOrUpdateAccount demo_lib demo_db demo_account (\<lambda>_. None) = (demo_stored, None)"
    by (simp add: InsertOrUpdateAccount_def demo_account_def demo_db_def demo_lib_def account_codec_def db_Put_def
        demo_stored_def MarshallECDSAPublicKey_def)
  have ne: "Marshal (pb_Account demo_lib) m = (b, None) \<Longrightarrow> b \<noteq> []" for m b
    by (auto simp: demo_lib_def account_codec_def put_word_def PutUint32_def)
  have "account_ok (KeyType demo_account) (pubKey demo_account) (privKey demo_account)"
    by (simp add: demo_account_def)
  from account_round_trip [OF demo_lib_ok(3,4) this r ne, where rand = "[]"] r show ?thesis
    by (simp add: demo_db_def OpenLevelDB_def NewLevelDBStore_def demo_account_def)
qed

section \<open>Circuits\<close>

definition demo_conn :: circuit_conn where
  "demo_conn = \<lparr>localWhiteNoiseID = [], remoteWhiteNoiseId = [2], conn_buffer = [], conn_sessionId = ''sid'',
     conn_state = CircuitConnReady\<rparr>"

definition demo_secure :: secure_session where
  "demo_secure = \<lparr>initiator = True, localID = ''h'', localKey = [], remoteID = ''p'', remoteKey = Some [],
     qseek = 0, qbuf = None, enc = Some (CipherState [] 0), dec = Some (CipherState [] 0)\<rparr>"

text \<open>An end of a circuit: one stream, a connection and its secure session.\<close>

definition demo_end :: "session_role \<Rightarrow> relay_state" where
  "demo_end r = NewRelayMsgManager\<lparr>sessionMap := [''sid'' \<mapsto> demo_session [st_a] r],
     circuitConnMap := [''sid'' \<mapsto> 0], conns := [demo_conn],
     secureConnMap := [''sid'' \<mapsto> \<lparr>sc_conn = 0, sc_session = demo_secure\<rparr>]\<rparr>"



theorem close_circuit_complete_witness:
  "fst (run_state (CloseCircuit demo_env demo_lib ''sid'') (demo_node [st_a, st_b] JointRole)) = None"
  using close_circuit_complete [of "demo_node [st_a, st_b] JointRole" "''sid''" "demo_session [st_a, st_b] JointRole"
      demo_lib "fst (NewDisconnect demo_lib ''sid'')" demo_env]
  by (simp add: NewDisconnect_def relay_codec_def)

section \<open>The relay node\<close>

definition demo_data :: bytes where
  "demo_data = fst (Marshal relay_codec \<lparr>relay_Id = [], relay_Type = Relaytype_Data,
     relay_Data = fst (Marshal relay_msg_codec \<lparr>rm_SessionId = ''sid'', rm_Data = [1, 2, 3]\<rparr>)\<rparr>)"

lemma demo_data_msg [simp]: "data_msg demo_lib ''sid'' demo_data"
  by (simp add: data_msg_def demo_data_def relay_codec_def relay_msg_codec_def del: put_type.simps)

definition demo_relay :: "relaytype \<Rightarrow> relay" where
  "demo_relay ty = \<lparr>relay_Id = ''cmd'', relay_Type = ty,
     relay_Data = fst (Marshal relay_msg_codec \<lparr>rm_SessionId = ''sid'', rm_Data = []\<rparr>)\<rparr>"

text \<open>A node that accepted a stream, whose loop has not read from it yet.\<close>

theorem relay_node_invariant_witness:
  "\<exists>v. streamMap (snd (run_state (RelayStreamHandler st_a) NewRelayMsgManager)) ''a'' = Some v \<and>
     StreamId (si_stream v) = ''a''"
proof -
  let ?s = "snd (run_state (RelayStreamHandler st_a) NewRelayMsgManager)"
  have "relay_step demo_env (demo_cfg ServerMode) demo_lib NewRelayMsgManager ?s"
    by (rule relay_step.accept [where st = st_a and u = "()"]) (simp add: prod_eq_iff)
  then have "relay_reachable demo_env (demo_cfg ServerMode) demo_lib ?s"
    by (simp add: relay_reachable_def)
  from relay_node_invariant [OF this]
  have "\<forall>k v. streamMap ?s k = Some v \<longrightarrow> StreamId (si_stream v) = k" by simp
  moreover have "streamMap ?s ''a'' \<noteq> None"
    by (simp add: RelayStreamHandler_def mgr_AddStream_def store_stream_def spawn_def)
  ultimately show ?thesis by blast
qed

theorem relay_forwards_unchanged_witness:
  "tr (snd (run_state (RelayInboundHandler demo_env (demo_cfg ServerMode) demo_lib st_a
      (map Inr [demo_data, demo_data])) (demo_node [st_a, st_b] JointRole))) =
    [EWrite ''b'' demo_data, EWrite ''b'' demo_data]"
  using relay_forwards_unchanged [of demo_lib "''sid''" "[demo_data, demo_data]" "demo_node [st_a, st_b] JointRole"
      "demo_session [st_a, st_b] JointRole" st_a st_b demo_env "demo_cfg ServerMode"]
  by (simp add: role_defs GetPattern_pair closed_def)



theorem same_stream_twice_echoes_witness:
  "wp (do { handleSetSession demo_env (demo_cfg ServerMode) demo_lib (demo_relay Relaytype_SetSessionId) st_a;
         inbound_iter demo_env (demo_cfg ServerMode) demo_lib st_a (Inr demo_data) })
     (\<lambda>_ t. tr t = [EWrite ''a'' demo_data]) (demo_node [st_a] JointRole)"
  using same_stream_twice_echoes [of "demo_node [st_a] JointRole" "''sid''" "demo_session [st_a] JointRole" st_a
      "demo_cfg ServerMode" demo_lib "demo_relay Relaytype_SetSessionId" "\<lparr>ssm_SessionId = ''sid'', ssm_Role = 3\<rparr>"
      demo_data demo_env]
  by (simp add: role_defs closed_def)

theorem disconnect_propagates_witness:
  "wp (handleDisconnect demo_env demo_lib (demo_relay Relaytype_Disconnect) st_a [9])
     (\<lambda>e t. gone ''sid'' t \<and> (e = None \<longrightarrow> writes (tr t) = [(''b'', [9])])) (demo_node [st_a, st_b] JointRole)"
  using disconnect_propagates [of demo_lib "demo_relay Relaytype_Disconnect" "\<lparr>dis_SessionId = ''sid'', dis_ErrCode = 0\<rparr>"
      "demo_node [st_a, st_b] JointRole" "demo_session [st_a, st_b] JointRole" demo_env st_a "[9]"]
  by simp


theorem entry_replaces_joint_witness:
  "wp (handleSetSession demo_env (demo_cfg ServerMode)
       (demo_lib\<lparr>pb_SetSessionIdMsg := fixed \<lparr>ssm_SessionId = ''sid'', ssm_Role = 4\<rparr>\<rparr>)
       (demo_relay Relaytype_SetSessionId) st_c)
     (\<lambda>e t. e = None \<and> streamMap t ''b'' = None) (demo_node [st_a, st_b] EntryRole)"
  by (rule wp_mono [OF entry_replaces_joint [where m = "\<lparr>ssm_SessionId = ''sid'', ssm_Role = 4\<rparr>"
        and sess = "demo_session [st_a, st_b] EntryRole" and cl = st_a and jn = st_b]])
    (simp_all add: role_defs)

section \<open>Choosing peers and serving clients\<close>

definition demo_peers :: "peer_info list" where
  "demo_peers = map (\<lambda>p. \<lparr>ai_ID = p, ai_Addrs = []\<rparr>) [''p0'', ''p1'', ''p2'']"

theorem choose_peer_complete_witness:
  "choose_peer (\<lambda>p. p \<noteq> ''p1'') demo_peers 0 = Returns (Some ''p2'')"
  using choose_peer_complete [of 0 demo_peers "\<lambda>p. p \<noteq> ''p1''"]
  by (simp add: demo_peers_def)

theorem peer_index_overflow_witness: "choose_peer (\<lambda>_. True) demo_peers (2 ^ 63 - 1) = Panics"
  by (rule peer_index_overflow) (simp_all add: demo_peers_def)

definition demo_wn :: wn_id where "demo_wn = 1 # replicate 33 7"

definition proxy_lib :: crypto_lib where
  "proxy_lib = demo_lib\<lparr>pb_NewProxy := fixed \<lparr>np_Time = [], np_WhiteNoiseID = id_String demo_lib demo_wn\<rparr>\<rparr>"

lemma proxy_lib_fields [simp]:
  "pb_Request proxy_lib = fixed \<lparr>req_ReqId = ''req'', req_From = ''p'', req_Reqtype = Reqtype_NewProxy, req_Data = []\<rparr>"
  "pb_NewProxy proxy_lib = fixed \<lparr>np_Time = [], np_WhiteNoiseID = id_String demo_lib demo_wn\<rparr>"
  "ParseDuration proxy_lib t = (0, None)" "peer_String proxy_lib p = p"
  by (simp_all add: proxy_lib_def demo_lib_def)

lemma id_String_proxy_lib: "WhiteNoiseIDfromString proxy_lib (id_String demo_lib demo_wn) = Returns (Inr demo_wn)"
  by (simp add: proxy_lib_def demo_wn_def id_String_def WhiteNoiseIDfromString_def key_type_defs
      key_length_def key_length_defs make_id_def Let_def WhiteNoiseIDLength_def)

definition demo_request :: "reqtype \<Rightarrow> request" where
  "demo_request ty = \<lparr>req_ReqId = ''req'', req_From = ''pa'', req_Reqtype = ty, req_Data = []\<rparr>"

definition demo_ack :: pb_ack where
  "demo_ack = \<lparr>ack_CommandId = ''req'', ack_Result = False, ack_Data = []\<rparr>"

theorem register_then_unregister_witness:
  "wp (handle_new_proxy proxy_lib (demo_request Reqtype_NewProxy) st_a demo_ack) (\<lambda>res t.
     res = Returns (Some (demo_ack\<lparr>ack_Result := True\<rparr>)) \<and>
     run_state (UnRegisterClient proxy_lib ''pa'') t = ((), NewNode)) NewNode"
  by (rule wp_mono [OF register_then_unregister [where i = demo_wn and d = 0
        and np = "\<lparr>np_Time = [], np_WhiteNoiseID = id_String demo_lib demo_wn\<rparr>"]])
    (simp_all add: id_String_proxy_lib NewNode_def)

theorem unregistered_client_refused_witness:
  "snd (run_state (HandleNewCircuit demo_env (demo_cfg ServerMode) demo_lib (demo_request Reqtype_NewCircuit) st_a)
     (demo_node [st_a] EntryRole)) = demo_node [st_a] EntryRole"
  by (subst unregistered_client_refused [where nc = "\<lparr>nc_From = ''from'', nc_To = ''to'', nc_SessionId = ''sid''\<rparr>"])
    simp_all

definition demo_client :: client_info where
  "demo_client = \<lparr>ci_WhiteNoiseID = demo_wn, ci_PeerID = ''pa'', ci_state = 1, ci_time = 0\<rparr>"

theorem no_joint_panics_witness:
  "wp (HandleNewCircuit (demo_env\<lparr>open_res := (\<lambda>_ _ _. Inl ''no route'')\<rparr>) (demo_cfg ServerMode) demo_lib
       (demo_request Reqtype_NewCircuit) st_a) (\<lambda>res t. res = Panics)
     ((demo_node [st_a] EntryRole)\<lparr>clientWNMap := [''from'' \<mapsto> demo_client]\<rparr>)"
  by (rule no_joint_panics [where nc = "\<lparr>nc_From = ''from'', nc_To = ''to'', nc_SessionId = ''sid''\<rparr>"
        and info = demo_client and sess = "demo_session [st_a] EntryRole"])
    (simp_all add: demo_client_def IsReady_def unreachable_def)

theorem empty_id_crash_witness:
  "wp (ProxyStreamHandler demo_env (demo_cfg ServerMode) demo_lib st_a (Inr [])) (\<lambda>res t. res = Panics) NewNode"
  by (rule empty_id_crash [where r = "\<lparr>req_ReqId = ''req'', req_From = ''p'', req_Reqtype = Reqtype_NewProxy, req_Data = []\<rparr>"
        and np = "\<lparr>np_Time = [], np_WhiteNoiseID = []\<rparr>"])
    (simp_all add: demo_lib_def)

definition demo_client2 :: client_info where
  "demo_client2 = demo_client\<lparr>ci_WhiteNoiseID := replicate 34 0\<rparr>"

lemma demo_client_simps [simp]:
  "ci_WhiteNoiseID demo_client = demo_wn" "ci_PeerID demo_client = ''pa''"
  "ci_WhiteNoiseID demo_client2 = replicate 34 0" "ci_PeerID demo_client2 = ''pa''"
  by (simp_all add: demo_client_def demo_client2_def)

theorem stale_client_witness:
  "wp (do {
       AddClient demo_lib (id_Hash demo_lib demo_wn) demo_client;
       AddClient demo_lib (id_Hash demo_lib (replicate 34 0)) demo_client2;
       UnRegisterClient demo_lib ''pa''
     }) (\<lambda>_ t. clientWNMap t (id_Hash demo_lib demo_wn) = Some demo_client) NewNode"
proof -
  have "id_Hash demo_lib demo_wn \<noteq> id_Hash demo_lib (replicate 34 0)"
    by (rule notI, drule arg_cong [where f = length])
      (simp add: demo_wn_def id_Hash_def key_type_defs key_length_defs)
  with stale_client [of NewNode demo_lib demo_client demo_client2 "''pa''"]
  show ?thesis by (simp add: NewNode_def wp_run)
qed

definition sealing_env :: "'a net_state_scheme service_env" where
  "sealing_env = demo_env\<lparr>await := (\<lambda>_. ret (Some \<lparr>res_Ok = True, res_Data = [5]\<rparr>)),
     publish_res := (\<lambda>_ _. Some ''no peers'')\<rparr>"

definition demo_nc :: new_circuit where
  "demo_nc = \<lparr>nc_From = ''from'', nc_To = ''to'', nc_SessionId = ''sid''\<rparr>"

section \<open>Commands and negotiations\<close>

theorem expend_late_panics_witness:
  "wp (handle_expend (demo_env\<lparr>fut_late := (\<lambda>t. t \<noteq> [])\<rparr>) demo_lib
       \<lparr>cmd_CommandId = ''cmd'', cmd_Type = Cmdtype_SessionExPend, cmd_From = ''pa'', cmd_Data = []\<rparr> st_a)
     (\<lambda>r t. r = Panics) (demo_node [st_a, st_b] RelayRole)"
  by (rule wp_mono [OF expend_late_panics [where m = "\<lparr>se_SessionId = ''sid'', se_PeerId = ''p''\<rparr>"
        and sess = "demo_session [st_a, st_b] RelayRole"]])
    (simp_all add: IsReady_def)


theorem negotiation_late_panics_witness:
  "wp (noise_iter (demo_env\<lparr>fut_late := (\<lambda>_. True)\<rparr>) (demo_cfg ServerMode) demo_lib (Inr [])) (\<lambda>r t. r = Panics) NewNode"
  by (rule negotiation_late_panics [where neg = "\<lparr>en_Des = ''to'', en_Cypher = []\<rparr>"]) simp_all


section \<open>The client and the whole node\<close>

theorem dial_terminates_witness:
  "wp (dial_poll 3 demo_env ''sid'') (\<lambda>r t. \<exists>x. r = Returns x) NewNode"
  by (rule dial_terminates [where n = 2]) (simp_all add: NewNode_def emit_def numeral_2_eq_2)


theorem node_invariant_witness:
  "clientPeerMap (snd (run_state (ProxyStreamHandler demo_env (demo_cfg ServerMode) proxy_lib st_a (Inr [])) NewNode)) ''pa''
     = Some demo_wn \<and>
   (\<exists>info. clientWNMap (snd (run_state (ProxyStreamHandler demo_env (demo_cfg ServerMode) proxy_lib st_a (Inr [])) NewNode))
      (id_Hash proxy_lib demo_wn) = Some info \<and> ci_PeerID info = ''pa'')"
proof -
  let ?r = "run_state (ProxyStreamHandler demo_env (demo_cfg ServerMode) proxy_lib st_a (Inr [])) NewNode"
  have "node_step demo_env (demo_cfg ServerMode) proxy_lib NewNode (snd ?r)"
    by (rule node_step.proxy_stream [where st = st_a and rd = "Inr []" and r = "fst ?r"]) simp
  then have reach: "node_reachable demo_env (demo_cfg ServerMode) proxy_lib (snd ?r)"
    by (simp add: node_reachable_def)
  have peer: "clientPeerMap (snd ?r) ''pa'' = Some demo_wn"
    by (simp add: ProxyStreamHandler_def handle_request_def Let_def handle_new_proxy_def id_String_proxy_lib
        GetClient_def AddClient_def store_client_def store_peer_def RequestAck_def CloseStream_def emit_def NewNode_def)
  from node_invariant [OF reach]
  have "\<forall>p i. clientPeerMap (snd ?r) p = Some i \<longrightarrow> (\<exists>info. clientWNMap (snd ?r) (id_Hash proxy_lib i) = Some info \<and>
       peer_String proxy_lib (ci_PeerID info) = p \<and> ci_WhiteNoiseID info = i)" by simp
  with peer show ?thesis by fastforce
qed

section \<open>Handshake\<close>

text \<open>
  A three-message pattern with one-byte static keys: a state is the step, the own key and the key of
  the other side; a message is the sender's key and its payload.
\<close>

definition noise_codec :: "noise_payload codec" where
  "noise_codec = \<lparr>Marshal = (\<lambda>m. (put_bytes (nhp_IdentityKey m) @ put_bytes (nhp_IdentitySig m) @ nhp_Data m, None)),
     Unmarshal = (\<lambda>b. case get_bytes b of (k, r) \<Rightarrow> (case get_bytes r of (sig, d) \<Rightarrow>
       (\<lparr>nhp_IdentityKey = k, nhp_IdentitySig = sig, nhp_Data = d\<rparr>, None)))\<rparr>"

definition toy_ciphers :: "(cipher_state \<times> cipher_state) option" where
  "toy_ciphers = Some (CipherState [1] 0, CipherState [2] 0)"

definition toy_write :: "hs_state \<Rightarrow> bytes \<Rightarrow> (goerr + bytes \<times> (cipher_state \<times> cipher_state) option) \<times> hs_state" where
  "toy_write st p =
     (if st ! 0 = 0 then (Inr ([], None), st[0 := 1])
      else if st ! 0 = 11 then (Inr (st ! 1 # p, None), st[0 := 12])
      else if st ! 0 = 2 then (Inr (st ! 1 # p, toy_ciphers), st[0 := 3])
      else (Inl ''no turn to write'', st))"

definition toy_read :: "hs_state \<Rightarrow> bytes \<Rightarrow> (goerr + bytes \<times> (cipher_state \<times> cipher_state) option) \<times> hs_state" where
  "toy_read st m =
     (if st ! 0 = 10 then (Inr ([], None), st[0 := 11])
      else if st ! 0 = 1 then (Inr (tl m, None), st[0 := 2, 2 := hd m])
      else if st ! 0 = 12 then (Inr (tl m, toy_ciphers), st[0 := 13, 2 := hd m])
      else (Inl ''no turn to read'', st))"

definition hs_lib :: crypto_lib where
  "hs_lib = demo_lib\<lparr>pb_NoisePayload := noise_codec, hs_WriteMessage := toy_write, hs_ReadMessage := toy_read,
     NewHandshakeState := (\<lambda>init kp. Inr [if init then 0 else 10, hd (dh_Public kp), 0]),
     hs_PeerStatic := (\<lambda>st. [st ! 2])\<rparr>"

definition key_i :: dh_key where "key_i = \<lparr>dh_Private = [], dh_Public = [7]\<rparr>"
definition key_r :: dh_key where "key_r = \<lparr>dh_Private = [], dh_Public = [8]\<rparr>"

definition toy_payload :: bytes where
  "toy_payload = fst (Marshal noise_codec \<lparr>nhp_IdentityKey = [], nhp_IdentitySig = [], nhp_Data = []\<rparr>)"

lemma noise_codec_ok: "codec_ok noise_codec"
  by (simp add: codec_ok_def noise_codec_def)

lemma hs_lib_laws:
  "xx_run hs_lib key_i key_r toy_payload toy_payload [] (8 # toy_payload) (7 # toy_payload)
     (CipherState [1] 0) (CipherState [2] 0)"
  "codec_ok (pb_NoisePayload hs_lib)" "payload_for hs_lib k [] toy_payload" "identity_ok hs_lib [] ''p''"
  by (simp_all add: xx_run_def hs_lib_def toy_write_def toy_read_def key_i_def key_r_def toy_ciphers_def size_defs
      toy_payload_def put_bytes_def payload_for_def identity_ok_def demo_lib_def noise_codec_ok)
    (simp_all add: noise_codec_def put_bytes_def)

text \<open>
  An end of a circuit before its handshake. The bytes that are still to arrive are kept outside the
  relay manager's state, and arrive all at once when a reader waits.
\<close>

definition waiting_end :: "session_role \<Rightarrow> bytes \<Rightarrow> bytes relay_state_scheme" where
  "waiting_end r fut = \<lparr>tr = [], TaskMap = (\<lambda>_. None), ackMail = [], next_chan = 0,
     circuitConnMap = [''sid'' \<mapsto> 0], secureConnMap = (\<lambda>_. None), streamMap = (\<lambda>_. None),
     sessionMap = [''sid'' \<mapsto> demo_session [st_a] r], probeMap = (\<lambda>_. None),
     conns = [demo_conn\<lparr>remoteWhiteNoiseId := make_id Ed25519 (replicate 32 1)\<rparr>], relayMail = [], jobs = [], \<dots> = fut\<rparr>"

definition arriving_env :: "dh_key \<Rightarrow> bytes relay_state_scheme relay_env" where
  "arriving_env kp = \<lparr>write_res = (\<lambda>_ _ _. None), open_res = (\<lambda>_ _ _. Inr demo_stream), fut_late = (\<lambda>_. False),
     await = (\<lambda>_. ret None),
     buf_wait = (\<lambda>a. do { modify (\<lambda>s. set_buffer a (relay_state.more s) (relay_state.more_update (\<lambda>_. []) s)); ret True }),
     gen_keypair = (\<lambda>_. Inr kp), ctx_first = (\<lambda>_. None)\<rparr>"

lemma waiting_end_ready:
  "r \<in> {CallerRole, AnswerRole} \<Longrightarrow> about_to_handshake (arriving_env kp) hs_lib 0 ''sid'' ''a'' 0 (\<lambda>x. x) kp (waiting_end r fut)"
  (is "_ \<Longrightarrow> ?ready")
proof -
  assume "r \<in> {CallerRole, AnswerRole}"
  have more: "end_ready hs_lib 0 ''sid'' ''a'' 0 (relay_state.more_update f s) = end_ready hs_lib 0 ''sid'' ''a'' 0 s"
      "tr (relay_state.more_update f s) = tr s" for f and s :: "bytes relay_state_scheme"
    by (cases s, simp add: end_ready_def one_stream_def at_end_def conn_exists_def)+
  have stored: "end_ready hs_lib 0 ''sid'' ''a'' 0 s \<Longrightarrow> get_buffer 0 (set_buffer 0 b s) = b"
    for b and s :: "bytes relay_state_scheme"
    by (rule get_set_buffer)
  have "feeds (arriving_env kp) hs_lib 0 ''sid'' ''a'' 0 (\<lambda>x. x)"
    by (auto simp: feeds_def incoming_def arriving_env_def more stored)
  moreover from \<open>r \<in> {CallerRole, AnswerRole}\<close> have "end_ready hs_lib 0 ''sid'' ''a'' 0 (waiting_end r fut)"
    by (simp add: end_ready_def one_stream_def carries_def wire_def waiting_end_def conn_is_def demo_conn_def hs_lib_def
        at_end_def conn_exists_def closed_def)
  ultimately show ?ready
    by (simp add: about_to_handshake_def circuit_live_def arriving_env_def waiting_end_def)
qed

theorem handshake_agreement_witness:
  "\<exists>ss ss'.
    wp (NewSecureConnCaller (arriving_env key_i) (demo_cfg ClientMode) hs_lib 0) (\<lambda>x t. x = Returns None \<and>
      secureConnMap t ''sid'' = Some \<lparr>sc_conn = 0, sc_session = ss\<rparr>) (waiting_end CallerRole (frame (8 # toy_payload))) \<and>
    wp (NewSecureConnAnswer (arriving_env key_r) (demo_cfg ClientMode) hs_lib 0) (\<lambda>x t. x = Returns None \<and>
      secureConnMap t ''sid'' = Some \<lparr>sc_conn = 0, sc_session = ss'\<rparr>)
      (waiting_end AnswerRole (frame [] @ frame (7 # toy_payload))) \<and>
    enc ss = dec ss' \<and> enc ss' = dec ss"
proof -
  let ?s = "waiting_end CallerRole (frame (8 # toy_payload))"
  let ?r = "waiting_end AnswerRole (frame [] @ frame (7 # toy_payload))"
  have "incoming (\<lambda>x. x) 0 ?s = frame (8 # toy_payload)"
      "incoming (\<lambda>x. x) 0 ?r = frame [] @ frame (7 # toy_payload)"
      "cfg_privateKey (demo_cfg ClientMode) = []"
      "GetPeerID hs_lib (remoteWhiteNoiseId (conns ?s ! 0)) = Inr ''p''"
    by (simp_all add: incoming_def waiting_end_def get_buffer_def demo_conn_def demo_cfg_def GetPeerID_def
        id_PublicKey_def Let_def UnMarshallEd25519PublicKey_def key_length_defs hs_lib_def demo_lib_def)
  with handshake_agreement [OF hs_lib_laws(1,2)
      waiting_end_ready [of CallerRole key_i "frame (8 # toy_payload)"] _ _ _
      waiting_end_ready [of AnswerRole key_r "frame [] @ frame (7 # toy_payload)"],
      where C = "demo_cfg ClientMode" and C' = "demo_cfg ClientMode" and p = "''p''" and q = "''p''"]
  obtain ss ss' where
    "wp (NewSecureConnCaller (arriving_env key_i) (demo_cfg ClientMode) hs_lib 0) (\<lambda>x t. x = Returns None \<and>
      secureConnMap t ''sid'' = Some \<lparr>sc_conn = 0, sc_session = ss\<rparr> \<and> incoming (\<lambda>x. x) 0 t = [] \<and>
      payloads hs_lib ''a'' 0 (tr t) = payloads hs_lib ''a'' 0 (tr ?s) @ frame [] @ frame (7 # toy_payload) \<and>
      circuit_live (arriving_env key_i) hs_lib 0 ''sid'' ''a'' 0 (\<lambda>x. x) t) ?s"
    "wp (NewSecureConnAnswer (arriving_env key_r) (demo_cfg ClientMode) hs_lib 0) (\<lambda>x t. x = Returns None \<and>
      secureConnMap t ''sid'' = Some \<lparr>sc_conn = 0, sc_session = ss'\<rparr> \<and> incoming (\<lambda>x. x) 0 t = [] \<and>
      payloads hs_lib ''a'' 0 (tr t) = payloads hs_lib ''a'' 0 (tr ?r) @ frame (8 # toy_payload) \<and>
      circuit_live (arriving_env key_r) hs_lib 0 ''sid'' ''a'' 0 (\<lambda>x. x) t) ?r"
    "enc ss = dec ss'" "enc ss' = dec ss"
    using hs_lib_laws(3,4) by auto
  then show ?thesis by (intro exI [of _ ss] exI [of _ ss']) (auto elim!: wp_mono)
qed

section \<open>Start\<close>

definition demo_host :: host_lib where
  "demo_host = \<lparr>noise_New = (\<lambda>_. None), multiaddr_New = (\<lambda>a. Inr a),
     AddrInfoFromP2pAddr = (\<lambda>a. Some \<lparr>ai_ID = ''boot'', ai_Addrs = [a]\<rparr>), libp2p_New = (\<lambda>_ _. Inr ''p''),
     kaddht_New = (\<lambda>_ _. None), NewGossipSub = (\<lambda>_. None), topic_Join = (\<lambda>_. None), topic_Subscribe = (\<lambda>_. None),
     dht_Bootstrap = (\<lambda>_. None)\<rparr>"

definition ed_account :: account where
  "ed_account = \<lparr>KeyType = Ed25519, pubKey = Ed25519PublicKey (replicate 32 5), privKey = Ed25519PrivateKey (replicate 32 5)\<rparr>"


definition demo_white_list :: whitelist_file where
  "demo_white_list = \<lparr>wl_ReadFile = Inr [], wl_Unmarshal = (\<lambda>_. Inr [id_String demo_lib (make_id Ed25519 (replicate 32 5))])\<rparr>"

theorem white_list_exact_witness:
  "InitWhiteList demo_lib demo_white_list = Returns {''p''} \<and>
   wp (Connected demo_env True {''p''} ''q'' ''addr'') (\<lambda>_ t. closedConns t = [''q'']) NewNode"
proof -
  have listed: "WhiteNoiseIDfromString demo_lib (id_String demo_lib (make_id Ed25519 (replicate 32 5))) =
      Returns (Inr (make_id Ed25519 (replicate 32 5)))"
    by (simp add: id_String_def WhiteNoiseIDfromString_def Let_def key_length_defs)
  have peer: "GetPeerID demo_lib (make_id Ed25519 (replicate 32 5)) = Inr ''p''"
    by (simp add: GetPeerID_def id_PublicKey_def Let_def UnMarshallEd25519PublicKey_def key_length_defs demo_lib_def)
  have "InitWhiteList demo_lib demo_white_list = Returns {''p''}"
    by (simp add: InitWhiteList_def demo_white_list_def listed peer)
  moreover from white_list_exact [OF this, of "[]" _ demo_env "''q''" "''addr''" NewNode]
  have "wp (Connected demo_env True {''p''} ''q'' ''addr'') (\<lambda>_ t. closedConns t = [''q'']) NewNode"
    by (simp add: demo_white_list_def listed peer NewNode_def)
  ultimately show ?thesis by simp
qed

section \<open>The chat\<close>

text \<open>Bob starts a chat, types a line and hits enter.\<close>

theorem chat_invariant_witness:
  "\<exists>s. run_state (Chat demo_chat_env ''bob'' ''me'' []) demo_chat = (Returns (), s) \<and>
     (let t = snd (run_state (input_done True) (s\<lparr>ui_inputText := ''hello''\<rparr>))
      in ui_inputCh t = [''hello''] \<and> distinct (cr_PeerList t) \<and> length (ui_inputCh t) \<le> 32 \<and>
         list_all (\<lambda>l. l \<noteq> '''' \<and> l \<noteq> ''/quit'') (ui_inputCh t))"
proof -
  let ?r = "run_state (Chat demo_chat_env ''bob'' ''me'' []) demo_chat"
  let ?s = "snd ?r"
  let ?u = "?s\<lparr>ui_inputText := ''hello''\<rparr>"
  have r: "?r = (Returns (), ?s)"
    by (simp add: Chat_def JoinChatRoom_def NewChatUI_def)
  have "ui_inputCh ?s = []" by (simp add: Chat_def JoinChatRoom_def NewChatUI_def)
  then have d: "run_state (input_done True) ?u = (Returns (), ?u\<lparr>ui_inputCh := [''hello''], ui_inputText := ''''\<rparr>)"
    by (simp add: input_done_def inputCap_def)
  have "chat_step demo_chat_env demo_lib ?s ?u" by (rule chat_step.typing)
  moreover have "chat_step demo_chat_env demo_lib ?u (snd (run_state (input_done True) ?u))"
    by (rule chat_step.leave [where k = True]) (simp add: d)
  ultimately have "(chat_step demo_chat_env demo_lib)\<^sup>*\<^sup>* ?s (snd (run_state (input_done True) ?u))"
    by (meson rtranclp.rtrancl_into_rtrancl r_into_rtranclp)
  from chat_invariant [OF r this] show ?thesis
    using r d by (intro exI [of _ ?s]) (simp add: Let_def list_all_iff)
qed

text \<open>A message whose first length is the largest \<open>int\<close>.\<close>

definition largest_length :: bytes where "largest_length = 0x0a # varint (2 ^ 63 - 1)"

theorem chat_codec_round_trip_witness:
  "chat_Marshal (chat_text ''bob'' [1, 2]) = Returns ([10, 3, 98, 111, 98, 18, 2, 1, 2], None) \<and>
   chat_Unmarshal [10, 3, 98, 111, 98, 18, 2, 1, 2] chat_Reset = Returns (chat_text ''bob'' [1, 2], None)"
proof -
  let ?d = "[10, 3, 98, 111, 98, 18, 2, 1, 2] :: bytes" and ?m = "chat_text ''bob'' [1, 2]"
  have enc: "enc_chat ?m = ?d"
    by (simp add: enc_chat_def enc_field_def varint.simps str_bytes_def)
  have size: "chat_Size ?m < 2 ^ 62" using chat_text_size [of "''bob''" "[1, 2]"] by simp
  have "length ?d < 2 ^ 62" by simp
  note c = chat_codec_round_trip [OF this, THEN conjunct2]
  have "chat_Unmarshal ?d chat_Reset = Returns (?m, None)"
    using c [THEN conjunct2, rule_format, of "''bob''" "[1, 2]"] enc by simp
  with c [THEN conjunct1, rule_format, of ?m] enc size show ?thesis by simp
qed

definition demo_chat_end :: "session_role \<Rightarrow> chat_state" where
  "demo_chat_end r = demo_chat\<lparr>sessionMap := [''sid'' \<mapsto> demo_session [st_a] r],
     circuitConnMap := [''sid'' \<mapsto> 0], conns := [demo_conn],
     secureConnMap := [''sid'' \<mapsto> \<lparr>sc_conn = 0, sc_session = demo_secure\<rparr>]\<rparr>"

lemma demo_chat_end_simps [simp]:
  "sessionMap (demo_chat_end r) = [''sid'' \<mapsto> demo_session [st_a] r]" "circuitConnMap (demo_chat_end r) = [''sid'' \<mapsto> 0]"
  "conns (demo_chat_end r) = [demo_conn]" "tr (demo_chat_end r) = []" "cr_nick (demo_chat_end r) = ''bob''"
  "cr_roomName (demo_chat_end r) = ''sid''" "cr_PeerList (demo_chat_end r) = []" "ui_msgW (demo_chat_end r) = []"
  "secureConnMap (demo_chat_end r) = [''sid'' \<mapsto> \<lparr>sc_conn = 0, sc_session = demo_secure\<rparr>]"
  by (simp_all add: demo_chat_end_def)

theorem malformed_message_crashes_witness:
  "wp (obind (readLoop_iter demo_chat_env demo_lib) (\<lambda>_. handleEvents_iter demo_chat_env demo_lib SelMessage)) (\<lambda>r t. r = Panics)
     (set_buffer 0 (concat (fst (encode_chunks demo_lib (CipherState [] 0) (chunks (EncodePayload largest_length)))))
        (demo_chat_end AnswerRole))"
proof -
  have "sint (2 ^ 63 - 1 :: 64 word) = 2 ^ 63 - 1" by (simp add: sint_uint)
  then have "overlong largest_length"
    unfolding overlong_def largest_length_def by (intro exI [of _ "0x0a"] exI [of _ "2 ^ 63 - 1"] exI [of _ "[]"]) simp
  moreover have "length largest_length < 2 ^ 32"
    using sovChat_le [of "2 ^ 63 - 1" 9] by (simp add: largest_length_def length_varint)
  moreover have "secure_stream demo_lib demo_secure
      (concat (fst (encode_chunks demo_lib (CipherState [] 0) (chunks (EncodePayload largest_length)))))
      (EncodePayload largest_length @ [])"
    using chunks_fit by (intro secure_streamI [where cs = "CipherState [] 0" and ps = "chunks (EncodePayload largest_length)"])
      (auto simp: queued_def demo_secure_def list_all_iff)
  ultimately show ?thesis
    by (intro malformed_message_crashes [where sc = "\<lparr>sc_conn = 0, sc_session = demo_secure\<rparr>" and rest = "[]"])
      (simp_all add: set_buffer_def get_buffer_def)
qed

section \<open>Logging, stores and actors\<close>

definition demo_log_env :: log_env where
  "demo_log_env = \<lparr>goroutine = 1, stack_rest = ''[running]:'', call_frame = (\<lambda>_. \<lparr>fr_name = ''main.main'', fr_file = ''main.go'', fr_line = 1\<rparr>),
     range_modules = (\<lambda>ms. ms), output_err = (\<lambda>_. None), os_Stat = (\<lambda>_. IsDir), os_MkdirAll = (\<lambda>_. None),
     os_OpenFile = (\<lambda>_. None), time_Now = ''now'', file_Size = (\<lambda>_. Inr 0), file_Close = (\<lambda>_. None)\<rparr>"

definition demo_log :: log_state where
  "demo_log = \<lparr>Log = log_New [Stdout] InfoLog None, ModuleLevel = [(''relay'', WarnLog)], ProcName = '''',
     log_written = [], log_exited = False\<rparr>"

theorem printf_loses_messages_witness:
  "run_state (Outputf demo_log_env ErrorLog ''lost'' []) demo_log = (Returns None, demo_log) \<and>
   length (log_written (snd (run_state (Output demo_log_env ErrorLog [ArgString ''lost'']) demo_log))) = 1"
proof -
  let ?p = "Color ''0;36'' ''[main]''"
  have "GetPkg demo_log_env (ProcName demo_log) = Returns ?p"
    by (simp add: GetPkg_def pkg_tag_def pkg_name_def demo_log_env_def demo_log_def filepath_Base_def before_dot_def)
  moreover have "\<not> strings_Contains ?p ''relay''"
    by code_simp
  moreover have "range_modules demo_log_env (ModuleLevel demo_log) = [(''relay'', WarnLog)]"
    by (simp add: demo_log_env_def demo_log_def)
  moreover from calculation(2) have "passes [(''relay'', WarnLog)] ?p ErrorLog (lg_level (Log demo_log))"
    by (simp add: passes_def demo_log_def log_New_def level_defs)
  ultimately show ?thesis
    using printf_loses_messages [of ErrorLog demo_log_env demo_log ?p "(''relay'', WarnLog)" "[]" "''lost''" "[]"]
      printf_loses_messages [of ErrorLog demo_log_env demo_log ?p "(''relay'', WarnLog)" "[]" "''lost''" "[ArgString ''lost'']"]
    by (simp add: level_defs) (simp add: demo_log_def)
qed

theorem sqlite_never_opens_witness:
  "\<exists>err. NewSQLiteStorage \<lparr>sql_Open = (\<lambda>_. None),
     sql_Exec = (\<lambda>q. if q = ''%!(EXTRA string=)'' then Some ''syntax error'' else None), sql_Prepare = (\<lambda>_. None),
     stmt_Exec = (\<lambda>_ _. None), stmt_Query = (\<lambda>_ _. Inr []), sql_Close = None\<rparr> ''chat.db'' ''CREATE TABLE t (x)'' = Inl err"
  by (rule sqlite_never_opens) simp


theorem circuit_built_witness:
  "\<exists>m. build_circuit demo_link_lib ''sid'' demo_route demo_nodes = Some m \<and>
     list_all (hop_ok ''sid'') (forward_hops demo_route m @ backward_hops demo_route m)"
proof -
  have "\<exists>m. build_circuit demo_link_lib ''sid'' demo_route demo_nodes = Some m \<and>
    circuit_up ''sid'' demo_route m \<and>
    list_all (hop_ok ''sid'') (forward_hops demo_route m @ backward_hops demo_route m) \<and>
    (\<forall>bs. list_all (data_msg demo_link_lib ''sid'') bs \<longrightarrow>
       fold (passed_on demo_link_lib) (forward_hops demo_route m) bs = bs \<and>
       fold (passed_on demo_link_lib) (backward_hops demo_route m) bs = bs)"
    by (rule circuit_built [OF demo_link_marshals(1,2) demo_before])
  then show ?thesis by blast
qed

theorem circuit_completed_witness:
  "complete_circuit demo_link_lib ''sid'' demo_route demo_circuit =
     ([NewCircuitSuccess demo_link_lib ''sid''], [NewCircuitSuccess demo_link_lib ''sid''])"
proof -
  have "circuitConnMap (p_state (n_caller demo_circuit)) ''sid'' = Some 0"
    "circuitConnMap (p_state (n_answer demo_circuit)) ''sid'' = Some 0"
    by (simp_all add: demo_circuit_def demo_joined_def)
  from circuit_completed [OF demo_link_marshals(1,3,4) demo_up this] show ?thesis by blast
qed

end
