(* ===== verification/Spec2Isabelle.thy ===== *)
theory Spec2Isabelle
  imports WN_Witnesses
begin

text \<open>
  WhiteNoise is a privacy network on top of libp2p. A client registers with a proxy; a circuit between
  two clients runs caller, entry (the caller's proxy), joint node, relay, exit (the answerer's proxy),
  answerer, over streams that the nodes in between join in pairs. The ends run a Noise handshake
  through the circuit and then exchange encrypted frames. This development models the nodes and
  proves what makes them correct, and where they are not, how they fail.

  \<^bold>\<open>Parts and theories.\<close>
  \<^item> \<^verbatim>\<open>WN_Prelude\<close>: Go values (bytes, errors, results that may panic or never come and their sequencing), stateful code in the
    state monad with weakest preconditions (\<open>wp\<close>), invariants (\<open>keeps\<close>) and results (\<open>yields\<close>), the locale
    \<open>sync_map\<close> of a \<^verbatim>\<open>sync.Map\<close>, big-endian integers.
  \<^item> \<^verbatim>\<open>WN_Session\<close>: \<^verbatim>\<open>network/session/session.go\<close>, roles and modes.
  \<^item> \<^verbatim>\<open>WN_Messages\<close>: the protobuf messages, the constructors of relay messages in \<^verbatim>\<open>relay.go\<close>, the trace
    of effects on the network and the environment.
  \<^item> \<^verbatim>\<open>WN_Ack\<close>: \<^verbatim>\<open>protocol/ack\<close>, and the race between the owner of a task, the actor and the handlers.
  \<^item> \<^verbatim>\<open>WN_IO\<close>: \<^verbatim>\<open>SafeBuffer\<close> of \<^verbatim>\<open>relay/connection.go\<close>, \<^verbatim>\<open>io.ReadFull\<close>, \<^verbatim>\<open>secure/message.go\<close>; the locale of a
    source of bytes.
  \<^item> \<^verbatim>\<open>WN_Secure\<close>: \<^verbatim>\<open>secure/\<close>, the handshake and the framed transport over any connection; the locale of a
    sink of bytes.
  \<^item> \<^verbatim>\<open>WN_Crypto\<close>: \<^verbatim>\<open>crypto/\<close>, keys and WhiteNoise identifiers. \<^verbatim>\<open>WN_Account\<close>: \<^verbatim>\<open>common/account\<close> and the part of
    \<^verbatim>\<open>common/store/leveldb.go\<close> it uses; \<^verbatim>\<open>WN_Store\<close>: the rest of \<^verbatim>\<open>common/store\<close>. \<^verbatim>\<open>WN_Log\<close>: \<^verbatim>\<open>common/log/log.go\<close>,
    with the string functions of the Go library it uses.
  \<^item> \<^verbatim>\<open>WN_Manager\<close>: \<^verbatim>\<open>protocol/relay\<close> \<^verbatim>\<open>manager.go\<close>, \<^verbatim>\<open>connection.go\<close>, \<^verbatim>\<open>secure_conn.go\<close>. \<^verbatim>\<open>WN_Relay\<close>: \<^verbatim>\<open>relay.go\<close>,
    \<^verbatim>\<open>actor.go\<close>, the interleaving \<open>relay_step\<close>, and the contract of the relay actor as a locale.
  \<^item> \<^verbatim>\<open>WN_Circuit\<close>: how two nodes make a link and six nodes a circuit, and what its inner nodes do with data.
  \<^item> \<^verbatim>\<open>WN_Handshake\<close>: the handshake seen from both ends of a circuit; the locale \<open>duplex\<close> of a connection whose
    peer answers, which gives a sink of bytes and is interpreted on circuits.
  \<^item> \<^verbatim>\<open>WN_Dht\<close>, \<^verbatim>\<open>WN_Gossip\<close>: \<^verbatim>\<open>network/gossip\<close>. \<^verbatim>\<open>WN_Proxy\<close>: \<^verbatim>\<open>protocol/proxy\<close>. \<^verbatim>\<open>WN_Command\<close>:
    \<^verbatim>\<open>protocol/command\<close>. \<^verbatim>\<open>WN_Noise\<close>: \<^verbatim>\<open>network/noise\<close> and \<^verbatim>\<open>sdk/sdk.go\<close>.
  \<^item> \<^verbatim>\<open>WN_Node\<close>: a whole node, the interleaving \<open>node_step\<close> of all of these. \<^verbatim>\<open>WN_Start\<close>: \<^verbatim>\<open>main.go\<close>,
    \<^verbatim>\<open>network/node.go\<close>, \<^verbatim>\<open>network/host/host.go\<close> and the constructors of the services. \<^verbatim>\<open>WN_Actors\<close>: the
    functions \<open>Start\<close>, \<open>Pid\<close> and \<open>SetPid\<close> by which the actors of a node come to know each other.
  \<^item> \<^verbatim>\<open>WN_ChatCodec\<close>: \<^verbatim>\<open>cmd/pb/chat.pb.go\<close>, how chat messages are encoded and decoded. \<^verbatim>\<open>WN_Chat\<close>: \<^verbatim>\<open>cmd/chat\<close>,
    the chat client on top of the SDK, and its steps \<open>chat_step\<close>.
  \<^item> \<^verbatim>\<open>WN_Demo\<close>, \<^verbatim>\<open>WN_Witnesses\<close>: an instance of the third-party interface and the properties applied to it.

  \<^bold>\<open>How state and code correspond.\<close> Each manager struct is a record that extends the record of the
  managers it calls (\<open>relay_state\<close>, \<open>dht_state\<close>, \<open>proxy_state\<close>, \<open>cmd_state\<close>, \<open>node_state\<close>, \<open>service_state\<close>;
  \<open>chat_state\<close> extends that of a client by the chat room and the interface), so
  one node is one record and every operation is a computation on all extensions of the record it
  needs. A table is a partial map. A pointer to a circuit connection is an index into \<open>conns\<close>. What a
  node does to the network is appended to the trace \<open>tr\<close>, and what the network answers is read from
  the environment as a function of the trace: whether a write fails, which stream is opened, whether
  a future is late. A goroutine that is started is an entry of \<open>jobs\<close> or \<open>gossipJobs\<close>; a message to an
  actor is an entry of its mail. Requests that wait for an actor deliver the older mail first.
  Marshalling, hashing, base58, ciphers and curves are fields of \<open>lib\<close>, \<open>noise_lib\<close> and \<open>crypto_lib\<close>;
  what a theorem needs of them (\<open>codec_ok\<close>, \<open>marshals\<close>, \<open>base58_ok\<close>, \<open>aead_ok\<close>, \<open>keys_ok\<close>) is their documented
  behaviour and is a hypothesis. The calls of the logger in the other packages are left out; the logger
  itself is \<^verbatim>\<open>WN_Log\<close>.

  \<^bold>\<open>Waiting.\<close> While a goroutine waits for an acknowledgement or for bytes, others run: \<open>await\<close> and
  \<open>buf_wait\<close> of the environment are arbitrary computations. The invariants rely on them to keep the
  invariant (\<open>await_ok\<close>, \<open>wait_ok\<close>), which is what \<open>relay_step_ok\<close> and \<open>node_step_ok\<close> show of every step
  that can run there.

  \<^bold>\<open>What is shown.\<close> Invariants of the relay tables, of a whole node and of a chat client (C1, C15, C18);
  data from one end of a circuit to the other (C2), a whole conversation of a chat over it (C3), and the
  circuit itself, put together link by link (C4), which is what C2 and C3 suppose of their hops, and
  completed by the probes of its two sides (C5), which starts the handshake of C8;
  each relay forwarding unchanged (C6), secure reads as a refinement of a byte stream (C10);
  authenticity of a secure connection (C7), that the handshake completes on both ends and leaves
  them with each other's cipher states (C8), and that from there on messages arrive in both directions
  (C9), which discharges what C2 supposes of its two ends; one
  identity of a node for those who dial it and those it talks to (C16), and who refers to whose actor
  (C17); the codec of chat messages, its totality and round trip (C19), which C3 rests on; joining,
  probing, disconnecting and closing circuits (C11--C14, C27, C28); choice of hops (C20,
  C26); acknowledgements (C21, C22); the form of identifiers (C23); round trips of
  accounts and registrations (C24, C29); termination (C25, C33); who is
  let in (C30); what a negotiation and a failed request leave behind (C31, C32); key clamping (C34);
  and runs in which the code fails (C35--C40).

  \<^bold>\<open>Bounds.\<close> \<open>ReadFull\<close> takes one more than the requested number of bytes as fuel: every read without an
  error delivers at least one byte, so C25 shows that it is enough; over a secure session, where a
  frame may be empty, \<open>secure_ReadFull\<close> takes twice the number and two. \<open>dial_poll\<close> takes a bound on its
  polls, and C33 says which bound is enough. The codec of chat messages takes one more than the length of
  the slice for its loop and \<open>skip_fuel\<close> for skipping a field, and C19 shows that both are enough. Go's
  \<open>int\<close> has 64 bits, and a slice is taken to be shorter than \<open>2 ^ 62\<close> bytes. The retry loops run
  \<open>RetryTimes\<close> times. All other loops
  are structural or have a measure. The loops that never end by design (the inbound loop, the loops
  of the chat) are modelled by their rounds.

  \<^bold>\<open>Not modelled.\<close> The layout of the widgets of the chat; getters of one field; \<open>TryConnect\<close> of \<^verbatim>\<open>noise.go\<close>,
  which nothing calls; \<open>printErr\<close> of \<^verbatim>\<open>chat.go\<close>, which only prints. The generated files under \<^verbatim>\<open>internal/pb\<close>
  hold descriptors and leave the encoding to the protobuf library, which is not part of the repository:
  a message there is a record, and its encoding a pair of parameters. \<^verbatim>\<open>cmd/pb/chat.pb.go\<close> has its own
  encoder and decoder, and they are modelled. Durations are not numbers: a deadline is an answer of the
  environment. The race between the wake-up of a reader and its timeout inside \<^verbatim>\<open>EventBus\<close> is such an
  answer too.
\<close>

section \<open>A message from one end of a circuit to the other\<close>

lemma frames_nonempty: "ps \<noteq> [] \<Longrightarrow> concat (fst (encode_chunks L cs ps)) \<noteq> []"
  by (cases ps) (auto simp: frame_def PutUint16_def split: prod.split)

lemma chunks_nonempty: "data \<noteq> [] \<Longrightarrow> chunks data \<noteq> []"
  by (simp add: chunks.simps)

lemma chunks_view:
  assumes "dec ss = Some cs" and "qbuf ss = None"
  shows "secure_view L ss (concat (fst (encode_chunks L cs (chunks data)))) data"
  using assms chunks_fit by (intro secure_viewI [where cs = cs and ps = "chunks data"])
    (auto simp: list_all_iff queued_def)

text \<open>A message that the sender has sent, from the wire to the read at the other end.\<close>

lemma message_delivered:
  assumes "aead_ok L" and "data \<noteq> []"
    and send: "secureConnMap s sid = Some sc" "enc (sc_session sc) = Some cs"
      "one_stream L (sc_conn sc) sid i s" "run_state (SendMessage E L data sid) s = (None, s')"
    and hops: "list_all (hop_ok sid) hops"
    and recv: "sessionMap r sid = Some sess" "Role sess \<in> {CallerRole, AnswerRole}"
      "circuitConnMap r sid = Some a" "conn_exists a r" "\<not> closed (tr r) (StreamId st)"
      "get_buffer a r = []" "dec rs = Some cs" "qbuf rs = None"
  shows "wp (do {
       RelayInboundHandler E' C' L st
         (map Inr (fold (passed_on L) hops (drop (length (wire i (tr s))) (wire i (tr s')))));
       SecureSession_Read L (circuit_conn_io E' L a) n rs
     }) (\<lambda>x t. \<exists>out ss rest. x = Returns (out, None, ss) \<and> data = out @ rest \<and> length out \<le> n \<and>
          secure_view L ss (get_buffer a t) rest) r"
proof -
  let ?k = "length (wire i (tr s))"
  let ?bs = "drop ?k (wire i (tr s'))"
  let ?in = "concat (fst (encode_chunks L cs (chunks data)))"
  have "carries L sid i ?k (tr s)" by (simp add: carries_def)
  from SendMessage_carried [OF send(1-3) this, of E data] send(4)
  have bs: "list_all (data_msg L sid) ?bs" "concat (map (payload L) ?bs) = ?in"
    by (simp_all add: wp_run carries_def payloads_def)
  have del: "wp (RelayInboundHandler E' C' L st (map Inr ?bs)) (\<lambda>_ t. get_buffer a t = ?in) r"
    by (rule wp_mono [OF RelayInboundHandler_deliver [OF bs(1) recv(1-5)]]) (simp add: bs(2) recv(6))
  have read: "wp (SecureSession_Read L (circuit_conn_io E' L a) n rs) (\<lambda>x t. \<exists>out ss rest.
      x = Returns (out, None, ss) \<and> data = out @ rest \<and> length out \<le> n \<and>
      secure_view L ss (get_buffer a t) rest) t" if "get_buffer a t = ?in" for t
    using chunks_view [OF recv(7,8), of L data] frames_nonempty [OF chunks_nonempty [OF assms(2)], of L cs]
    by (intro circuit_source.Read_view [OF refl assms(1)]) (simp_all only: that simp_thms)
  show ?thesis
    unfolding fold_passed_on [OF hops bs(1)] by (rule wp_bind_step [OF del read])
qed


text \<open>A message of three bytes, through one relay.\<close>

definition demo_hop :: hop where
  "demo_hop = \<lparr>hop_env = \<lparr>write_res = (\<lambda>_ _ _. None), open_res = (\<lambda>_ _ _. Inr demo_stream), fut_late = (\<lambda>_. False),
       await = (\<lambda>_. ret None), buf_wait = (\<lambda>_. ret False),
       gen_keypair = (\<lambda>_. Inr \<lparr>dh_Private = [], dh_Public = []\<rparr>), ctx_first = (\<lambda>_. None)\<rparr>,
     hop_cfg = demo_cfg ServerMode,
     hop_state = NewRelayMsgManager\<lparr>sessionMap := [''sid'' \<mapsto> demo_session [st_a, st_b] JointRole]\<rparr>,
     hop_in = st_a, hop_out = st_b\<rparr>"


section \<open>From the handshake to the first message\<close>

text \<open>
  \<open>message_arrives\<close>: \<open>SendMessage\<close> succeeds on the sender in the state \<open>s\<close>, and when the receiver's loop
  reads what the hops make of the messages that were written, a read of up to \<open>n\<close> bytes from the
  receiver's secure session in the state \<open>r\<close> gives the first bytes of the data, the rest being left for
  later reads.
\<close>

definition message_arrives ::
  "'l crypto_lib_scheme \<Rightarrow> string \<Rightarrow> bytes \<Rightarrow> hop list \<Rightarrow>
   ('a relay_state_scheme, 'e) relay_env_scheme \<Rightarrow> string \<Rightarrow> 'a relay_state_scheme \<Rightarrow>
   ('b relay_state_scheme, 'f) relay_env_scheme \<Rightarrow> relay_cfg \<Rightarrow> wn_stream \<Rightarrow> 'b relay_state_scheme \<Rightarrow> nat \<Rightarrow> bool" where
  "message_arrives L sid data hops E i s E' C' st r n =
     (\<exists>s' a rs. run_state (SendMessage E L data sid) s = (None, s') \<and>
        secureConnMap r sid = Some \<lparr>sc_conn = a, sc_session = rs\<rparr> \<and>
        wp (do {
          RelayInboundHandler E' C' L st (map Inr (fold (passed_on L) hops (drop (length (wire i (tr s))) (wire i (tr s')))));
          SecureSession_Read L (circuit_conn_io E' L a) n rs
        }) (\<lambda>x t. \<exists>out ss rest. x = Returns (out, None, ss) \<and> data = out @ rest \<and> length out \<le> n \<and>
             secure_view L ss (get_buffer a t) rest) r)"

lemma live_message_arrives:
  assumes "aead_ok L" and "data \<noteq> []" and "list_all (hop_ok sid) hops"
    and "circuit_live E L a sid i k fut s" and "secureConnMap s sid = Some \<lparr>sc_conn = a, sc_session = ss\<rparr>"
    and "circuit_live E' L b sid (StreamId st) k' fut' r" and "secureConnMap r sid = Some \<lparr>sc_conn = b, sc_session = rs\<rparr>"
    and "incoming fut' b r = []" and "enc ss = Some cs" and "dec rs = Some cs" and "qbuf rs = None"
  shows "message_arrives L sid data hops E i s E' C' st r n"
proof -
  have s: "one_stream L a sid i s" "\<And>t j b. write_res E t j b = None" "carries L sid i k (tr s)"
    using assms(4) by (simp_all add: circuit_live_def end_ready_def)
  obtain sess where r: "sessionMap r sid = Some sess" "Role sess \<in> {CallerRole, AnswerRole}"
      "circuitConnMap r sid = Some b" "conn_exists b r" "\<not> closed (tr r) (StreamId st)" "get_buffer b r = []"
    using assms(6,8) by (auto simp: circuit_live_def end_ready_def at_end_def incoming_def)
  obtain s' where sent: "run_state (SendMessage E L data sid) s = (None, s')"
    using SendMessage_open [OF assms(5) _ _ s(3,2), of cs data] assms(9) s(1)
    by (cases "run_state (SendMessage E L data sid) s") (auto simp: wp_run)
  show ?thesis
    unfolding message_arrives_def
    using message_delivered [OF assms(1,2,5) _ _ sent assms(3) r assms(10,11)] assms(7,9) s(1) sent by fastforce
qed

text \<open>
  C9: after the handshake the two ends can talk. When each end of a circuit that is put together and
  complete reads what the other end writes, both \<open>NewSecureConnCaller\<close> and \<open>NewSecureConnAnswer\<close> file
  a session, and in the states they leave every message that either end sends then, through any
  number of relays, arrives at the other.
\<close>

theorem handshake_then_messages:
  assumes "aead_ok L" and "xx_run L ki kr pi pr m1 m2 m3 cs1 cs2" and "codec_ok (pb_NoisePayload L)"
    and caller: "about_to_handshake E L a sid (StreamId st) k fut ki s" "payload_for L ki (cfg_privateKey C) pi"
      "identity_ok L (cfg_privateKey C) p" "incoming fut a s = frame m2"
    and answer: "about_to_handshake E' L a' sid (StreamId st') k' fut' kr r" "payload_for L kr (cfg_privateKey C') pr"
      "identity_ok L (cfg_privateKey C') q" "incoming fut' a' r = frame m1 @ frame m3"
    and dialled: "GetPeerID L (remoteWhiteNoiseId (conns s ! a)) = Inr q"
    and hops: "list_all (hop_ok sid) onward" "list_all (hop_ok sid) backward"
  shows "\<exists>s1 r1. run_state (NewSecureConnCaller E C L a) s = (Returns None, s1) \<and>
    run_state (NewSecureConnAnswer E' C' L a') r = (Returns None, r1) \<and>
    (\<forall>data n. data = [] \<or>
       message_arrives L sid data onward E (StreamId st) s1 E' C' st' r1 n \<and>
       message_arrives L sid data backward E' (StreamId st') r1 E C st s1 n)"
proof -
  obtain ss ss' where shook:
    "wp (NewSecureConnCaller E C L a) (\<lambda>x t. x = Returns None \<and>
      secureConnMap t sid = Some \<lparr>sc_conn = a, sc_session = ss\<rparr> \<and> incoming fut a t = [] \<and>
      payloads L (StreamId st) k (tr t) = payloads L (StreamId st) k (tr s) @ frame m1 @ frame m3 \<and>
      circuit_live E L a sid (StreamId st) k fut t) s"
    "wp (NewSecureConnAnswer E' C' L a') (\<lambda>x t. x = Returns None \<and>
      secureConnMap t sid = Some \<lparr>sc_conn = a', sc_session = ss'\<rparr> \<and> incoming fut' a' t = [] \<and>
      payloads L (StreamId st') k' (tr t) = payloads L (StreamId st') k' (tr r) @ frame m2 \<and>
      circuit_live E' L a' sid (StreamId st') k' fut' t) r"
    "enc ss = Some cs1" "dec ss' = Some cs1" "enc ss' = Some cs2" "dec ss = Some cs2" "qbuf ss = None" "qbuf ss' = None"
    using handshake_completes [OF assms(2,3) caller answer dialled] by blast
  obtain s1 where s1: "run_state (NewSecureConnCaller E C L a) s = (Returns None, s1)"
      "secureConnMap s1 sid = Some \<lparr>sc_conn = a, sc_session = ss\<rparr>" "incoming fut a s1 = []"
      "circuit_live E L a sid (StreamId st) k fut s1"
    using shook(1) by (auto simp: wp_run prod_eq_iff)
  obtain r1 where r1: "run_state (NewSecureConnAnswer E' C' L a') r = (Returns None, r1)"
      "secureConnMap r1 sid = Some \<lparr>sc_conn = a', sc_session = ss'\<rparr>" "incoming fut' a' r1 = []"
      "circuit_live E' L a' sid (StreamId st') k' fut' r1"
    using shook(2) by (auto simp: wp_run prod_eq_iff)
  have "message_arrives L sid data onward E (StreamId st) s1 E' C' st' r1 n" if "data \<noteq> []" for data n
    using live_message_arrives [OF assms(1) that hops(1) s1(4,2) r1(4,2,3)] shook(3,4,8) .
  moreover have "message_arrives L sid data backward E' (StreamId st') r1 E C st s1 n" if "data \<noteq> []" for data n
    using live_message_arrives [OF assms(1) that hops(2) r1(4,2) s1(4,2,3)] shook(5-7) .
  ultimately show ?thesis using s1(1) r1(1) by blast
qed

theorem handshake_then_messages_witness:
  "\<exists>s1 r1. run_state (NewSecureConnCaller (arriving_env key_i) (demo_cfg ClientMode) hs_lib 0)
       (waiting_end CallerRole (frame (8 # toy_payload))) = (Returns None, s1) \<and>
     run_state (NewSecureConnAnswer (arriving_env key_r) (demo_cfg ClientMode) hs_lib 0)
       (waiting_end AnswerRole (frame [] @ frame (7 # toy_payload))) = (Returns None, r1) \<and>
     message_arrives hs_lib ''sid'' [1, 2, 3] [demo_hop] (arriving_env key_i) ''a'' s1
       (arriving_env key_r) (demo_cfg ClientMode) st_a r1 2 \<and>
     message_arrives hs_lib ''sid'' [4] [demo_hop] (arriving_env key_r) ''a'' r1
       (arriving_env key_i) (demo_cfg ClientMode) st_a s1 2"
proof -
  have "aead_ok hs_lib" by (simp add: aead_ok_def hs_lib_def demo_lib_def size_defs)
  moreover have "list_all (hop_ok ''sid'') [demo_hop]"
    by (simp add: hop_ok_def demo_hop_def role_defs GetPattern_pair closed_def NewRelayMsgManager_def)
  moreover have "StreamId st_a = ''a''" by simp
  moreover have "incoming (\<lambda>x. x) 0 (waiting_end CallerRole (frame (8 # toy_payload))) = frame (8 # toy_payload)"
      "incoming (\<lambda>x. x) 0 (waiting_end AnswerRole (frame [] @ frame (7 # toy_payload))) = frame [] @ frame (7 # toy_payload)"
      "cfg_privateKey (demo_cfg ClientMode) = []"
      "GetPeerID hs_lib (remoteWhiteNoiseId (conns (waiting_end CallerRole (frame (8 # toy_payload))) ! 0)) = Inr ''p''"
    by (simp_all add: incoming_def waiting_end_def get_buffer_def demo_conn_def demo_cfg_def GetPeerID_def
        id_PublicKey_def Let_def UnMarshallEd25519PublicKey_def key_length_defs hs_lib_def demo_lib_def)
  ultimately show ?thesis
    using handshake_then_messages [OF _ hs_lib_laws(1,2), where st = st_a and st' = st_a and C = "demo_cfg ClientMode"
        and C' = "demo_cfg ClientMode" and p = "''p''" and q = "''p''" and onward = "[demo_hop]" and backward = "[demo_hop]"
        and s = "waiting_end CallerRole (frame (8 # toy_payload))"
        and r = "waiting_end AnswerRole (frame [] @ frame (7 # toy_payload))"
        and E = "arriving_env key_i" and E' = "arriving_env key_r" and a = 0 and a' = 0 and k = 0 and k' = 0
        and fut = "\<lambda>x. x" and fut' = "\<lambda>x. x" and sid = "''sid''"]
      waiting_end_ready hs_lib_laws(3,4)
    by fastforce
qed

section \<open>A conversation from one chat to the other\<close>

lemma concat_line_bytes:
  "concat (line_bytes who ls) = concat (map (\<lambda>l. EncodePayload (chat_payload who l)) ls)"
  by (induction ls) (simp_all add: line_bytes_def)

lemma line_bytes_fit: "list_all (\<lambda>p. fits p \<and> p \<noteq> []) (line_bytes who ls)"
  using chunks_fit by (fastforce simp: line_bytes_def list_all_iff)

lemma line_stream:
  assumes "aead_ok L" and "dec ss = Some cs" and "qbuf ss = None"
  shows "secure_stream L ss (concat (fst (encode_chunks L cs (line_bytes who ls))))
    (concat (map (\<lambda>l. EncodePayload (chat_payload who l)) ls))"
  using assms line_bytes_fit [of who ls] concat_line_bytes [of who ls]
  by (intro secure_streamI [where cs = cs and ps = "line_bytes who ls"]) (auto simp: queued_def)



end
